theory Spec2Isabelle
  imports Complex_Main "HOL-Library.Multiset" "HOL-Library.Word"
begin

section \<open>Common vocabulary\<close>

text \<open>
  The failures of the C++ code are values of the model: a failed \<^verbatim>\<open>assert\<close>, a read
  through a null pointer, an access outside an array, and the exception
  \<^verbatim>\<open>std::length_error\<close> of a vector asked to grow beyond its maximal size.
\<close>

datatype error = AssertFailed | NullDeref | OutOfRange | LengthError

text \<open>
  The environment of a run. First the toggles, each read once with \<^verbatim>\<open>getenv\<close> into a
  function-local static: \<^verbatim>\<open>HMAT_L2_CRITERION\<close>, \<^verbatim>\<open>HMAT_TRUNC_INITPIV\<close>,
  \<^verbatim>\<open>HMAT_RECOMPRESS=MGS\<close>, \<^verbatim>\<open>HMAT_MGS_BESTRK\<close>, \<^verbatim>\<open>HMAT_NEW_RKRK\<close>. Then the
  arithmetic of the type \<^verbatim>\<open>double\<close>: a finite double is the real number it denotes, and
  the machine's \<^verbatim>\<open>+\<close>, \<^verbatim>\<open>*\<close> and \<^verbatim>\<open>sqrt\<close> on doubles, which round the exact result, are
  the functions \<open>double_add\<close>, \<open>double_mul\<close> and \<open>double_sqrt\<close>. The comparisons of
  doubles are exact. The model is written for any such operations; infinities and NaN
  are not values of the model.
\<close>

record environment =
  useL2Criterion :: bool
  useInitPivot :: bool
  usedRecomp :: bool
  useBestRk :: bool
  newRKRK :: bool
  double_add :: "real \<Rightarrow> real \<Rightarrow> real"
  double_mul :: "real \<Rightarrow> real \<Rightarrow> real"
  double_sqrt :: "real \<Rightarrow> real"

section \<open>Approximation control: \<^verbatim>\<open>RkApproximationControl::findK\<close>\<close>

text \<open>
  The process-wide control record. The field \<^verbatim>\<open>k\<close> of the source is named
  \<open>approx_k\<close> here.
\<close>

record RkApproximationControl =
  approx_k :: int
  recompressionEpsilon :: real

text \<open>
  \<^verbatim>\<open>for (i = 0; i < sigma.rows; i++) threshold_eigenvalue += sigma[i];\<close> Each \<^verbatim>\<open>+=\<close>
  is one addition of doubles.
\<close>

fun sum_sigma :: "environment \<Rightarrow> real \<Rightarrow> real list \<Rightarrow> real" where
  "sum_sigma env acc [] = acc"
| "sum_sigma env acc (s # ss) = sum_sigma env (double_add env acc s) ss"

text \<open>
  \<^verbatim>\<open>for (i = 0; i < sigma.rows; i++) if (sigma[i] <= threshold_eigenvalue) break;\<close>
  The first argument is the part of the vector not yet visited, the last one the
  loop counter.
\<close>

fun first_below :: "real list \<Rightarrow> real \<Rightarrow> nat \<Rightarrow> nat" where
  "first_below [] thr i = i"
| "first_below (s # ss) thr i = (if s \<le> thr then i else first_below ss thr (Suc i))"

text \<open>
  \<^verbatim>\<open>findK\<close>. The vector \<open>sigma\<close> is the list of its \<^verbatim>\<open>rows\<close> entries. Reading
  \<^verbatim>\<open>sigma[0]\<close> of a vector with no entry is an access outside the array.
\<close>

definition findK :: "environment \<Rightarrow> RkApproximationControl \<Rightarrow> real list \<Rightarrow> real \<Rightarrow> error + int" where
  "findK env ctl sigma epsilon =
     (let newK = approx_k ctl in
      if newK \<noteq> 0 then Inr (min newK (int (length sigma)))
      else if \<not> (epsilon \<ge> 0) then Inl AssertFailed
      else
        (case (if \<not> useL2Criterion env then Inr (sum_sigma env 0 sigma)
               else (case sigma of [] \<Rightarrow> Inl OutOfRange | s0 # _ \<Rightarrow> Inr s0)) of
           Inl e \<Rightarrow> Inl e
         | Inr threshold_eigenvalue \<Rightarrow>
             Inr (int (first_below sigma (double_mul env threshold_eigenvalue epsilon) 0))))"

section \<open>Collaborators of the Rk algebra\<close>

text \<open>
  Scalars: the template parameter \<^verbatim>\<open>T\<close> ranges over single and double precision real
  and complex numbers. The model computes with exact complex numbers (a real scalar is
  a complex number with no imaginary part), so rounding is not modelled.
\<close>

type_synonym scalar = complex

text \<open>
  Modelled from the spec: \<^verbatim>\<open>IndexSet\<close> is declared in \<^verbatim>\<open>cluster_tree.hpp\<close>, which is
  not among the sources. It is "a contiguous range with an offset and a size,
  supporting \<^verbatim>\<open>isSubset\<close>, \<^verbatim>\<open>intersects\<close>, equality" (fields \<open>is_offset\<close> and
  \<open>is_size\<close>). The Rk block holds pointers to
  index sets owned by the cluster tree; the model holds their values, and compares
  values where the source compares the pointers.
\<close>

record IndexSet =
  is_offset :: nat
  is_size :: nat

definition isSubset :: "IndexSet \<Rightarrow> IndexSet \<Rightarrow> bool" where
  "isSubset s t \<longleftrightarrow> is_offset t \<le> is_offset s \<and> is_offset s + is_size s \<le> is_offset t + is_size t"

definition intersects :: "IndexSet \<Rightarrow> IndexSet \<Rightarrow> bool" where
  "intersects s t \<longleftrightarrow>
     max (is_offset s) (is_offset t) < min (is_offset s + is_size s) (is_offset t + is_size t)"

text \<open>
  Modelled from the spec: \<^verbatim>\<open>ScalarArray\<close> is declared in \<^verbatim>\<open>scalar_array.hpp\<close>, which
  is not among the sources. It is "a two-dimensional column-major array of scalars"
  that "carries an ortho flag"; the memory layout is left out, the entry in row \<open>i\<close>
  and column \<open>j\<close> is \<open>sa_m A i j\<close>, and only the entries with \<open>i < sa_rows A\<close> and
  \<open>j < sa_cols A\<close> belong to the array. The fields \<^verbatim>\<open>rows\<close>, \<^verbatim>\<open>cols\<close>, \<^verbatim>\<open>m\<close> and
  the flag carry the prefix \<open>sa_\<close>.
\<close>

record ScalarArray =
  sa_rows :: nat
  sa_cols :: nat
  sa_m :: "nat \<Rightarrow> nat \<Rightarrow> scalar"
  sa_ortho :: bool

text \<open>
  Modelled from the spec: the kernel operations on panels the Rk algebra calls: a fresh
  array is "all zero"; \<^verbatim>\<open>copy\<close>, \<^verbatim>\<open>scale\<close>, \<^verbatim>\<open>conjugate\<close>, \<^verbatim>\<open>clear\<close> and \<^verbatim>\<open>axpy\<close>
  (here with the prefix \<open>sa_\<close>, the Rk block has methods of the same names);
  \<^verbatim>\<open>gemm\<close>, the general
  matrix multiply \<open>C \<leftarrow> alpha * op(A) * op(B) + beta * C\<close>; the "submatrix view at an
  offset" with \<^verbatim>\<open>copyMatrixAtOffset\<close>; \<^verbatim>\<open>multiplyWithDiag\<close>. An operation
  that rewrites entries clears the ortho flag, a copy keeps it.
\<close>

definition new_ScalarArray :: "nat \<Rightarrow> nat \<Rightarrow> ScalarArray" where
  "new_ScalarArray r c = \<lparr>sa_rows = r, sa_cols = c, sa_m = (\<lambda>i j. 0), sa_ortho = False\<rparr>"

definition sa_copy :: "ScalarArray \<Rightarrow> ScalarArray" where
  "sa_copy A = A"

definition sa_scale :: "scalar \<Rightarrow> ScalarArray \<Rightarrow> ScalarArray" where
  "sa_scale alpha A = A\<lparr>sa_m := (\<lambda>i j. alpha * sa_m A i j), sa_ortho := False\<rparr>"

definition sa_clear :: "ScalarArray \<Rightarrow> ScalarArray" where
  "sa_clear A = A\<lparr>sa_m := (\<lambda>i j. 0), sa_ortho := False\<rparr>"

definition sa_conjugate :: "ScalarArray \<Rightarrow> ScalarArray" where
  "sa_conjugate A = A\<lparr>sa_m := (\<lambda>i j. cnj (sa_m A i j)), sa_ortho := False\<rparr>"

text \<open>The entry \<open>(i, j)\<close> of \<open>op(A)\<close> for \<open>op\<close> one of \<^verbatim>\<open>'N'\<close>, \<^verbatim>\<open>'T'\<close>, \<^verbatim>\<open>'C'\<close>.\<close>

definition op_entry :: "char \<Rightarrow> ScalarArray \<Rightarrow> nat \<Rightarrow> nat \<Rightarrow> scalar" where
  "op_entry tr A i j =
     (if tr = CHR ''N'' then sa_m A i j
      else if tr = CHR ''T'' then sa_m A j i
      else cnj (sa_m A j i))"

definition gemm :: "char \<Rightarrow> char \<Rightarrow> scalar \<Rightarrow> ScalarArray \<Rightarrow> ScalarArray \<Rightarrow> scalar \<Rightarrow> ScalarArray \<Rightarrow> ScalarArray" where
  "gemm transA transB alpha A B beta C =
     C\<lparr>sa_m := (\<lambda>i j. alpha * (\<Sum>l<(if transA = CHR ''N'' then sa_cols A else sa_rows A).
                    op_entry transA A i l * op_entry transB B l j) + beta * sa_m C i j),
       sa_ortho := False\<rparr>"

text \<open>
  \<^verbatim>\<open>ScalarArray(src, rowOffset, rows, colOffset, cols)\<close>: the view of a block of \<open>src\<close>.
  The source's view shares the storage of \<open>src\<close>; the model writes a changed view back
  with \<open>copyMatrixAtOffset\<close>.
\<close>

definition subArray :: "ScalarArray \<Rightarrow> nat \<Rightarrow> nat \<Rightarrow> nat \<Rightarrow> nat \<Rightarrow> ScalarArray" where
  "subArray src rowOffset nrows colOffset ncols =
     \<lparr>sa_rows = nrows, sa_cols = ncols,
      sa_m = (\<lambda>i j. sa_m src (i + rowOffset) (j + colOffset)), sa_ortho = False\<rparr>"

text \<open>\<^verbatim>\<open>dest->copyMatrixAtOffset(A, rowOffset, colOffset)\<close>, returning the new \<open>dest\<close>.\<close>

definition copyMatrixAtOffset :: "ScalarArray \<Rightarrow> nat \<Rightarrow> nat \<Rightarrow> ScalarArray \<Rightarrow> ScalarArray" where
  "copyMatrixAtOffset A rowOffset colOffset dest =
     dest\<lparr>sa_m := (\<lambda>i j. if rowOffset \<le> i \<and> i < rowOffset + sa_rows A
                             \<and> colOffset \<le> j \<and> j < colOffset + sa_cols A
                          then sa_m A (i - rowOffset) (j - colOffset) else sa_m dest i j),
          sa_ortho := False\<rparr>"

definition sa_axpy :: "scalar \<Rightarrow> ScalarArray \<Rightarrow> ScalarArray \<Rightarrow> ScalarArray" where
  "sa_axpy alpha X Y = Y\<lparr>sa_m := (\<lambda>i j. sa_m Y i j + alpha * sa_m X i j), sa_ortho := False\<rparr>"

text \<open>\<^verbatim>\<open>A->multiplyWithDiag(d)\<close>: column \<open>j\<close> of \<open>A\<close> is multiplied by \<open>d[j]\<close>.\<close>

definition multiplyWithDiag :: "real list \<Rightarrow> ScalarArray \<Rightarrow> ScalarArray" where
  "multiplyWithDiag d A =
     A\<lparr>sa_m := (\<lambda>i j. sa_m A i j * (if j < length d then complex_of_real (d ! j) else 1)),
       sa_ortho := False\<rparr>"

text \<open>
  Modelled from the spec: the dense block \<^verbatim>\<open>FullMatrix\<close> (\<^verbatim>\<open>full_matrix.hpp\<close> is not
  among the sources) is a "pair (row-IndexSet, col-IndexSet) plus a scalar panel of
  matching shape"; \<^verbatim>\<open>rows()\<close> and \<^verbatim>\<open>cols()\<close> are the panel's counts. The
  members \<^verbatim>\<open>rows_\<close>, \<^verbatim>\<open>cols_\<close> and \<^verbatim>\<open>data\<close> carry the prefix \<open>fm_\<close>.
\<close>

record FullMatrix =
  fm_rows :: IndexSet
  fm_cols :: IndexSet
  fm_data :: ScalarArray

definition new_FullMatrix :: "IndexSet \<Rightarrow> IndexSet \<Rightarrow> FullMatrix" where
  "new_FullMatrix r c = \<lparr>fm_rows = r, fm_cols = c, fm_data = new_ScalarArray (is_size r) (is_size c)\<rparr>"

text \<open>
  The compression-method tag is an enumeration (\<^verbatim>\<open>compression.hpp\<close> is not among the
  sources); the model holds its integer value, which is what \<^verbatim>\<open>std::min\<close> compares.
  The enumerator \<^verbatim>\<open>NoCompression\<close> is a parameter of the functions that name it.
\<close>

type_synonym CompressionMethod = nat

text \<open>A pointer that may be null is an option; reading through it fails on \<open>None\<close>.\<close>

definition deref :: "'a option \<Rightarrow> error + 'a" where
  "deref p = (case p of None \<Rightarrow> Inl NullDeref | Some x \<Rightarrow> Inr x)"

text \<open>Sequencing of fallible steps: the first failure ends the computation.\<close>

definition ebind :: "error + 'a \<Rightarrow> ('a \<Rightarrow> error + 'b) \<Rightarrow> error + 'b" where
  "ebind x f = (case x of Inl e \<Rightarrow> Inl e | Inr v \<Rightarrow> f v)"

definition assert :: "bool \<Rightarrow> (error + 'a) \<Rightarrow> error + 'a" where
  "assert c rest = (if c then rest else Inl AssertFailed)"

section \<open>The Rk block: \<^verbatim>\<open>RkMatrix\<close>\<close>

text \<open>
  The members \<^verbatim>\<open>rows\<close>, \<^verbatim>\<open>cols\<close>, \<^verbatim>\<open>a\<close>, \<^verbatim>\<open>b\<close> and \<^verbatim>\<open>method\<close> carry the prefix
  \<open>rk_\<close>. The owned panels are pointers that are null for the empty block.
\<close>

record RkMatrix =
  rk_rows :: IndexSet
  rk_cols :: IndexSet
  rk_a :: "ScalarArray option"
  rk_b :: "ScalarArray option"
  rk_method :: CompressionMethod

text \<open>
  Modelled from the spec: \<^verbatim>\<open>rank()\<close> is defined in \<^verbatim>\<open>rk_matrix.hpp\<close>, which is not
  among the sources: "\<^verbatim>\<open>rank() = k\<close> if present else 0", the column count of panel \<open>a\<close>.
\<close>

definition rank :: "RkMatrix \<Rightarrow> nat" where
  "rank rk = (case rk_a rk of None \<Rightarrow> 0 | Some pa \<Rightarrow> sa_cols pa)"

text \<open>The constructor \<^verbatim>\<open>RkMatrix(_a, _rows, _b, _cols, _method)\<close>.\<close>

definition new_RkMatrix :: "ScalarArray option \<Rightarrow> IndexSet \<Rightarrow> ScalarArray option \<Rightarrow> IndexSet
    \<Rightarrow> CompressionMethod \<Rightarrow> error + RkMatrix" where
  "new_RkMatrix pa rows pb cols method =
     (let this = \<lparr>rk_rows = rows, rk_cols = cols, rk_a = pa, rk_b = pb, rk_method = method\<rparr> in
      if pa = None \<and> pb = None then Inr this
      else ebind (deref pa) (\<lambda>a. assert (sa_rows a = is_size rows)
            (ebind (deref pb) (\<lambda>b. assert (sa_rows b = is_size cols) (Inr this)))))"

text \<open>\<^verbatim>\<open>evalArray(result)\<close> with a result array given, and \<^verbatim>\<open>eval()\<close>.\<close>

definition evalArray :: "RkMatrix \<Rightarrow> ScalarArray \<Rightarrow> error + ScalarArray" where
  "evalArray this result =
     (if rank this \<noteq> 0
      then ebind (deref (rk_a this)) (\<lambda>a. ebind (deref (rk_b this)) (\<lambda>b.
             Inr (gemm (CHR ''N'') (CHR ''T'') 1 a b 0 result)))
      else Inr (sa_clear result))"

definition eval :: "RkMatrix \<Rightarrow> error + FullMatrix" where
  "eval this =
     (let result = new_FullMatrix (rk_rows this) (rk_cols this) in
      ebind (evalArray this (fm_data result)) (\<lambda>d. Inr (result\<lparr>fm_data := d\<rparr>)))"

text \<open>\<^verbatim>\<open>scale(alpha)\<close>: "We need just to scale the first matrix, A."\<close>

definition scale :: "scalar \<Rightarrow> RkMatrix \<Rightarrow> RkMatrix" where
  "scale alpha this =
     (case rk_a this of None \<Rightarrow> this | Some a \<Rightarrow> this\<lparr>rk_a := Some (sa_scale alpha a)\<rparr>)"

text \<open>\<^verbatim>\<open>transpose()\<close>: the two \<^verbatim>\<open>std::swap\<close>.\<close>

definition transpose_rk :: "RkMatrix \<Rightarrow> RkMatrix" where
  "transpose_rk this =
     this\<lparr>rk_a := rk_b this, rk_b := rk_a this, rk_rows := rk_cols this, rk_cols := rk_rows this\<rparr>"

text \<open>\<^verbatim>\<open>clear()\<close>: both panels are deleted and the pointers set to null.\<close>

definition clear :: "RkMatrix \<Rightarrow> RkMatrix" where
  "clear this = this\<lparr>rk_a := None, rk_b := None\<rparr>"

text \<open>
  \<^verbatim>\<open>swap(other)\<close> exchanges the panels and the method of the two blocks; the result is
  the pair (this, other) after the call.
\<close>

definition swap :: "RkMatrix \<Rightarrow> RkMatrix \<Rightarrow> error + (RkMatrix \<times> RkMatrix)" where
  "swap this other =
     assert (rk_rows this = rk_rows other) (assert (rk_cols this = rk_cols other)
       (Inr (this\<lparr>rk_a := rk_a other, rk_b := rk_b other, rk_method := rk_method other\<rparr>,
             other\<lparr>rk_a := rk_a this, rk_b := rk_b this, rk_method := rk_method this\<rparr>)))"

text \<open>
  \<^verbatim>\<open>gemv(trans, alpha, x, beta, y)\<close>. The method is \<^verbatim>\<open>const\<close>: it writes \<open>y\<close> only. The
  result is the pair of the block after the call and the new \<open>y\<close>; the temporaries \<open>z\<close>
  and \<open>newB\<close> are local.
\<close>

definition gemv :: "char \<Rightarrow> scalar \<Rightarrow> ScalarArray \<Rightarrow> scalar \<Rightarrow> ScalarArray \<Rightarrow> RkMatrix
    \<Rightarrow> error + (RkMatrix \<times> ScalarArray)" where
  "gemv tr alpha x beta y this =
     (if rank this = 0 then Inr (this, if beta \<noteq> 1 then sa_scale beta y else y)
      else ebind (deref (rk_a this)) (\<lambda>a. ebind (deref (rk_b this)) (\<lambda>b.
        if tr = CHR ''N'' then
          (let z = gemm (CHR ''T'') (CHR ''N'') 1 b x 0 (new_ScalarArray (sa_cols b) (sa_cols x))
           in Inr (this, gemm (CHR ''N'') (CHR ''N'') alpha a z beta y))
        else if tr = CHR ''T'' then
          (let z = gemm (CHR ''T'') (CHR ''N'') 1 a x 0 (new_ScalarArray (sa_cols a) (sa_cols x))
           in Inr (this, gemm (CHR ''N'') (CHR ''N'') alpha b z beta y))
        else assert (tr = CHR ''C'')
          (let z = gemm (CHR ''C'') (CHR ''N'') 1 a x 0 (new_ScalarArray (sa_cols a) (sa_cols x));
               newB = sa_conjugate (sa_copy b)
           in Inr (this, gemm (CHR ''N'') (CHR ''N'') alpha newB z beta y)))))"

section \<open>Numerical kernels taken as parameters\<close>

text \<open>
  The factorisations are implemented outside the sources (\<^verbatim>\<open>scalar_array.cpp\<close>,
  \<^verbatim>\<open>compression.cpp\<close>, LAPACK). The Rk algebra is modelled for any such kernels. A
  kernel that works in place on an array whose shape it cannot change is a function to
  the new entries:
  \<^item> \<open>svdDecomposition r\<close> is the triple \<open>(u, sigma, v)\<close> that \<^verbatim>\<open>r.svdDecomposition(&u,
    &sigma, &v)\<close> allocates;
  \<^item> \<open>qrDecomposition a p\<close> is the pair of the entries of the panel \<open>a\<close> (it then holds
    \<open>Q\<close>) and of the entries of the factor \<open>ra\<close> after \<^verbatim>\<open>a->qrDecomposition(&ra, p)\<close>;
  \<^item> \<open>productQ a c\<close> gives the entries of \<open>c\<close> after \<^verbatim>\<open>a->productQ('L', 'N', c)\<close>;
  \<^item> \<open>modifiedGramSchmidt a eps p\<close> is the triple of the rank returned by
    \<^verbatim>\<open>a->modifiedGramSchmidt(&ra, eps, p)\<close>, which is the column count of \<open>a\<close> after the
    call, of the entries of \<open>a\<close> and of the entries of \<open>ra\<close> after the call;
  \<^item> \<open>truncatedSvd m eps\<close> is the Rk block that \<^verbatim>\<open>truncatedSvd(m, eps)\<close> returns.
\<close>

record kernels =
  svdDecomposition :: "ScalarArray \<Rightarrow> ScalarArray \<times> real list \<times> ScalarArray"
  qrDecomposition :: "ScalarArray \<Rightarrow> int \<Rightarrow> (nat \<Rightarrow> nat \<Rightarrow> scalar) \<times> (nat \<Rightarrow> nat \<Rightarrow> scalar)"
  productQ :: "ScalarArray \<Rightarrow> ScalarArray \<Rightarrow> nat \<Rightarrow> nat \<Rightarrow> scalar"
  modifiedGramSchmidt :: "ScalarArray \<Rightarrow> real \<Rightarrow> int
    \<Rightarrow> nat \<times> (nat \<Rightarrow> nat \<Rightarrow> scalar) \<times> (nat \<Rightarrow> nat \<Rightarrow> scalar)"
  truncatedSvd :: "FullMatrix \<Rightarrow> real \<Rightarrow> RkMatrix"

text \<open>\<^verbatim>\<open>u->cols = newK\<close>: the array is cut to its first columns.\<close>

definition set_cols :: "nat \<Rightarrow> ScalarArray \<Rightarrow> ScalarArray" where
  "set_cols n A = A\<lparr>sa_cols := n\<rparr>"

text \<open>\<^verbatim>\<open>for (int i = 0; i < newK; i++) sigma[i] = sqrt(sigma[i]);\<close>\<close>

definition sqrt_first :: "environment \<Rightarrow> nat \<Rightarrow> real list \<Rightarrow> error + real list" where
  "sqrt_first env n sigma =
     (if n \<le> length sigma then Inr (map (double_sqrt env) (take n sigma) @ drop n sigma)
      else Inl OutOfRange)"

section \<open>Recompression: \<^verbatim>\<open>truncate\<close> and \<^verbatim>\<open>mGSTruncate\<close>\<close>

text \<open>
  The two methods allocate and release arrays. The model keeps a ledger of the arrays
  that are allocated: the names of the source's variables, with \<open>a\<close> and \<open>b\<close> for the
  panels the block owns when the method is called. Every \<^verbatim>\<open>new\<close>, every array
  declared on the stack and every array a kernel allocates for the caller adds a name;
  every \<^verbatim>\<open>delete\<close> and every end of a scope removes one. A method returns the block
  next to the ledger at the return.
\<close>

type_synonym ledger = "string list"

definition new_obj :: "string \<Rightarrow> ledger \<Rightarrow> ledger" where
  "new_obj x led = x # led"

definition delete_obj :: "string \<Rightarrow> ledger \<Rightarrow> ledger" where
  "delete_obj x led = remove1 x led"

definition panels_ledger :: "RkMatrix \<Rightarrow> ledger" where
  "panels_ledger this =
     (case rk_a this of None \<Rightarrow> [] | Some _ \<Rightarrow> [''a''])
     @ (case rk_b this of None \<Rightarrow> [] | Some _ \<Rightarrow> [''b''])"

text \<open>
  The new panel \<open>Q * U\<close> of \<^verbatim>\<open>truncate\<close>, from the panel \<open>a\<close> after its QR
  decomposition and the scaled factor \<open>u\<close>. The source has this code twice, for
  \<open>newA\<close> and for \<open>newB\<close>.
\<close>

definition rebuild_panel :: "kernels \<Rightarrow> ScalarArray \<Rightarrow> ScalarArray \<Rightarrow> nat \<Rightarrow> nat \<Rightarrow> nat \<Rightarrow> ScalarArray" where
  "rebuild_panel kern a u initialPivot nrows newK =
     (let newA = new_ScalarArray nrows newK;
          newA =
            (if initialPivot \<noteq> 0 then
               (let sub_a = subArray a 0 (sa_rows a) initialPivot (sa_cols a - initialPivot);
                    sub_u = subArray u initialPivot (sa_rows u - initialPivot) 0 (sa_cols u);
                    newA = copyMatrixAtOffset sub_u 0 0 newA;
                    newA = newA\<lparr>sa_m := productQ kern sub_a newA\<rparr>;
                    sub_a2 = subArray a 0 (sa_rows a) 0 initialPivot;
                    sub_u2 = subArray u 0 initialPivot 0 (sa_cols u)
                in gemm (CHR ''N'') (CHR ''N'') 1 sub_a2 sub_u2 1 newA)
             else
               (let newA = copyMatrixAtOffset u 0 0 newA
                in newA\<lparr>sa_m := productQ kern a newA\<rparr>))
      in newA\<lparr>sa_ortho := sa_ortho u\<rparr>)"

text \<open>
  \<^verbatim>\<open>mGSTruncate(epsilon, initialPivotA, initialPivotB)\<close>, in two definitions: first
  the part after the two Gram-Schmidt steps (from the product \<open>matR\<close> on), then the
  method from its start.
\<close>

definition mGSTruncate_svd :: "kernels \<Rightarrow> environment \<Rightarrow> RkApproximationControl \<Rightarrow> real
    \<Rightarrow> RkMatrix \<Rightarrow> ScalarArray \<Rightarrow> ScalarArray \<Rightarrow> ScalarArray \<Rightarrow> ScalarArray \<Rightarrow> nat \<Rightarrow> nat
    \<Rightarrow> ledger \<Rightarrow> error + (RkMatrix \<times> ledger)" where
  "mGSTruncate_svd kern env approx epsilon this a b ra rb kA kB led0 =
     (let led = new_obj ''matR'' led0;
          matR = gemm (CHR ''N'') (CHR ''T'') 1 ra rb 0 (new_ScalarArray kA kB)
      in (case svdDecomposition kern matR of (ur, sr, vr) \<Rightarrow>
           (let led = new_obj ''vr'' (new_obj ''sr'' (new_obj ''ur'' led));
                led = delete_obj ''ra'' (delete_obj ''rb'' (delete_obj ''matR'' led))
            in ebind (findK env approx sr epsilon) (\<lambda>newK.
                 if newK = 0 then
                   Inr (clear this,
                        delete_obj ''b'' (delete_obj ''a''
                          (delete_obj ''sr'' (delete_obj ''vr'' (delete_obj ''ur'' led)))))
                 else assert (newK > 0)
                   (ebind (sqrt_first env (nat newK) sr) (\<lambda>sr.
                      let ur = multiplyWithDiag sr (set_cols (nat newK) ur);
                          vr = multiplyWithDiag sr (set_cols (nat newK) vr);
                          led = delete_obj ''sr'' led;
                          led = new_obj ''newA'' led;
                          newA = gemm (CHR ''N'') (CHR ''N'') 1 a ur 0
                                   (new_ScalarArray (sa_rows a) (nat newK));
                          led = new_obj ''newB'' led;
                          newB = gemm (CHR ''N'') (CHR ''N'') 1 b vr 0
                                   (new_ScalarArray (sa_rows b) (nat newK));
                          newA = newA\<lparr>sa_ortho := sa_ortho ur\<rparr>;
                          newB = newB\<lparr>sa_ortho := sa_ortho vr\<rparr>;
                          led = delete_obj ''vr'' (delete_obj ''ur'' led);
                          led = delete_obj ''b'' (delete_obj ''a'' led)
                      in Inr (this\<lparr>rk_a := Some newA, rk_b := Some newB\<rparr>, led)))))))"

definition mGSTruncate :: "kernels \<Rightarrow> environment \<Rightarrow> RkApproximationControl \<Rightarrow> real \<Rightarrow> int \<Rightarrow> int
    \<Rightarrow> RkMatrix \<Rightarrow> error + (RkMatrix \<times> ledger)" where
  "mGSTruncate kern env approx epsilon initialPivotA initialPivotB this =
     (let led = panels_ledger this in
      if rank this = 0 then assert (rk_a this = None \<and> rk_b this = None) (Inr (this, led))
      else
        (let krank = rank this;
             led = new_obj ''ra'' led
         in ebind (deref (rk_a this)) (\<lambda>a.
              (case modifiedGramSchmidt kern a epsilon initialPivotA of (kA, a_m, ra_m) \<Rightarrow>
                (let a = a\<lparr>sa_cols := kA, sa_m := a_m, sa_ortho := False\<rparr>;
                     ra = (new_ScalarArray krank krank)\<lparr>sa_m := ra_m\<rparr>;
                     this = this\<lparr>rk_a := Some a\<rparr>
                 in if kA = 0 then
                      Inr (clear this, delete_obj ''ra'' (delete_obj ''b'' (delete_obj ''a'' led)))
                    else
                      (let led = new_obj ''rb'' led
                       in ebind (deref (rk_b this)) (\<lambda>b.
                            (case modifiedGramSchmidt kern b epsilon initialPivotB of
                               (kB, b_m, rb_m) \<Rightarrow>
                                 (let b = b\<lparr>sa_cols := kB, sa_m := b_m, sa_ortho := False\<rparr>;
                                      rb = (new_ScalarArray krank krank)\<lparr>sa_m := rb_m\<rparr>;
                                      this = this\<lparr>rk_b := Some b\<rparr>
                                  in if kB = 0 then
                                       Inr (clear this, delete_obj ''ra'' (delete_obj ''rb''
                                              (delete_obj ''b'' (delete_obj ''a'' led))))
                                     else mGSTruncate_svd kern env approx epsilon this a b ra rb
                                            kA kB led)))))))))"

text \<open>
  \<^verbatim>\<open>truncate(epsilon, initialPivotA, initialPivotB)\<close>, named \<open>truncate_rk\<close> (every
  record has a \<open>truncate\<close> of its own), in two definitions: first the part from the two
  QR decompositions on, then the method from its start. A negative
  \<open>newK\<close> (a negative configured rank) cannot be the column count of the new panels.
\<close>

definition truncate_qr_svd :: "kernels \<Rightarrow> environment \<Rightarrow> RkApproximationControl \<Rightarrow> real
    \<Rightarrow> nat \<Rightarrow> nat \<Rightarrow> RkMatrix \<Rightarrow> ledger \<Rightarrow> error + (RkMatrix \<times> ledger)" where
  "truncate_qr_svd kern env approx epsilon initialPivotA initialPivotB this led0 =
     ebind (deref (rk_a this)) (\<lambda>a.
       (case qrDecomposition kern a (int initialPivotA) of (a_m, ra_m) \<Rightarrow>
         (let led = new_obj ''ra'' led0;
              a = a\<lparr>sa_m := a_m, sa_ortho := False\<rparr>;
              ra = (new_ScalarArray (rank this) (rank this))\<lparr>sa_m := ra_m\<rparr>;
              led = new_obj ''rb'' led
          in ebind (deref (rk_b this)) (\<lambda>b.
               (case qrDecomposition kern b (int initialPivotB) of (b_m, rb_m) \<Rightarrow>
                 (let b = b\<lparr>sa_m := b_m, sa_ortho := False\<rparr>;
                      rb = (new_ScalarArray (rank this) (rank this))\<lparr>sa_m := rb_m\<rparr>;
                      this = this\<lparr>rk_a := Some a, rk_b := Some b\<rparr>;
                      led = new_obj ''r'' led;
                      r = gemm (CHR ''N'') (CHR ''T'') 1 ra rb 0
                            (new_ScalarArray (rank this) (rank this))
                  in (case svdDecomposition kern r of (u, sigma, v) \<Rightarrow>
                       (let led = new_obj ''v'' (new_obj ''sigma'' (new_obj ''u'' led));
                            led = delete_obj ''ra'' (delete_obj ''rb'' (delete_obj ''r'' led))
                        in ebind (findK env approx sigma epsilon) (\<lambda>newK.
                             if newK = 0 then
                               Inr (clear this,
                                    delete_obj ''b'' (delete_obj ''a''
                                      (delete_obj ''sigma'' (delete_obj ''v'' (delete_obj ''u'' led)))))
                             else if newK < 0 then Inl OutOfRange
                             else
                               ebind (sqrt_first env (nat newK) sigma) (\<lambda>sigma.
                                 let u = set_cols (nat newK) u;
                                     sigma = take (nat newK) sigma;
                                     v = set_cols (nat newK) v;
                                     u = multiplyWithDiag sigma u;
                                     v = multiplyWithDiag sigma v;
                                     led = delete_obj ''sigma'' led;
                                     led = new_obj ''newA'' led;
                                     newA = rebuild_panel kern a u initialPivotA
                                              (is_size (rk_rows this)) (nat newK);
                                     led = delete_obj ''a'' (delete_obj ''u'' led);
                                     led = new_obj ''newB'' led;
                                     newB = rebuild_panel kern b v initialPivotB
                                              (is_size (rk_cols this)) (nat newK);
                                     led = delete_obj ''b'' (delete_obj ''v'' led)
                                 in Inr (this\<lparr>rk_a := Some newA, rk_b := Some newB\<rparr>, led)))))))))))"

definition truncate_rk :: "kernels \<Rightarrow> environment \<Rightarrow> RkApproximationControl \<Rightarrow> real \<Rightarrow> int \<Rightarrow> int
    \<Rightarrow> RkMatrix \<Rightarrow> error + (RkMatrix \<times> ledger)" where
  "truncate_rk kern env approx epsilon initialPivotA initialPivotB this =
     (let initialPivotA = (if \<not> useInitPivot env then 0 else initialPivotA);
          initialPivotB = (if \<not> useInitPivot env then 0 else initialPivotB);
          led = panels_ledger this
      in assert (0 \<le> initialPivotA \<and> initialPivotA \<le> int (rank this))
        (assert (0 \<le> initialPivotB \<and> initialPivotB \<le> int (rank this))
          (if rank this = 0 then assert (rk_a this = None \<and> rk_b this = None) (Inr (this, led))
           else assert (rank this \<le> is_size (rk_rows this))
             (if min (is_size (rk_rows this)) (is_size (rk_cols this)) < rank this then
                ebind (eval this) (\<lambda>tmp.
                  let led = new_obj ''tmp'' led;
                      rk = truncatedSvd kern tmp epsilon;
                      led = (case rk_a rk of None \<Rightarrow> led | Some _ \<Rightarrow> new_obj ''rk->a'' led);
                      led = (case rk_b rk of None \<Rightarrow> led | Some _ \<Rightarrow> new_obj ''rk->b'' led);
                      led = delete_obj ''tmp'' led
                  in ebind (swap this rk) (\<lambda>(this, rk).
                       Inr (this, delete_obj ''b'' (delete_obj ''a'' led))))
              else if usedRecomp env then
                mGSTruncate kern env approx epsilon initialPivotA initialPivotB this
              else
                truncate_qr_svd kern env approx epsilon (nat initialPivotA) (nat initialPivotB)
                  this led))))"

section \<open>Coalesced sums: \<^verbatim>\<open>formattedAddParts\<close>\<close>

text \<open>
  The dense-list variant \<^verbatim>\<open>formattedAddParts(alpha, parts, n)\<close> with \<^verbatim>\<open>FullMatrix\<close>
  parts. The loop adds each part into the view of \<open>me\<close> at its offsets.
\<close>

fun axpy_parts :: "IndexSet \<Rightarrow> IndexSet \<Rightarrow> (scalar \<times> FullMatrix option) list \<Rightarrow> FullMatrix
    \<Rightarrow> error + FullMatrix" where
  "axpy_parts rows cols [] me = Inr me"
| "axpy_parts rows cols ((al, None) # rest) me = axpy_parts rows cols rest me"
| "axpy_parts rows cols ((al, Some part) # rest) me =
     assert (isSubset (fm_rows part) rows) (assert (isSubset (fm_cols part) cols)
       (let rowOffset = is_offset (fm_rows part) - is_offset rows;
            colOffset = is_offset (fm_cols part) - is_offset cols;
            maxCol = is_size (fm_cols part);
            maxRow = is_size (fm_rows part);
            sub = subArray (fm_data me) rowOffset maxRow colOffset maxCol;
            sub = sa_axpy al (fm_data part) sub
        in axpy_parts rows cols rest
             (me\<lparr>fm_data := copyMatrixAtOffset sub rowOffset colOffset (fm_data me)\<rparr>)))"

definition formattedAddParts_full :: "kernels \<Rightarrow> RkApproximationControl \<Rightarrow> scalar list
    \<Rightarrow> FullMatrix option list \<Rightarrow> nat \<Rightarrow> RkMatrix \<Rightarrow> error + RkMatrix" where
  "formattedAddParts_full kern approx alpha parts n this =
     (if length alpha < n \<or> length parts < n then Inl OutOfRange
      else ebind (eval this) (\<lambda>me.
           ebind (axpy_parts (rk_rows this) (rk_cols this) (zip (take n alpha) (take n parts)) me)
             (\<lambda>me. Inr (truncatedSvd kern me (recompressionEpsilon approx)))))"

text \<open>
  The Rk-list variant. First the loop that fills \<^verbatim>\<open>usedParts\<close> and \<^verbatim>\<open>usedAlpha\<close> (one
  list of pairs here), \<^verbatim>\<open>rankTotal\<close> and \<^verbatim>\<open>minMethod\<close>.
\<close>

fun select_parts :: "IndexSet \<Rightarrow> IndexSet \<Rightarrow> (scalar \<times> RkMatrix option) list
    \<Rightarrow> (scalar \<times> RkMatrix) list \<times> nat \<times> CompressionMethod
    \<Rightarrow> error + ((scalar \<times> RkMatrix) list \<times> nat \<times> CompressionMethod)" where
  "select_parts rows cols [] st = Inr st"
| "select_parts rows cols ((al, None) # rest) st = select_parts rows cols rest st"
| "select_parts rows cols ((al, Some part) # rest) (usedParts, rankTotal, minMethod) =
     (if rank part = 0 \<or> is_size (rk_rows part) = 0 \<or> is_size (rk_cols part) = 0 \<or> al = 0
      then select_parts rows cols rest (usedParts, rankTotal, minMethod)
      else assert (isSubset (rk_rows part) rows) (assert (isSubset (rk_cols part) cols)
             (select_parts rows cols rest
                (usedParts @ [(al, part)], rankTotal + rank part, min minMethod (rk_method part)))))"

text \<open>The dense values \<^verbatim>\<open>usedParts[i]->eval()\<close> of a list of parts.\<close>

fun eval_parts :: "(scalar \<times> RkMatrix) list \<Rightarrow> error + FullMatrix option list" where
  "eval_parts [] = Inr []"
| "eval_parts ((al, part) # rest) =
     ebind (eval part) (\<lambda>f. ebind (eval_parts rest) (\<lambda>fs. Inr (Some f # fs)))"

text \<open>
  A used part with its two panels: every used part is read through both of its panel
  pointers before the method returns on the path that concatenates.
\<close>

record usedPart =
  up_alpha :: scalar
  up_part :: RkMatrix
  up_a :: ScalarArray
  up_b :: ScalarArray

fun deref_parts :: "(scalar \<times> RkMatrix) list \<Rightarrow> error + usedPart list" where
  "deref_parts [] = Inr []"
| "deref_parts ((al, part) # rest) =
     ebind (deref (rk_a part)) (\<lambda>a. ebind (deref (rk_b part)) (\<lambda>b.
       ebind (deref_parts rest) (\<lambda>us.
         Inr (\<lparr>up_alpha = al, up_part = part, up_a = a, up_b = b\<rparr> # us))))"

text \<open>
  The initial pivots from the first used part, and the reordering that the toggle
  \<^verbatim>\<open>HMAT_MGS_BESTRK\<close> enables: the loop for the best single part, the double loop for
  the best ordered pair (one step of its body, run over the index pairs in the order
  of the two nested \<^verbatim>\<open>for\<close>), and the \<^verbatim>\<open>std::swap\<close> of two entries of the arrays. The
  gains and the pivots of the pairs are computed in \<^verbatim>\<open>int\<close>: 32-bit words read as signed
  numbers, whose \<^verbatim>\<open>+\<close> and \<^verbatim>\<open>*\<close> wrap around. The counts of rows and columns are natural
  numbers, which the \<^verbatim>\<open>int\<close> of the source holds as long as they are below \<open>2\<^sup>3\<^sup>1\<close>.
\<close>

definition first_pivots :: "usedPart list \<Rightarrow> int \<times> int" where
  "first_pivots ups =
     (case ups of
        [] \<Rightarrow> (0, 0)
      | u # _ \<Rightarrow> (if sa_ortho (up_a u) then int (rank (up_part u)) else 0,
                  if sa_ortho (up_b u) then int (rank (up_part u)) else 0))"

fun best_single :: "usedPart list \<Rightarrow> int \<Rightarrow> int \<times> 32 word \<Rightarrow> int \<times> 32 word" where
  "best_single [] i st = st"
| "best_single (u # us) i (bestRk, bestGain) =
     (let gain = (of_bool (sa_ortho (up_a u)) + of_bool (sa_ortho (up_b u)))
                 * of_nat (rank (up_part u)) * of_nat (rank (up_part u))
      in best_single us (i + 1)
           (if sint bestGain < sint gain then (i, gain) else (bestRk, bestGain)))"

definition index_pairs :: "nat \<Rightarrow> (nat \<times> nat) list" where
  "index_pairs n = concat (map (\<lambda>i1. map (\<lambda>i2. (i1, i2)) [0..<n]) [0..<n])"

definition pair_step :: "usedPart list \<Rightarrow> 32 word \<times> int \<times> int \<times> 32 word \<times> 32 word
    \<Rightarrow> nat \<times> nat \<Rightarrow> 32 word \<times> int \<times> int \<times> 32 word \<times> 32 word" where
  "pair_step ups st ij =
     (case st of (bestGain, best_i1, best_i2, best_rkA, best_rkB) \<Rightarrow>
      case ij of (i1, i2) \<Rightarrow>
        if i1 \<noteq> i2 then
          (let Rk1 = ups ! i1;
               Rk2 = ups ! i2;
               rkA = (if sa_ortho (up_a Rk1)
                      then of_nat (rank (up_part Rk1))
                           + (if sa_ortho (up_a Rk2)
                                 \<and> \<not> intersects (rk_rows (up_part Rk1)) (rk_rows (up_part Rk2))
                              then of_nat (rank (up_part Rk2)) else 0)
                      else 0);
               rkB = (if sa_ortho (up_b Rk1)
                      then of_nat (rank (up_part Rk1))
                           + (if sa_ortho (up_b Rk2)
                                 \<and> \<not> intersects (rk_cols (up_part Rk1)) (rk_cols (up_part Rk2))
                              then of_nat (rank (up_part Rk2)) else 0)
                      else 0);
               gain = rkA * rkA + rkB * rkB
           in if sint bestGain < sint gain then (gain, int i1, int i2, rkA, rkB) else st)
        else st)"

definition best_pair :: "usedPart list \<Rightarrow> (nat \<times> nat) list
    \<Rightarrow> 32 word \<times> int \<times> int \<times> 32 word \<times> 32 word
    \<Rightarrow> 32 word \<times> int \<times> int \<times> 32 word \<times> 32 word" where
  "best_pair ups pairs st = foldl (pair_step ups) st pairs"

definition swap_at :: "nat \<Rightarrow> nat \<Rightarrow> 'a list \<Rightarrow> 'a list" where
  "swap_at i j xs = xs[i := xs ! j, j := xs ! i]"

definition reorder_parts :: "usedPart list \<Rightarrow> usedPart list \<times> int \<times> int" where
  "reorder_parts ups0 =
     (case best_single ups0 0 (- 1, - 1) of (bestRk, bestGain) \<Rightarrow>
       (let ups = (if bestRk > 0 then swap_at 0 (nat bestRk) ups0 else ups0)
        in (case best_pair ups (index_pairs (length ups)) (bestGain, - 1, - 1, - 1, - 1) of
              (g, best_i1, best_i2, best_rkA, best_rkB) \<Rightarrow>
                if best_i1 \<ge> 0 then
                  (let ups = swap_at 0 (nat best_i1) ups;
                       best_i2 = (if best_i2 = 0 then best_i1 else best_i2);
                       ups = swap_at 1 (nat best_i2) ups
                   in (ups, sint best_rkA, sint best_rkB))
                else (ups, fst (first_pivots ups), snd (first_pivots ups)))))"

text \<open>
  The loop that copies the panels of the used parts into \<open>resultA\<close> and \<open>resultB\<close>: one
  run of its body, and the loop; the state is the two arrays and \<^verbatim>\<open>rankOffset\<close>.
\<close>

definition concat_step :: "IndexSet \<Rightarrow> IndexSet \<Rightarrow> usedPart \<Rightarrow> ScalarArray \<times> ScalarArray \<times> nat
    \<Rightarrow> ScalarArray \<times> ScalarArray \<times> nat" where
  "concat_step rows cols u st =
     (case st of (resultA, resultB, rankOffset) \<Rightarrow>
       (let rowOffset = is_offset (rk_rows (up_part u)) - is_offset rows;
            resultA = copyMatrixAtOffset (up_a u) rowOffset rankOffset resultA;
            resultA =
              (if up_alpha u \<noteq> 1 then
                 (let tmp = subArray resultA rowOffset (sa_rows (up_a u)) rankOffset
                              (sa_cols (up_a u));
                      tmp = sa_scale (up_alpha u) tmp
                  in copyMatrixAtOffset tmp rowOffset rankOffset resultA)
               else resultA);
            colOffset = is_offset (rk_cols (up_part u)) - is_offset cols;
            resultB = copyMatrixAtOffset (up_b u) colOffset rankOffset resultB
        in (resultA, resultB, rankOffset + rank (up_part u))))"

fun concat_parts :: "IndexSet \<Rightarrow> IndexSet \<Rightarrow> usedPart list \<Rightarrow> ScalarArray \<times> ScalarArray \<times> nat
    \<Rightarrow> ScalarArray \<times> ScalarArray \<times> nat" where
  "concat_parts rows cols [] st = st"
| "concat_parts rows cols (u # us) st = concat_parts rows cols us (concat_step rows cols u st)"

text \<open>
  \<^verbatim>\<open>formattedAddParts(alpha, parts, n, dotruncate)\<close>, in four definitions: the
  branch that puts everything in a full matrix; the branch that concatenates the panels
  of the used parts, first up to the block \<open>rk\<close> it builds (returned with
  \<^verbatim>\<open>notNullParts\<close> and the two pivots) and then the recompression; and the method from
  its start. The arrays \<open>alpha\<close> and \<open>parts\<close>
  are lists that must have \<open>n\<close> entries at least; a null part is \<open>None\<close>. The ledger of
  the call to \<^verbatim>\<open>truncate\<close> is dropped.
\<close>

definition formattedAddParts_dense :: "kernels \<Rightarrow> RkApproximationControl \<Rightarrow> RkMatrix
    \<Rightarrow> (scalar \<times> RkMatrix) list \<Rightarrow> error + RkMatrix" where
  "formattedAddParts_dense kern approx this usedParts =
     ebind (eval_parts (if rank this \<noteq> 0 then tl usedParts else usedParts))
       (\<lambda>fulls. formattedAddParts_full kern approx (map fst usedParts)
          ((if rank this \<noteq> 0 then [None] else []) @ fulls) (length usedParts) this)"

definition formattedAddParts_build :: "environment \<Rightarrow> RkMatrix \<Rightarrow> (scalar \<times> RkMatrix) list \<Rightarrow> nat
    \<Rightarrow> CompressionMethod \<Rightarrow> error + (RkMatrix \<times> nat \<times> int \<times> int)" where
  "formattedAddParts_build env this usedParts rankTotal minMethod =
     ebind (deref_parts usedParts) (\<lambda>ups0.
       (case (if useBestRk env then reorder_parts ups0
              else (ups0, fst (first_pivots ups0), snd (first_pivots ups0))) of
          (ups, initialPivotA, initialPivotB) \<Rightarrow>
            (case concat_parts (rk_rows this) (rk_cols this) ups
                    (new_ScalarArray (is_size (rk_rows this)) rankTotal,
                     new_ScalarArray (is_size (rk_cols this)) rankTotal, 0) of
               (resultA, resultB, rankOffset) \<Rightarrow>
                 assert (rankOffset = rankTotal)
                   (ebind (new_RkMatrix (Some resultA) (rk_rows this) (Some resultB)
                             (rk_cols this) minMethod)
                      (\<lambda>rk. Inr (rk, length ups, initialPivotA, initialPivotB))))))"

definition formattedAddParts_concat :: "kernels \<Rightarrow> environment \<Rightarrow> RkApproximationControl \<Rightarrow> bool
    \<Rightarrow> RkMatrix \<Rightarrow> (scalar \<times> RkMatrix) list \<Rightarrow> nat \<Rightarrow> CompressionMethod \<Rightarrow> error + RkMatrix" where
  "formattedAddParts_concat kern env approx dotruncate this usedParts rankTotal minMethod =
     ebind (formattedAddParts_build env this usedParts rankTotal minMethod)
       (\<lambda>(rk, notNullParts, initialPivotA, initialPivotB).
          if notNullParts > 1 \<and> dotruncate then
            ebind (truncate_rk kern env approx (recompressionEpsilon approx)
                     initialPivotA initialPivotB rk)
              (\<lambda>(rk, led). Inr rk)
          else Inr rk)"

definition formattedAddParts :: "kernels \<Rightarrow> environment \<Rightarrow> RkApproximationControl \<Rightarrow> scalar list
    \<Rightarrow> RkMatrix option list \<Rightarrow> nat \<Rightarrow> bool \<Rightarrow> RkMatrix \<Rightarrow> error + RkMatrix" where
  "formattedAddParts kern env approx alpha parts n dotruncate this =
     (if length alpha < n \<or> length parts < n then Inl OutOfRange
      else
        ebind (select_parts (rk_rows this) (rk_cols this) (zip (take n alpha) (take n parts))
                 (if rank this \<noteq> 0 then ([(1, this)], rank this, rk_method this)
                  else ([], 0, rk_method this)))
          (\<lambda>(usedParts, rankTotal, minMethod).
             if length usedParts = 0 then
               new_RkMatrix None (rk_rows this) None (rk_cols this) minMethod
             else if rankTotal \<ge> min (is_size (rk_rows this)) (is_size (rk_cols this)) then
               formattedAddParts_dense kern approx this usedParts
             else
               formattedAddParts_concat kern env approx dotruncate this usedParts rankTotal
                 minMethod))"

section \<open>Mixed products\<close>

text \<open>
  Modelled from the spec: the H-matrix node (\<^verbatim>\<open>h_matrix.hpp\<close> is not among the sources)
  is an external collaborator that exposes its index sets \<^verbatim>\<open>rows()\<close>, \<^verbatim>\<open>cols()\<close> and
  \<^verbatim>\<open>gemv\<close>; \<open>hm_gemv h tr alpha x beta y\<close> is the array \<open>y\<close> after
  \<^verbatim>\<open>h->gemv(tr, alpha, x, beta, y)\<close>.
\<close>

record HMatrix =
  hm_rows :: IndexSet
  hm_cols :: IndexSet
  hm_gemv :: "char \<Rightarrow> scalar \<Rightarrow> ScalarArray \<Rightarrow> scalar \<Rightarrow> ScalarArray \<Rightarrow> ScalarArray"

text \<open>\<^verbatim>\<open>multiplyRkFull(transR, transM, rk, m)\<close>\<close>

definition multiplyRkFull :: "CompressionMethod \<Rightarrow> char \<Rightarrow> char \<Rightarrow> RkMatrix \<Rightarrow> FullMatrix
    \<Rightarrow> error + RkMatrix" where
  "multiplyRkFull NoCompression transR transM rk m =
     assert ((if transR = CHR ''N'' then is_size (rk_cols rk) else is_size (rk_rows rk))
             = (if transM = CHR ''N'' then sa_rows (fm_data m) else sa_cols (fm_data m)))
       (let rkRows = (if transR = CHR ''N'' then rk_rows rk else rk_cols rk);
            mCols = (if transM = CHR ''N'' then fm_cols m else fm_rows m)
        in if rank rk = 0 then new_RkMatrix None rkRows None mCols NoCompression
           else
             ebind (deref (if transR \<noteq> CHR ''N'' then rk_b rk else rk_a rk)) (\<lambda>a.
             ebind (deref (if transR \<noteq> CHR ''N'' then rk_a rk else rk_b rk)) (\<lambda>b.
               let newA = sa_copy a;
                   newB = new_ScalarArray
                     (if transM = CHR ''N'' then sa_cols (fm_data m) else sa_rows (fm_data m)) (sa_cols b)
               in if transR = CHR ''C'' then
                    (let newA = sa_conjugate newA in
                     if transM = CHR ''N'' then
                       new_RkMatrix (Some newA) rkRows
                         (Some (sa_conjugate (gemm (CHR ''C'') (CHR ''N'') 1 (fm_data m) b 0 newB)))
                         mCols (rk_method rk)
                     else if transM = CHR ''T'' then
                       (let conjB = sa_conjugate (sa_copy b) in
                        new_RkMatrix (Some newA) rkRows
                          (Some (gemm (CHR ''N'') (CHR ''N'') 1 (fm_data m) conjB 0 newB))
                          mCols (rk_method rk))
                     else assert (transM = CHR ''C'')
                       (new_RkMatrix (Some newA) rkRows
                          (Some (sa_conjugate (gemm (CHR ''N'') (CHR ''N'') 1 (fm_data m) b 0 newB)))
                          mCols (rk_method rk)))
                  else
                    (if transM = CHR ''N'' then
                       new_RkMatrix (Some newA) rkRows
                         (Some (gemm (CHR ''T'') (CHR ''N'') 1 (fm_data m) b 0 newB))
                         mCols (rk_method rk)
                     else if transM = CHR ''T'' then
                       new_RkMatrix (Some newA) rkRows
                         (Some (gemm (CHR ''N'') (CHR ''N'') 1 (fm_data m) b 0 newB))
                         mCols (rk_method rk)
                     else assert (transM = CHR ''C'')
                       (let conjB = sa_conjugate (sa_copy b) in
                        new_RkMatrix (Some newA) rkRows
                          (Some (sa_conjugate (gemm (CHR ''N'') (CHR ''N'') 1 (fm_data m) conjB 0 newB)))
                          mCols (rk_method rk))))))"

text \<open>\<^verbatim>\<open>multiplyFullRk(transM, transR, m, rk)\<close>: there is no test of the rank.\<close>

definition multiplyFullRk :: "char \<Rightarrow> char \<Rightarrow> FullMatrix \<Rightarrow> RkMatrix \<Rightarrow> error + RkMatrix" where
  "multiplyFullRk transM transR m rk =
     (let pa = (if transR \<noteq> CHR ''N'' then rk_b rk else rk_a rk);
          pb = (if transR \<noteq> CHR ''N'' then rk_a rk else rk_b rk);
          rkCols = (if transR = CHR ''N'' then rk_cols rk else rk_rows rk);
          mRows = (if transM = CHR ''N'' then fm_rows m else fm_cols m)
      in ebind (deref pb) (\<lambda>b.
           let newA = new_ScalarArray (is_size mRows) (sa_cols b);
               newB = sa_copy b
           in if transR = CHR ''C'' then
                (let newB = sa_conjugate newB in
                 ebind (deref pa) (\<lambda>a.
                   if transM = CHR ''N'' then
                     (let conjA = sa_conjugate (sa_copy a) in
                      new_RkMatrix (Some (gemm (CHR ''N'') (CHR ''N'') 1 (fm_data m) conjA 0 newA))
                        mRows (Some newB) rkCols (rk_method rk))
                   else if transM = CHR ''T'' then
                     new_RkMatrix
                       (Some (sa_conjugate (gemm (CHR ''C'') (CHR ''N'') 1 (fm_data m) a 0 newA)))
                       mRows (Some newB) rkCols (rk_method rk)
                   else assert (transM = CHR ''C'')
                     (new_RkMatrix
                        (Some (sa_conjugate (gemm (CHR ''T'') (CHR ''N'') 1 (fm_data m) a 0 newA)))
                        mRows (Some newB) rkCols (rk_method rk))))
              else
                ebind (deref pa) (\<lambda>a.
                  new_RkMatrix (Some (gemm transM (CHR ''N'') 1 (fm_data m) a 0 newA))
                    mRows (Some newB) rkCols (rk_method rk))))"

text \<open>\<^verbatim>\<open>multiplyRkH(transR, transH, rk, h)\<close>: there is no test of the rank.\<close>

definition multiplyRkH :: "char \<Rightarrow> char \<Rightarrow> RkMatrix \<Rightarrow> HMatrix \<Rightarrow> error + RkMatrix" where
  "multiplyRkH transR transH rk h =
     assert ((if transR = CHR ''N'' then rk_cols rk else rk_rows rk)
             = (if transH = CHR ''N'' then hm_rows h else hm_cols h))
       (let rkRows = (if transR = CHR ''N'' then rk_rows rk else rk_cols rk);
            pa = (if transR \<noteq> CHR ''N'' then rk_b rk else rk_a rk);
            pb = (if transR \<noteq> CHR ''N'' then rk_a rk else rk_b rk);
            newCols = (if transH = CHR ''N'' then hm_cols h else hm_rows h)
        in ebind (deref pa) (\<lambda>a. ebind (deref pb) (\<lambda>b.
             let newA = sa_copy a;
                 newB = new_ScalarArray
                   (if transH = CHR ''N'' then is_size (hm_cols h) else is_size (hm_rows h)) (sa_cols b)
             in if transR = CHR ''C'' then
                  (let newA = sa_conjugate newA in
                   if transH = CHR ''N'' then
                     new_RkMatrix (Some newA) rkRows
                       (Some (sa_conjugate (hm_gemv h (CHR ''C'') 1 b 0 newB))) newCols (rk_method rk)
                   else if transH = CHR ''T'' then
                     (let conjB = sa_conjugate (sa_copy b) in
                      new_RkMatrix (Some newA) rkRows
                        (Some (hm_gemv h (CHR ''N'') 1 conjB 0 newB)) newCols (rk_method rk))
                   else assert (transH = CHR ''C'')
                     (new_RkMatrix (Some newA) rkRows
                        (Some (sa_conjugate (hm_gemv h (CHR ''N'') 1 b 0 newB))) newCols (rk_method rk)))
                else
                  (if transH = CHR ''N'' then
                     new_RkMatrix (Some newA) rkRows
                       (Some (hm_gemv h (CHR ''T'') 1 b 0 newB)) newCols (rk_method rk)
                   else if transH = CHR ''T'' then
                     new_RkMatrix (Some newA) rkRows
                       (Some (hm_gemv h (CHR ''N'') 1 b 0 newB)) newCols (rk_method rk)
                   else assert (transH = CHR ''C'')
                     (let conjB = sa_conjugate (sa_copy b) in
                      new_RkMatrix (Some newA) rkRows
                        (Some (sa_conjugate (hm_gemv h (CHR ''N'') 1 conjB 0 newB)))
                        newCols (rk_method rk))))))"

text \<open>\<^verbatim>\<open>multiplyHRk(transH, transR, h, rk)\<close>\<close>

definition multiplyHRk :: "char \<Rightarrow> char \<Rightarrow> HMatrix \<Rightarrow> RkMatrix \<Rightarrow> error + RkMatrix" where
  "multiplyHRk transH transR h rk =
     (if rank rk = 0 then
        (let newRows = (if transH = CHR ''N'' then hm_rows h else hm_cols h);
             newCols = (if transR = CHR ''N'' then rk_cols rk else rk_rows rk)
         in new_RkMatrix None newRows None newCols (rk_method rk))
      else
        (let pa = (if transR \<noteq> CHR ''N'' then rk_b rk else rk_a rk);
             pb = (if transR \<noteq> CHR ''N'' then rk_a rk else rk_b rk);
             rkCols = (if transR = CHR ''N'' then rk_cols rk else rk_rows rk);
             newRows = (if transH = CHR ''N'' then hm_rows h else hm_cols h)
         in ebind (deref pb) (\<lambda>b.
              let newA = new_ScalarArray
                    (if transH = CHR ''N'' then is_size (hm_rows h) else is_size (hm_cols h)) (sa_cols b);
                  newB = sa_copy b
              in if transR = CHR ''C'' then
                   (let newB = sa_conjugate newB in
                    ebind (deref pa) (\<lambda>a.
                      if transH = CHR ''N'' then
                        (let conjA = sa_conjugate (sa_copy a) in
                         new_RkMatrix (Some (hm_gemv h (CHR ''N'') 1 conjA 0 newA))
                           newRows (Some newB) rkCols (rk_method rk))
                      else if transH = CHR ''T'' then
                        new_RkMatrix (Some (sa_conjugate (hm_gemv h (CHR ''C'') 1 a 0 newA)))
                          newRows (Some newB) rkCols (rk_method rk)
                      else assert (transH = CHR ''C'')
                        (new_RkMatrix (Some (sa_conjugate (hm_gemv h (CHR ''T'') 1 a 0 newA)))
                           newRows (Some newB) rkCols (rk_method rk))))
                 else
                   ebind (deref pa) (\<lambda>a.
                     new_RkMatrix (Some (hm_gemv h transH 1 a 0 newA))
                       newRows (Some newB) rkCols (rk_method rk)))))"

text \<open>
  \<^verbatim>\<open>multiplyRkRk(trans1, trans2, r1, r2)\<close>. First the small matrix \<open>tmp\<close>, then the
  version with a decomposition in the middle (toggle \<^verbatim>\<open>HMAT_NEW_RKRK\<close>) or the default
  one.
\<close>

definition rkrk_tmp :: "char \<Rightarrow> char \<Rightarrow> ScalarArray \<Rightarrow> ScalarArray \<Rightarrow> ScalarArray \<Rightarrow> ScalarArray" where
  "rkrk_tmp trans1 trans2 b1 a2 tmp =
     (if trans1 = CHR ''C'' \<and> trans2 = CHR ''C'' then
        sa_conjugate (gemm (CHR ''T'') (CHR ''N'') 1 b1 a2 0 tmp)
      else if trans1 = CHR ''C'' then gemm (CHR ''C'') (CHR ''N'') 1 b1 a2 0 tmp
      else if trans2 = CHR ''C'' then sa_conjugate (gemm (CHR ''C'') (CHR ''N'') 1 b1 a2 0 tmp)
      else gemm (CHR ''T'') (CHR ''N'') 1 b1 a2 0 tmp)"

definition multiplyRkRk :: "kernels \<Rightarrow> environment \<Rightarrow> RkApproximationControl \<Rightarrow> char \<Rightarrow> char
    \<Rightarrow> RkMatrix \<Rightarrow> RkMatrix \<Rightarrow> error + RkMatrix" where
  "multiplyRkRk kern env approx trans1 trans2 r1 r2 =
     assert ((if trans1 = CHR ''N'' then rk_cols r1 else rk_rows r1)
             = (if trans2 = CHR ''N'' then rk_rows r2 else rk_cols r2))
       (let pa1 = (if trans1 = CHR ''N'' then rk_a r1 else rk_b r1);
            pb1 = (if trans1 = CHR ''N'' then rk_b r1 else rk_a r1);
            pa2 = (if trans2 = CHR ''N'' then rk_a r2 else rk_b r2);
            pb2 = (if trans2 = CHR ''N'' then rk_b r2 else rk_a r2);
            newRows = (if trans1 = CHR ''N'' then rk_rows r1 else rk_cols r1);
            newCols = (if trans2 = CHR ''N'' then rk_cols r2 else rk_rows r2);
            combined = min (rk_method r1) (rk_method r2)
        in ebind (deref pb1) (\<lambda>b1. ebind (deref pa2) (\<lambda>a2.
           assert (sa_rows b1 = sa_rows a2)
             (let tmp = rkrk_tmp trans1 trans2 b1 a2 (new_ScalarArray (rank r1) (rank r2))
              in if newRKRK env then
                   (case svdDecomposition kern tmp of (ur, sr, vr) \<Rightarrow>
                      ebind (findK env approx sr (recompressionEpsilon approx)) (\<lambda>newK.
                        if newK > 0 then
                          ebind (sqrt_first env (nat newK) sr) (\<lambda>sr.
                          ebind (deref pa1) (\<lambda>a1. ebind (deref pb2) (\<lambda>b2.
                            let ur = multiplyWithDiag sr (set_cols (nat newK) ur);
                                vr = multiplyWithDiag sr (set_cols (nat newK) vr);
                                ur = (if trans1 = CHR ''C'' then sa_conjugate ur else ur);
                                newA = gemm (CHR ''N'') (CHR ''N'') 1 a1 ur 0
                                         (new_ScalarArray (sa_rows a1) (nat newK));
                                newA = (if trans1 = CHR ''C'' then sa_conjugate newA else newA);
                                vr = (if trans2 = CHR ''C'' then sa_conjugate vr else vr);
                                newB = gemm (CHR ''N'') (CHR ''N'') 1 b2 vr 0
                                         (new_ScalarArray (sa_rows b2) (nat newK));
                                newB = (if trans2 = CHR ''C'' then sa_conjugate newB else newB)
                            in new_RkMatrix (Some newA) newRows (Some newB) newCols combined)))
                        else new_RkMatrix None newRows None newCols combined))
                 else
                   ebind (deref pa1) (\<lambda>a1. ebind (deref pb2) (\<lambda>b2.
                     if rank r1 < rank r2 then
                       (let newA = sa_copy a1;
                            newA = (if trans1 = CHR ''C'' then sa_conjugate newA else newA);
                            newB = new_ScalarArray (sa_rows b2) (rank r1);
                            newB = (if trans2 = CHR ''C''
                                    then sa_conjugate (gemm (CHR ''N'') (CHR ''C'') 1 b2 tmp 0 newB)
                                    else gemm (CHR ''N'') (CHR ''T'') 1 b2 tmp 0 newB)
                        in new_RkMatrix (Some newA) newRows (Some newB) newCols combined)
                     else
                       (let newA = new_ScalarArray (sa_rows a1) (rank r2);
                            tmp = (if trans1 = CHR ''C'' then sa_conjugate tmp else tmp);
                            newA = gemm (CHR ''N'') (CHR ''N'') 1 a1 tmp 0 newA;
                            newA = (if trans1 = CHR ''C'' then sa_conjugate newA else newA);
                            newB = sa_copy b2;
                            newB = (if trans2 = CHR ''C'' then sa_conjugate newB else newB)
                        in new_RkMatrix (Some newA) newRows (Some newB) newCols combined)))))))"

section \<open>The tree: \<^verbatim>\<open>Tree<N>\<close>\<close>

text \<open>
  Tree nodes are objects that point to each other: the father and the children are
  pointers, and \<^verbatim>\<open>insertChild\<close> writes through two of them that may be the same
  object. The model has an explicit store: a heap maps the addresses of the allocated
  nodes to their fields, a pointer is an address or null. The members and arguments of
  type \<^verbatim>\<open>int\<close> (\<^verbatim>\<open>depth\<close>, \<^verbatim>\<open>index\<close>, the result of \<^verbatim>\<open>nbChild\<close>) are 32-bit words
  read as signed numbers, and \<^verbatim>\<open>+\<close> on them wraps around. The exhaustion of memory is
  not modelled.
\<close>

type_synonym addr = nat

record Tree =
  depth :: "32 word"
  children :: "addr option list"
  father :: "addr option"

type_synonym heap = "addr \<Rightarrow> Tree option"

text \<open>Reading the fields of the node at an address.\<close>

definition read_node :: "heap \<Rightarrow> addr \<Rightarrow> error + Tree" where
  "read_node h p = (case h p of None \<Rightarrow> Inl NullDeref | Some t \<Rightarrow> Inr t)"

text \<open>
  The conversions between \<^verbatim>\<open>int\<close> and the unsigned 64-bit \<^verbatim>\<open>size_t\<close> of the vector's
  sizes and indices: a negative \<^verbatim>\<open>int\<close> becomes a number of at least \<open>2\<^sup>6\<^sup>4 - 2\<^sup>3\<^sup>1\<close>, and a
  size is cut to its low 32 bits.
\<close>

definition size_t_of_int :: "32 word \<Rightarrow> nat" where
  "size_t_of_int i = (if 0 \<le> sint i then nat (sint i) else nat (2 ^ 64 + sint i))"

definition int_of_size_t :: "nat \<Rightarrow> 32 word" where
  "int_of_size_t n = of_nat n"

text \<open>
  \<^verbatim>\<open>std::vector::resize(n, v)\<close>, which throws \<^verbatim>\<open>std::length_error\<close> for a size above
  \<^verbatim>\<open>max_size()\<close> (for a vector of pointers, the largest \<^verbatim>\<open>ptrdiff_t\<close> divided by the 8
  bytes of a pointer).
\<close>

definition resize :: "nat \<Rightarrow> 'a \<Rightarrow> 'a list \<Rightarrow> 'a list" where
  "resize n v xs = (if n \<le> length xs then take n xs else xs @ replicate (n - length xs) v)"

definition max_size :: nat where
  "max_size = 2 ^ 60 - 1"

definition vector_resize :: "nat \<Rightarrow> 'a \<Rightarrow> 'a list \<Rightarrow> error + 'a list" where
  "vector_resize n v xs = (if max_size < n then Inl LengthError else Inr (resize n v xs))"

text \<open>
  \<^verbatim>\<open>insertChild(index, child)\<close>: the statements in the order of the source, each
  reading the heap the one before left. The comparison \<^verbatim>\<open>children.size() <= index\<close>,
  the argument of \<^verbatim>\<open>resize\<close> and the subscript convert an \<^verbatim>\<open>int\<close> to \<^verbatim>\<open>size_t\<close>; a
  subscript outside the vector is an access outside an array.
\<close>

definition insertChild :: "addr \<Rightarrow> 32 word \<Rightarrow> addr option \<Rightarrow> heap \<Rightarrow> error + heap" where
  "insertChild this index child h =
     ebind (read_node h this) (\<lambda>t.
     ebind (if length (children t) \<le> size_t_of_int index
            then ebind (vector_resize (size_t_of_int (index + 1)) None (children t))
                   (\<lambda>cs. Inr (h(this \<mapsto> t\<lparr>children := cs\<rparr>)))
            else Inr h) (\<lambda>h1.
     ebind (deref child) (\<lambda>cp.
     ebind (read_node h1 cp) (\<lambda>c.
     ebind (Inr (h1(cp \<mapsto> c\<lparr>father := Some this\<rparr>))) (\<lambda>h2.
     ebind (read_node h2 this) (\<lambda>t2.
     ebind (if length (children t2) \<le> size_t_of_int index then Inl OutOfRange
            else Inr (h2(this \<mapsto> t2\<lparr>children := (children t2)[size_t_of_int index := child]\<rparr>)))
       (\<lambda>h3.
     ebind (read_node h3 this) (\<lambda>t3.
     ebind (read_node h3 cp) (\<lambda>c3.
       Inr (h3(cp \<mapsto> c3\<lparr>depth := depth t3 + 1\<rparr>)))))))))))"

text \<open>\<^verbatim>\<open>getChild(index)\<close> and \<^verbatim>\<open>nbChild()\<close>\<close>

definition getChild :: "addr \<Rightarrow> 32 word \<Rightarrow> heap \<Rightarrow> error + addr option" where
  "getChild this index h =
     ebind (read_node h this) (\<lambda>t.
       assert (size_t_of_int index < length (children t))
         (Inr (children t ! size_t_of_int index)))"

definition nbChild :: "addr \<Rightarrow> heap \<Rightarrow> error + 32 word" where
  "nbChild this h = ebind (read_node h this) (\<lambda>t. Inr (int_of_size_t (length (children t))))"

section \<open>Vocabulary of the properties\<close>

text \<open>
  The sum of the entries of a vector accumulated in doubles: from 0, one addition of
  doubles per entry, in the order of the indices.
\<close>

definition double_sum :: "environment \<Rightarrow> real list \<Rightarrow> real" where
  "double_sum env sigma = foldl (double_add env) 0 sigma"

text \<open>
  The number \<open>r\<close> is the smallest index of \<open>sigma\<close> whose entry is at most \<open>thr\<close>, or
  the length of \<open>sigma\<close> when there is no such index.
\<close>

definition smallest_index_below :: "real list \<Rightarrow> real \<Rightarrow> nat \<Rightarrow> bool" where
  "smallest_index_below sigma thr r \<longleftrightarrow>
     r \<le> length sigma \<and> (\<forall>j<r. thr < sigma ! j) \<and> (r < length sigma \<longrightarrow> sigma ! r \<le> thr)"

text \<open>
  The structural invariant of an Rk block: both panels are absent, or both are present
  with the same column count \<open>k \<ge> 1\<close>, \<open>a\<close> with as many rows as the row index set and
  \<open>b\<close> with as many rows as the column index set.
\<close>

definition rk_inv :: "RkMatrix \<Rightarrow> bool" where
  "rk_inv rk \<longleftrightarrow>
     (case rk_a rk of
        None \<Rightarrow> rk_b rk = None
      | Some pa \<Rightarrow>
          (case rk_b rk of
             None \<Rightarrow> False
           | Some pb \<Rightarrow> sa_cols pa = sa_cols pb \<and> 1 \<le> sa_cols pa
               \<and> sa_rows pa = is_size (rk_rows rk) \<and> sa_rows pb = is_size (rk_cols rk)))"

text \<open>
  The dense value \<open>M(R) = A * B\<^sup>T\<close> of an Rk block, entry by entry (the zero matrix
  for the empty block); \<open>eval_dense\<close> below shows that it is what \<^verbatim>\<open>eval()\<close> computes.
  \<open>op_dense\<close> is the entry of \<open>op(M(R))\<close>.
\<close>

definition dense :: "RkMatrix \<Rightarrow> nat \<Rightarrow> nat \<Rightarrow> scalar" where
  "dense rk i j =
     (case rk_a rk of
        None \<Rightarrow> 0
      | Some pa \<Rightarrow> (case rk_b rk of None \<Rightarrow> 0
                   | Some pb \<Rightarrow> (\<Sum>l< sa_cols pa. sa_m pa i l * sa_m pb j l)))"

definition op_dense :: "char \<Rightarrow> RkMatrix \<Rightarrow> nat \<Rightarrow> nat \<Rightarrow> scalar" where
  "op_dense tr rk i j =
     (if tr = CHR ''N'' then dense rk i j
      else if tr = CHR ''T'' then dense rk j i
      else cnj (dense rk j i))"

text \<open>
  For a product with the operation \<open>tr\<close> applied to an Rk operand: the conjugation \<open>tr\<close>
  asks for, the panel on the free side and the panel on the contracted side, and the
  small matrix \<open>T = b\<^sub>1\<^sup>T * a\<^sub>2\<close> with the conjugations of the two operations.
\<close>

definition cj :: "char \<Rightarrow> scalar \<Rightarrow> scalar" where
  "cj tr x = (if tr = CHR ''C'' then cnj x else x)"

definition free_panel :: "char \<Rightarrow> RkMatrix \<Rightarrow> ScalarArray option" where
  "free_panel tr rk = (if tr = CHR ''N'' then rk_a rk else rk_b rk)"

definition contracted_panel :: "char \<Rightarrow> RkMatrix \<Rightarrow> ScalarArray option" where
  "contracted_panel tr rk = (if tr = CHR ''N'' then rk_b rk else rk_a rk)"

definition mid_matrix :: "char \<Rightarrow> char \<Rightarrow> ScalarArray \<Rightarrow> ScalarArray \<Rightarrow> nat \<Rightarrow> nat \<Rightarrow> scalar" where
  "mid_matrix trans1 trans2 b1 a2 l1 l2 =
     (\<Sum>p< sa_rows b1. cj trans1 (sa_m b1 p l1) * cj trans2 (sa_m a2 p l2))"

text \<open>The depth of the node at an address, if there is one, as a signed number.\<close>

definition node_depth_int :: "heap \<Rightarrow> addr \<Rightarrow> int option" where
  "node_depth_int h p = map_option (\<lambda>t. sint (depth t)) (h p)"

text \<open>
  For the recompression: the pivot \<^verbatim>\<open>truncate\<close> works with (forced to 0 unless
  \<^verbatim>\<open>HMAT_TRUNC_INITPIV\<close> is set) and its two assertions on the pivots; the block after
  \<^verbatim>\<open>swap(*rk)\<close>; the singular values that \<^verbatim>\<open>truncate\<close> and \<^verbatim>\<open>mGSTruncate\<close> hand to
  \<^verbatim>\<open>findK\<close>, the rank a Gram-Schmidt step returns, and the three ways in which
  \<^verbatim>\<open>mGSTruncate\<close> comes to rank 0.
\<close>

definition effective_pivot :: "environment \<Rightarrow> int \<Rightarrow> int" where
  "effective_pivot env p = (if \<not> useInitPivot env then 0 else p)"

definition pivots_ok :: "environment \<Rightarrow> int \<Rightarrow> int \<Rightarrow> RkMatrix \<Rightarrow> bool" where
  "pivots_ok env pA pB this \<longleftrightarrow>
     0 \<le> effective_pivot env pA \<and> effective_pivot env pA \<le> int (rank this)
     \<and> 0 \<le> effective_pivot env pB \<and> effective_pivot env pB \<le> int (rank this)"

definition swapped_in :: "RkMatrix \<Rightarrow> RkMatrix \<Rightarrow> RkMatrix" where
  "swapped_in this rk = this\<lparr>rk_a := rk_a rk, rk_b := rk_b rk, rk_method := rk_method rk\<rparr>"

definition truncate_sigma :: "kernels \<Rightarrow> int \<Rightarrow> int \<Rightarrow> ScalarArray \<Rightarrow> ScalarArray \<Rightarrow> real list" where
  "truncate_sigma kern pA pB a b =
     (let ra = (new_ScalarArray (sa_cols a) (sa_cols a))\<lparr>sa_m := snd (qrDecomposition kern a pA)\<rparr>;
          rb = (new_ScalarArray (sa_cols a) (sa_cols a))\<lparr>sa_m := snd (qrDecomposition kern b pB)\<rparr>;
          r = gemm (CHR ''N'') (CHR ''T'') 1 ra rb 0 (new_ScalarArray (sa_cols a) (sa_cols a))
      in fst (snd (svdDecomposition kern r)))"

definition mgs_rank :: "kernels \<Rightarrow> real \<Rightarrow> int \<Rightarrow> ScalarArray \<Rightarrow> nat" where
  "mgs_rank kern eps p a = fst (modifiedGramSchmidt kern a eps p)"

definition mgs_sigma :: "kernels \<Rightarrow> real \<Rightarrow> int \<Rightarrow> int \<Rightarrow> ScalarArray \<Rightarrow> ScalarArray \<Rightarrow> real list" where
  "mgs_sigma kern eps pA pB a b =
     (let ra = (new_ScalarArray (sa_cols a) (sa_cols a))
                 \<lparr>sa_m := snd (snd (modifiedGramSchmidt kern a eps pA))\<rparr>;
          rb = (new_ScalarArray (sa_cols a) (sa_cols a))
                 \<lparr>sa_m := snd (snd (modifiedGramSchmidt kern b eps pB))\<rparr>;
          matR = gemm (CHR ''N'') (CHR ''T'') 1 ra rb 0
                   (new_ScalarArray (mgs_rank kern eps pA a) (mgs_rank kern eps pB b))
      in fst (snd (svdDecomposition kern matR)))"

definition mgs_yields_zero :: "kernels \<Rightarrow> environment \<Rightarrow> RkApproximationControl \<Rightarrow> real \<Rightarrow> int \<Rightarrow> int
    \<Rightarrow> ScalarArray \<Rightarrow> ScalarArray \<Rightarrow> bool" where
  "mgs_yields_zero kern env approx eps pA pB a b \<longleftrightarrow>
     mgs_rank kern eps pA a = 0 \<or> mgs_rank kern eps pB b = 0
     \<or> findK env approx (mgs_sigma kern eps pA pB a b) eps = Inr 0"

text \<open>
  A dense block whose panel has the shape of its index sets, and what the Rk algebra
  expects of the compression \<^verbatim>\<open>truncatedSvd\<close> (\<^verbatim>\<open>compression.cpp\<close>): the block it
  returns for such a dense block satisfies the structural invariant.
\<close>

definition fm_ok :: "FullMatrix \<Rightarrow> bool" where
  "fm_ok m \<longleftrightarrow> sa_rows (fm_data m) = is_size (fm_rows m) \<and> sa_cols (fm_data m) = is_size (fm_cols m)"

definition tsvd_ok :: "kernels \<Rightarrow> bool" where
  "tsvd_ok kern \<longleftrightarrow> (\<forall>m eps. fm_ok m \<longrightarrow> rk_inv (truncatedSvd kern m eps))"















section \<open>Sample inputs\<close>

text \<open>
  All toggles unset: the default environment. Its arithmetic is exact, which is what the
  operations on doubles are on the small numbers of the samples below.
\<close>

definition env_default :: environment where
  "env_default = \<lparr>useL2Criterion = False, useInitPivot = False, usedRecomp = False,
     useBestRk = False, newRKRK = False, double_add = (+), double_mul = (*),
     double_sqrt = sqrt\<rparr>"

text \<open>
  An index set with one index, a panel with one row and one column, and the Rk block
  over one row and one column made of two such panels.
\<close>

definition idx1 :: IndexSet where
  "idx1 = \<lparr>is_offset = 0, is_size = 1\<rparr>"

definition panel1 :: "scalar \<Rightarrow> ScalarArray" where
  "panel1 x = \<lparr>sa_rows = 1, sa_cols = 1, sa_m = (\<lambda>i j. x), sa_ortho = False\<rparr>"

definition rk1 :: "scalar \<Rightarrow> scalar \<Rightarrow> CompressionMethod \<Rightarrow> RkMatrix" where
  "rk1 x y meth = \<lparr>rk_rows = idx1, rk_cols = idx1, rk_a = Some (panel1 x), rk_b = Some (panel1 y),
     rk_method = meth\<rparr>"

definition rk_empty :: "CompressionMethod \<Rightarrow> RkMatrix" where
  "rk_empty meth = \<lparr>rk_rows = idx1, rk_cols = idx1, rk_a = None, rk_b = None, rk_method = meth\<rparr>"

definition ctl_default :: RkApproximationControl where
  "ctl_default = \<lparr>approx_k = 0, recompressionEpsilon = 1\<rparr>"

text \<open>
  Stand-ins for the kernels, for running the model: factorisations that return their
  argument with unit factors, and a compression that at a tolerance of 1 or more drops
  everything (with the sum criterion every singular value is then below the
  threshold) and otherwise keeps the dense block as the panel \<open>a\<close> next to an identity.
\<close>

definition identity_array :: "nat \<Rightarrow> ScalarArray" where
  "identity_array n = \<lparr>sa_rows = n, sa_cols = n, sa_m = (\<lambda>i j. if i = j then 1 else 0),
     sa_ortho = True\<rparr>"

definition kern_sample :: kernels where
  "kern_sample = \<lparr>
     svdDecomposition = (\<lambda>r. (r, replicate (sa_cols r) 1, identity_array (sa_cols r))),
     qrDecomposition = (\<lambda>a p. (sa_m a, sa_m (identity_array (sa_cols a)))),
     productQ = (\<lambda>a c. sa_m c),
     modifiedGramSchmidt = (\<lambda>a eps p. (sa_cols a, sa_m a, sa_m (identity_array (sa_cols a)))),
     truncatedSvd = (\<lambda>m eps.
        if eps \<ge> 1 \<or> sa_cols (fm_data m) = 0
        then \<lparr>rk_rows = fm_rows m, rk_cols = fm_cols m, rk_a = None, rk_b = None, rk_method = 0\<rparr>
        else \<lparr>rk_rows = fm_rows m, rk_cols = fm_cols m, rk_a = Some (fm_data m),
               rk_b = Some (identity_array (sa_cols (fm_data m))), rk_method = 0\<rparr>)\<rparr>"

text \<open>
  A dense block over one row and one column, and an H-matrix node over one row and one
  column whose \<^verbatim>\<open>gemv\<close> stands in for the real one.
\<close>

definition full1 :: "scalar \<Rightarrow> FullMatrix" where
  "full1 x = \<lparr>fm_rows = idx1, fm_cols = idx1, fm_data = panel1 x\<rparr>"

definition h_sample :: HMatrix where
  "h_sample = \<lparr>hm_rows = idx1, hm_cols = idx1,
     hm_gemv = (\<lambda>tr alpha x beta y. sa_axpy alpha x (sa_scale beta y))\<rparr>"

text \<open>
  Heaps: one with a single root; one with a root at address 0 that has the node at
  address 2 as its child 0, next to an unattached node at address 1; one whose root has
  the largest depth an \<^verbatim>\<open>int\<close> holds; and one whose root has \<open>2\<^sup>3\<^sup>1\<close> child slots, all
  null.
\<close>

definition heap_self :: heap where
  "heap_self = Map.empty(0 \<mapsto> \<lparr>depth = 0, children = [], father = None\<rparr>)"

definition heap_three :: heap where
  "heap_three = Map.empty(
     0 \<mapsto> \<lparr>depth = 0, children = [Some 2], father = None\<rparr>,
     1 \<mapsto> \<lparr>depth = 7, children = [], father = None\<rparr>,
     2 \<mapsto> \<lparr>depth = 1, children = [], father = Some 0\<rparr>)"

definition heap_deep :: heap where
  "heap_deep = Map.empty(
     0 \<mapsto> \<lparr>depth = 2147483647, children = [], father = None\<rparr>,
     1 \<mapsto> \<lparr>depth = 0, children = [], father = None\<rparr>)"

definition wide_children :: "addr option list" where
  "wide_children = replicate (2 ^ 31) None"

definition heap_wide :: heap where
  "heap_wide = Map.empty(
     0 \<mapsto> \<lparr>depth = 0, children = wide_children, father = None\<rparr>,
     1 \<mapsto> \<lparr>depth = 0, children = [], father = None\<rparr>)"

text \<open>
  An Rk block over two rows and one column of rank 2, more than its column count, and
  its dense value.
\<close>

definition idx2 :: IndexSet where
  "idx2 = \<lparr>is_offset = 0, is_size = 2\<rparr>"

definition const_array :: "nat \<Rightarrow> nat \<Rightarrow> scalar \<Rightarrow> ScalarArray" where
  "const_array r c x = \<lparr>sa_rows = r, sa_cols = c, sa_m = (\<lambda>i j. x), sa_ortho = False\<rparr>"

definition rk_wide :: RkMatrix where
  "rk_wide = \<lparr>rk_rows = idx2, rk_cols = idx1, rk_a = Some (const_array 2 2 1),
     rk_b = Some (const_array 1 2 1), rk_method = 1\<rparr>"

definition tmp_wide :: FullMatrix where
  "tmp_wide = \<lparr>fm_rows = idx2, fm_cols = idx1,
     fm_data = gemm (CHR ''N'') (CHR ''T'') 1 (const_array 2 2 1) (const_array 1 2 1) 0
                 (new_ScalarArray 2 1)\<rparr>"

text \<open>
  Over two rows and two columns: the empty block, and a block of rank 1 whose dense
  value is \<open>x * y\<close> in each entry.
\<close>

definition rk_sq_empty :: RkMatrix where
  "rk_sq_empty = \<lparr>rk_rows = idx2, rk_cols = idx2, rk_a = None, rk_b = None, rk_method = 0\<rparr>"

definition rk_sq :: "scalar \<Rightarrow> scalar \<Rightarrow> RkMatrix" where
  "rk_sq x y = \<lparr>rk_rows = idx2, rk_cols = idx2, rk_a = Some (const_array 2 1 x),
     rk_b = Some (const_array 2 1 y), rk_method = 0\<rparr>"

text \<open>
  A stand-in for the arithmetic of doubles: each operation rounds its exact result to
  the nearest number with 53 significant bits, ties to the even one. The exponent is
  not bounded: there is no overflow to infinity and there are no subnormal numbers.
\<close>

definition round_to_even :: "real \<Rightarrow> int" where
  "round_to_even x =
     (let f = \<lfloor>x\<rfloor> in
      if x - of_int f < 1 / 2 then f
      else if 1 / 2 < x - of_int f then f + 1
      else if even f then f else f + 1)"

definition double_round :: "real \<Rightarrow> real" where
  "double_round x =
     (if x = 0 then 0
      else (let e = \<lfloor>log 2 \<bar>x\<bar>\<rfloor>
            in of_int (round_to_even (x / 2 powi (e - 52))) * 2 powi (e - 52)))"

definition env_double :: environment where
  "env_double = env_default\<lparr>double_add := (\<lambda>x y. double_round (x + y)),
     double_mul := (\<lambda>x y. double_round (x * y)),
     double_sqrt := (\<lambda>x. double_round (sqrt x))\<rparr>"

section \<open>Properties of \<^verbatim>\<open>findK\<close>\<close>

lemma sum_sigma_eq: "sum_sigma env acc ss = foldl (double_add env) acc ss"
  by (induction ss arbitrary: acc) simp_all

lemma foldl_exact_sum:
  assumes "\<forall>x y. double_add env x y = x + y"
  shows "foldl (double_add env) acc ss = acc + sum_list ss"
  using assms by (induction ss arbitrary: acc) (simp_all add: add.assoc)

lemma first_below_bounds: "i \<le> first_below ss thr i \<and> first_below ss thr i \<le> i + length ss"
proof (induction ss arbitrary: i)
  case Nil
  show ?case by simp
next
  case (Cons s ss)
  from Cons.IH [of "Suc i"] show ?case by simp
qed

lemma first_below_before:
  "j < first_below ss thr i - i \<Longrightarrow> thr < ss ! j"
proof (induction ss arbitrary: i j)
  case Nil
  then show ?case by simp
next
  case (Cons s ss)
  show ?case
  proof (cases "s \<le> thr")
    case True
    with Cons.prems show ?thesis by simp
  next
    case False
    note notle = this
    show ?thesis
    proof (cases j)
      case 0
      with notle show ?thesis by simp
    next
      case (Suc j')
      from first_below_bounds [of "Suc i" ss thr] have "Suc i \<le> first_below ss thr (Suc i)"
        by simp
      with Cons.prems notle Suc have "j' < first_below ss thr (Suc i) - Suc i"
        by simp
      from Cons.IH [OF this] Suc show ?thesis by simp
    qed
  qed
qed

lemma first_below_at:
  "first_below ss thr i - i < length ss \<Longrightarrow> ss ! (first_below ss thr i - i) \<le> thr"
proof (induction ss arbitrary: i)
  case Nil
  then show ?case by simp
next
  case (Cons s ss)
  show ?case
  proof (cases "s \<le> thr")
    case True
    then show ?thesis by simp
  next
    case False
    from first_below_bounds [of "Suc i" ss thr] have le: "Suc i \<le> first_below ss thr (Suc i)"
      by simp
    then have eq: "first_below ss thr (Suc i) - i = Suc (first_below ss thr (Suc i) - Suc i)"
      by simp
    with Cons.prems False have "first_below ss thr (Suc i) - Suc i < length ss"
      by simp
    from Cons.IH [OF this] False eq show ?thesis by simp
  qed
qed

lemma first_below_smallest: "smallest_index_below sigma thr (first_below sigma thr 0)"
  unfolding smallest_index_below_def
  using first_below_bounds [of 0 sigma thr] first_below_before [of _ sigma thr 0]
    first_below_at [of sigma thr 0]
  by simp

text \<open>
  Claim C2, as amended. With a nonzero configured rank, \<^verbatim>\<open>findK\<close> returns the minimum of
  that rank and the length of \<open>sigma\<close>, whatever the tolerance. With the configured rank 0
  and a tolerance \<open>eps \<ge> 0\<close> it returns the smallest index whose entry is at most the
  threshold \<open>T\<close>, or the length of \<open>sigma\<close> when there is none; \<open>T\<close> is the product of
  doubles \<open>S * eps\<close>, where \<open>S\<close> is the sum of the entries accumulated in doubles from 0 in
  the order of the indices by default, and the entry \<open>sigma[0]\<close> (for a vector that has
  one) when the toggle \<^verbatim>\<open>HMAT_L2_CRITERION\<close> is set. Where no operation rounds, \<open>T\<close> is
  the exact \<open>eps * S\<close> with \<open>S\<close> the exact sum.
\<close>

theorem findK_spec:
  "(approx_k ctl \<noteq> 0 \<longrightarrow> findK env ctl sigma eps = Inr (min (approx_k ctl) (int (length sigma))))
   \<and> (approx_k ctl = 0 \<and> 0 \<le> eps \<and> \<not> useL2Criterion env \<longrightarrow>
        (\<exists>r. findK env ctl sigma eps = Inr (int r)
           \<and> smallest_index_below sigma (double_mul env (double_sum env sigma) eps) r))
   \<and> (approx_k ctl = 0 \<and> 0 \<le> eps \<and> useL2Criterion env \<and> sigma \<noteq> [] \<longrightarrow>
        (\<exists>r. findK env ctl sigma eps = Inr (int r)
           \<and> smallest_index_below sigma (double_mul env (sigma ! 0) eps) r))
   \<and> ((\<forall>x y. double_add env x y = x + y) \<and> (\<forall>x y. double_mul env x y = x * y) \<longrightarrow>
        double_mul env (double_sum env sigma) eps = eps * sum_list sigma
        \<and> double_mul env (sigma ! 0) eps = eps * sigma ! 0)"
proof (intro conjI impI)
  assume "approx_k ctl \<noteq> 0"
  then show "findK env ctl sigma eps = Inr (min (approx_k ctl) (int (length sigma)))"
    by (simp add: findK_def)
next
  assume h: "approx_k ctl = 0 \<and> 0 \<le> eps \<and> \<not> useL2Criterion env"
  then have "findK env ctl sigma eps
      = Inr (int (first_below sigma (double_mul env (double_sum env sigma) eps) 0))"
    by (simp add: findK_def sum_sigma_eq double_sum_def)
  then show "\<exists>r. findK env ctl sigma eps = Inr (int r)
      \<and> smallest_index_below sigma (double_mul env (double_sum env sigma) eps) r"
    using first_below_smallest by blast
next
  assume h: "approx_k ctl = 0 \<and> 0 \<le> eps \<and> useL2Criterion env \<and> sigma \<noteq> []"
  then obtain s0 ss where sig: "sigma = s0 # ss"
    by (cases sigma) auto
  have "smallest_index_below sigma (double_mul env s0 eps)
      (first_below sigma (double_mul env s0 eps) 0)"
    by (rule first_below_smallest)
  moreover from h sig
  have "findK env ctl sigma eps = Inr (int (first_below sigma (double_mul env s0 eps) 0))"
    by (simp add: findK_def)
  ultimately show "\<exists>r. findK env ctl sigma eps = Inr (int r)
      \<and> smallest_index_below sigma (double_mul env (sigma ! 0) eps) r"
    using sig by auto
next
  assume e: "(\<forall>x y. double_add env x y = x + y) \<and> (\<forall>x y. double_mul env x y = x * y)"
  then show "double_mul env (double_sum env sigma) eps = eps * sum_list sigma"
    by (simp add: double_sum_def foldl_exact_sum mult.commute)
next
  assume e: "(\<forall>x y. double_add env x y = x + y) \<and> (\<forall>x y. double_mul env x y = x * y)"
  then show "double_mul env (sigma ! 0) eps = eps * sigma ! 0"
    by (simp add: mult.commute)
qed

lemma env_default_exact:
  "double_add env_default x y = x + y" "double_mul env_default x y = x * y"
  "double_sqrt env_default x = sqrt x"
  "double_add (env_default\<lparr>useL2Criterion := True\<rparr>) x y = x + y"
  "double_mul (env_default\<lparr>useL2Criterion := True\<rparr>) x y = x * y"
  by (simp_all add: env_default_def)

theorem findK_spec_witness:
  "findK env_default \<lparr>approx_k = 2, recompressionEpsilon = 1\<rparr> [5, 3, 1] 0 = Inr 2
   \<and> (\<exists>r. findK env_default \<lparr>approx_k = 0, recompressionEpsilon = 1\<rparr>
            [10, 1 / 4, 0] (1 / 2) = Inr (int r)
         \<and> smallest_index_below [10, 1 / 4, 0] (1 / 2 * sum_list [10, 1 / 4, 0]) r)
   \<and> (\<exists>r. findK (env_default\<lparr>useL2Criterion := True\<rparr>)
            \<lparr>approx_k = 0, recompressionEpsilon = 1\<rparr> [10, 1 / 4, 0] (1 / 100) = Inr (int r)
         \<and> smallest_index_below [10, 1 / 4, 0] (1 / 100 * [10, 1 / 4, 0] ! 0) r)"
proof -
  let ?c2 = "\<lparr>approx_k = 2, recompressionEpsilon = 1\<rparr>"
  let ?c0 = "\<lparr>approx_k = 0, recompressionEpsilon = 1\<rparr>"
  let ?l2 = "env_default\<lparr>useL2Criterion := True\<rparr>"
  let ?s = "[10, 1 / 4, 0] :: real list"
  have k: "approx_k ?c2 \<noteq> 0"
    by simp
  have r1: "findK env_default ?c2 [5, 3, 1] 0 = Inr 2"
    using findK_spec [of ?c2 env_default "[5, 3, 1]" 0, THEN conjunct1, THEN mp, OF k]
    by simp
  have h2: "approx_k ?c0 = 0 \<and> (0::real) \<le> 1 / 2 \<and> \<not> useL2Criterion env_default"
    by (simp add: env_default_def)
  have e2: "(\<forall>x y. double_add env_default x y = x + y)
      \<and> (\<forall>x y. double_mul env_default x y = x * y)"
    by (simp add: env_default_exact)
  note th2 = findK_spec [of ?c0 env_default ?s "1 / 2"]
  have t2: "double_mul env_default (double_sum env_default ?s) (1 / 2) = 1 / 2 * sum_list ?s"
    using th2 [THEN conjunct2, THEN conjunct2, THEN conjunct2, THEN mp, OF e2] by (rule conjunct1)
  have r2: "\<exists>r. findK env_default ?c0 ?s (1 / 2) = Inr (int r)
      \<and> smallest_index_below ?s (1 / 2 * sum_list ?s) r"
    using th2 [THEN conjunct2, THEN conjunct1, THEN mp, OF h2] unfolding t2 .
  have h3: "approx_k ?c0 = 0 \<and> (0::real) \<le> 1 / 100 \<and> useL2Criterion ?l2 \<and> ?s \<noteq> []"
    by simp
  have e3: "(\<forall>x y. double_add ?l2 x y = x + y) \<and> (\<forall>x y. double_mul ?l2 x y = x * y)"
    by (simp add: env_default_exact)
  note th3 = findK_spec [of ?c0 ?l2 ?s "1 / 100"]
  have t3: "double_mul ?l2 (?s ! 0) (1 / 100) = 1 / 100 * ?s ! 0"
    using th3 [THEN conjunct2, THEN conjunct2, THEN conjunct2, THEN mp, OF e3] by (rule conjunct2)
  have r3: "\<exists>r. findK ?l2 ?c0 ?s (1 / 100) = Inr (int r)
      \<and> smallest_index_below ?s (1 / 100 * ?s ! 0) r"
    using th3 [THEN conjunct2, THEN conjunct2, THEN conjunct1, THEN mp, OF h3] unfolding t3 .
  from r1 r2 r3 show ?thesis
    by (intro conjI)
qed

lemma binade:
  assumes "2 powi e \<le> x" "x < 2 powi (e + 1)"
  shows "\<lfloor>log 2 \<bar>x\<bar>\<rfloor> = e"
proof -
  have "(0::real) < 2 powi e"
    by simp
  with assms(1) have pos: "0 < x"
    by linarith
  have p: "(2::real) powr real_of_int n = 2 powi n" for n
    by (simp add: powr_real_of_int')
  have lo: "2 powr real_of_int e \<le> x"
    using assms(1) by (simp only: p)
  have hi: "x < 2 powr real_of_int (e + 1)"
    using assms(2) by (simp only: p)
  from lo pos have "real_of_int e \<le> log 2 x"
    by (simp add: le_log_iff)
  moreover from hi pos have "log 2 x < real_of_int (e + 1)"
    by (simp only: log_less_iff [of 2 x "real_of_int (e + 1)"])
  ultimately have "\<lfloor>log 2 x\<rfloor> = e"
    by linarith
  with pos show ?thesis by simp
qed

lemma double_round_binade:
  assumes "2 powi e \<le> x" "x < 2 powi (e + 1)"
  shows "double_round x = of_int (round_to_even (x / 2 powi (e - 52))) * 2 powi (e - 52)"
proof -
  have "(0::real) < 2 powi e"
    by simp
  with assms(1) have "x \<noteq> 0"
    by linarith
  then show ?thesis
    by (simp add: double_round_def binade [OF assms] Let_def)
qed

lemma v25_steps:
  "double_round (0 + (1 + 1 / 2 ^ 51)) = 1 + 1 / 2 ^ 51"
  "double_round ((1 + 1 / 2 ^ 51) + (1 + 1 / 2 ^ 52)) = 2 + 1 / 2 ^ 50"
  "double_round ((2 + 1 / 2 ^ 50) * (1 / 2)) = 1 + 1 / 2 ^ 51"
proof -
  show "double_round (0 + (1 + 1 / 2 ^ 51)) = 1 + 1 / 2 ^ 51"
    by (subst double_round_binade [where e = 0]) (simp_all add: round_to_even_def power_int_minus)
  show "double_round ((1 + 1 / 2 ^ 51) + (1 + 1 / 2 ^ 52)) = 2 + 1 / 2 ^ 50"
    by (subst double_round_binade [where e = 1]) (simp_all add: round_to_even_def power_int_minus)
  show "double_round ((2 + 1 / 2 ^ 50) * (1 / 2)) = 1 + 1 / 2 ^ 51"
    by (subst double_round_binade [where e = 0]) (simp_all add: round_to_even_def power_int_minus)
qed


lemma env_double_ops:
  "double_add env_double x y = double_round (x + y)"
  "double_mul env_double x y = double_round (x * y)"
  "\<not> useL2Criterion env_double"
  by (simp_all add: env_double_def env_default_def)

text \<open>
  The claim as stated fails where the operations round. For the vector
  \<^verbatim>\<open>[1 + 2^-51, 1 + 2^-52]\<close> and the tolerance \<^verbatim>\<open>0.5\<close> the sum of the two entries rounds
  to \<^verbatim>\<open>2 + 2^-50\<close>, the threshold is \<^verbatim>\<open>1 + 2^-51\<close>, the first entry, and \<^verbatim>\<open>findK\<close>
  returns 0; the first entry is above the exact \<open>eps * S\<close> and the second one is not, so
  that the smallest index of the claim is 1.
\<close>

theorem findK_spec_counterexample:
  "findK env_double \<lparr>approx_k = 0, recompressionEpsilon = 1\<rparr>
       [1 + 1 / 2 ^ 51, 1 + 1 / 2 ^ 52] (1 / 2) = Inr 0
   \<and> \<not> [1 + 1 / 2 ^ 51, 1 + 1 / 2 ^ 52] ! 0
         \<le> 1 / 2 * sum_list [1 + 1 / 2 ^ 51, 1 + 1 / 2 ^ 52 :: real]
   \<and> [1 + 1 / 2 ^ 51, 1 + 1 / 2 ^ 52] ! 1
         \<le> 1 / 2 * sum_list [1 + 1 / 2 ^ 51, 1 + 1 / 2 ^ 52 :: real]"
proof -
  let ?s = "[1 + 1 / 2 ^ 51, 1 + 1 / 2 ^ 52] :: real list"
  have s: "sum_sigma env_double 0 ?s = 2 + 1 / 2 ^ 50"
    by (simp only: sum_sigma.simps env_double_ops v25_steps)
  have thr: "double_mul env_double (sum_sigma env_double 0 ?s) (1 / 2) = 1 + 1 / 2 ^ 51"
    by (simp only: s env_double_ops v25_steps)
  have f: "findK env_double \<lparr>approx_k = 0, recompressionEpsilon = 1\<rparr> ?s (1 / 2)
     = Inr (int (first_below ?s (double_mul env_double (sum_sigma env_double 0 ?s) (1 / 2)) 0))"
    unfolding findK_def Let_def by (simp add: env_double_ops(3))
  have a: "findK env_double \<lparr>approx_k = 0, recompressionEpsilon = 1\<rparr> ?s (1 / 2) = Inr 0"
    unfolding f thr by simp
  have b: "\<not> [1 + 1 / 2 ^ 51, 1 + 1 / 2 ^ 52] ! 0
         \<le> 1 / 2 * sum_list [1 + 1 / 2 ^ 51, 1 + 1 / 2 ^ 52 :: real]"
    by simp
  have c: "[1 + 1 / 2 ^ 51, 1 + 1 / 2 ^ 52] ! 1
         \<le> 1 / 2 * sum_list [1 + 1 / 2 ^ 51, 1 + 1 / 2 ^ 52 :: real]"
    by simp
  from a b c show ?thesis
    by (intro conjI)
qed

section \<open>Algebra of finite sums\<close>

lemma triple_sum_left:
  fixes f g :: "nat \<Rightarrow> scalar" and h u :: "nat \<Rightarrow> nat \<Rightarrow> scalar"
  shows "(\<Sum>l<r1. f l * (\<Sum>l2<r2. g l2 * (\<Sum>p<n. h p l * u p l2)))
       = (\<Sum>p<n. (\<Sum>l<r1. f l * h p l) * (\<Sum>l2<r2. u p l2 * g l2))"
proof -
  have "(\<Sum>l<r1. f l * (\<Sum>l2<r2. g l2 * (\<Sum>p<n. h p l * u p l2)))
      = (\<Sum>l<r1. \<Sum>p<n. f l * h p l * (\<Sum>l2<r2. u p l2 * g l2))"
  proof (rule sum.cong [OF refl])
    fix l
    have "(\<Sum>l2<r2. g l2 * (\<Sum>p<n. h p l * u p l2)) = (\<Sum>l2<r2. \<Sum>p<n. h p l * (u p l2 * g l2))"
      by (simp add: sum_distrib_left mult_ac)
    also have "\<dots> = (\<Sum>p<n. \<Sum>l2<r2. h p l * (u p l2 * g l2))"
      by (rule sum.swap)
    also have "\<dots> = (\<Sum>p<n. h p l * (\<Sum>l2<r2. u p l2 * g l2))"
      by (simp add: sum_distrib_left)
    finally show "f l * (\<Sum>l2<r2. g l2 * (\<Sum>p<n. h p l * u p l2))
        = (\<Sum>p<n. f l * h p l * (\<Sum>l2<r2. u p l2 * g l2))"
      by (simp add: sum_distrib_left mult.assoc)
  qed
  also have "\<dots> = (\<Sum>p<n. \<Sum>l<r1. f l * h p l * (\<Sum>l2<r2. u p l2 * g l2))"
    by (rule sum.swap)
  also have "\<dots> = (\<Sum>p<n. (\<Sum>l<r1. f l * h p l) * (\<Sum>l2<r2. u p l2 * g l2))"
    by (simp add: sum_distrib_right)
  finally show ?thesis .
qed

lemma triple_sum_right:
  fixes f g :: "nat \<Rightarrow> scalar" and h u :: "nat \<Rightarrow> nat \<Rightarrow> scalar"
  shows "(\<Sum>l2<r2. (\<Sum>l<r1. f l * (\<Sum>p<n. h p l * u p l2)) * g l2)
       = (\<Sum>p<n. (\<Sum>l<r1. f l * h p l) * (\<Sum>l2<r2. u p l2 * g l2))"
proof -
  have "(\<Sum>l2<r2. (\<Sum>l<r1. f l * (\<Sum>p<n. h p l * u p l2)) * g l2)
      = (\<Sum>l2<r2. \<Sum>l<r1. f l * (\<Sum>p<n. h p l * u p l2) * g l2)"
    by (simp add: sum_distrib_right)
  also have "\<dots> = (\<Sum>l2<r2. \<Sum>l<r1. f l * (g l2 * (\<Sum>p<n. h p l * u p l2)))"
    by (simp add: mult_ac)
  also have "\<dots> = (\<Sum>l<r1. \<Sum>l2<r2. f l * (g l2 * (\<Sum>p<n. h p l * u p l2)))"
    by (rule sum.swap)
  also have "\<dots> = (\<Sum>l<r1. f l * (\<Sum>l2<r2. g l2 * (\<Sum>p<n. h p l * u p l2)))"
    by (simp add: sum_distrib_left)
  also have "\<dots> = (\<Sum>p<n. (\<Sum>l<r1. f l * h p l) * (\<Sum>l2<r2. u p l2 * g l2))"
    by (rule triple_sum_left)
  finally show ?thesis .
qed


lemma sum_assoc_swap:
  fixes f1 h :: "nat \<Rightarrow> scalar" and g :: "nat \<Rightarrow> nat \<Rightarrow> scalar"
  shows "(\<Sum>l<r. f1 l * (\<Sum>p<n. g l p * h p)) = (\<Sum>p<n. (\<Sum>l<r. f1 l * g l p) * h p)"
proof -
  have "(\<Sum>l<r. f1 l * (\<Sum>p<n. g l p * h p)) = (\<Sum>l<r. \<Sum>p<n. f1 l * g l p * h p)"
    by (simp add: sum_distrib_left mult.assoc)
  also have "\<dots> = (\<Sum>p<n. \<Sum>l<r. f1 l * g l p * h p)"
    by (rule sum.swap)
  also have "\<dots> = (\<Sum>p<n. (\<Sum>l<r. f1 l * g l p) * h p)"
    by (simp add: sum_distrib_right)
  finally show ?thesis .
qed

section \<open>The dense value and the invariant\<close>

lemmas err_simps = ebind_def deref_def assert_def

lemma rk_inv_panels:
  assumes "rk_inv rk" "rank rk \<noteq> 0"
  obtains pa pb where "rk_a rk = Some pa" "rk_b rk = Some pb" "sa_cols pa = rank rk"
    "sa_cols pb = rank rk" "sa_rows pa = is_size (rk_rows rk)" "sa_rows pb = is_size (rk_cols rk)"
  using assms by (auto simp: rk_inv_def rank_def split: option.splits)


lemma rk1_inv: "rk_inv (rk1 x y meth)" "rank (rk1 x y meth) = 1"
  by (simp_all add: rk_inv_def rk1_def panel1_def idx1_def rank_def)

lemma dense_rk1: "dense (rk1 x y meth) i j = x * y"
  by (simp add: dense_def rk1_def panel1_def)

lemma rk1_fields: "rk_method (rk1 x y meth) = meth" "rk_rows (rk1 x y meth) = idx1"
  "rk_cols (rk1 x y meth) = idx1" "is_size idx1 = 1"
  by (simp_all add: rk1_def idx1_def)

lemma rk_empty_inv: "rk_inv (rk_empty meth)" "rank (rk_empty meth) = 0"
  by (simp_all add: rk_inv_def rk_empty_def rank_def)

lemma rk_empty_fields: "rk_method (rk_empty meth) = meth" "rk_rows (rk_empty meth) = idx1"
  "rk_cols (rk_empty meth) = idx1" "rk_a (rk_empty meth) = None" "rk_b (rk_empty meth) = None"
  by (simp_all add: rk_empty_def)

lemma panel1_fields: "sa_rows (panel1 x) = 1" "sa_cols (panel1 x) = 1" "sa_m (panel1 x) i j = x"
  by (simp_all add: panel1_def)

lemma rkrk_tmp_entry:
  "sa_m (rkrk_tmp trans1 trans2 b1 a2 t0) l1 l2 = mid_matrix trans1 trans2 b1 a2 l1 l2"
  "sa_rows (rkrk_tmp trans1 trans2 b1 a2 t0) = sa_rows t0"
  "sa_cols (rkrk_tmp trans1 trans2 b1 a2 t0) = sa_cols t0"
  by (simp_all add: rkrk_tmp_def mid_matrix_def cj_def gemm_def sa_conjugate_def op_entry_def)

lemma op_dense_free:
  assumes "free_panel tr rk = Some fa" "contracted_panel tr rk = Some fb"
    and "tr = CHR ''N'' \<or> tr = CHR ''T'' \<or> tr = CHR ''C''"
  shows "op_dense tr rk i j = (\<Sum>l<rank rk. cj tr (sa_m fa i l) * cj tr (sa_m fb j l))"
proof -
  consider "tr = CHR ''N''" | "tr = CHR ''T''" | "tr = CHR ''C''"
    using assms(3) by blast
  then show ?thesis
  proof cases
    case 1
    with assms(1,2) have ab: "rk_a rk = Some fa" "rk_b rk = Some fb"
      by (simp_all add: free_panel_def contracted_panel_def)
    then have "rank rk = sa_cols fa"
      by (simp add: rank_def)
    with ab 1 show ?thesis
      by (simp add: op_dense_def dense_def cj_def)
  next
    case 2
    with assms(1,2) have ab: "rk_a rk = Some fb" "rk_b rk = Some fa"
      by (simp_all add: free_panel_def contracted_panel_def)
    then have "rank rk = sa_cols fb"
      by (simp add: rank_def)
    with ab 2 have "op_dense tr rk i j = (\<Sum>l<rank rk. sa_m fb j l * sa_m fa i l)"
      by (simp add: op_dense_def dense_def)
    also have "\<dots> = (\<Sum>l<rank rk. sa_m fa i l * sa_m fb j l)"
      by (simp add: mult.commute)
    finally show ?thesis using 2 by (simp add: cj_def)
  next
    case 3
    with assms(1,2) have ab: "rk_a rk = Some fb" "rk_b rk = Some fa"
      by (simp_all add: free_panel_def contracted_panel_def)
    then have "rank rk = sa_cols fb"
      by (simp add: rank_def)
    with ab 3 have "op_dense tr rk i j = cnj (\<Sum>l<rank rk. sa_m fb j l * sa_m fa i l)"
      by (simp add: op_dense_def dense_def)
    also have "\<dots> = (\<Sum>l<rank rk. cnj (sa_m fa i l) * cnj (sa_m fb j l))"
      by (simp add: cnj_sum mult.commute)
    finally show ?thesis using 3 by (simp add: cj_def)
  qed
qed

lemma rk_inv_free:
  assumes "rk_inv rk" "rank rk \<noteq> 0"
  obtains fa fb where "free_panel tr rk = Some fa" "contracted_panel tr rk = Some fb"
    "sa_cols fa = rank rk" "sa_cols fb = rank rk"
    "sa_rows fa = is_size (if tr = CHR ''N'' then rk_rows rk else rk_cols rk)"
    "sa_rows fb = is_size (if tr = CHR ''N'' then rk_cols rk else rk_rows rk)"
proof -
  from assms obtain pa pb where ab: "rk_a rk = Some pa" "rk_b rk = Some pb" "sa_cols pa = rank rk"
    "sa_cols pb = rank rk" "sa_rows pa = is_size (rk_rows rk)" "sa_rows pb = is_size (rk_cols rk)"
    by (rule rk_inv_panels)
  show thesis
  proof (cases "tr = CHR ''N''")
    case True
    with ab show thesis
      by (intro that [of pa pb]) (simp_all add: free_panel_def contracted_panel_def)
  next
    case False
    with ab show thesis
      by (intro that [of pb pa]) (simp_all add: free_panel_def contracted_panel_def)
  qed
qed


section \<open>Properties of \<^verbatim>\<open>multiplyRkRk\<close>\<close>

lemma multiplyRkRk_old_panels:
  assumes env: "\<not> newRKRK env"
    and p1: "free_panel trans1 r1 = Some a1" "contracted_panel trans1 r1 = Some b1"
    and p2: "free_panel trans2 r2 = Some a2" "contracted_panel trans2 r2 = Some b2"
    and compat: "(if trans1 = CHR ''N'' then rk_cols r1 else rk_rows r1)
               = (if trans2 = CHR ''N'' then rk_rows r2 else rk_cols r2)"
    and rows: "sa_rows b1 = sa_rows a2"
      "sa_rows a1 = is_size (if trans1 = CHR ''N'' then rk_rows r1 else rk_cols r1)"
      "sa_rows b2 = is_size (if trans2 = CHR ''N'' then rk_cols r2 else rk_rows r2)"
    and cols: "sa_cols a1 = rank r1" "sa_cols b1 = rank r1" "sa_cols a2 = rank r2"
      "sa_cols b2 = rank r2"
  shows "\<exists>R newA newB. multiplyRkRk kern env approx trans1 trans2 r1 r2 = Inr R
     \<and> rk_a R = Some newA \<and> rk_b R = Some newB
     \<and> rk_rows R = (if trans1 = CHR ''N'' then rk_rows r1 else rk_cols r1)
     \<and> rk_cols R = (if trans2 = CHR ''N'' then rk_cols r2 else rk_rows r2)
     \<and> rk_method R = min (rk_method r1) (rk_method r2)
     \<and> sa_rows newA = sa_rows a1 \<and> sa_rows newB = sa_rows b2
     \<and> sa_cols newA = min (rank r1) (rank r2) \<and> sa_cols newB = min (rank r1) (rank r2)
     \<and> (if rank r1 < rank r2
        then (\<forall>i l. sa_m newA i l = cj trans1 (sa_m a1 i l))
           \<and> (\<forall>j l. sa_m newB j l
                 = (\<Sum>l2<rank r2. cj trans2 (sa_m b2 j l2) * mid_matrix trans1 trans2 b1 a2 l l2))
        else (\<forall>i l2. sa_m newA i l2
                 = (\<Sum>l<rank r1. cj trans1 (sa_m a1 i l) * mid_matrix trans1 trans2 b1 a2 l l2))
           \<and> (\<forall>j l2. sa_m newB j l2 = cj trans2 (sa_m b2 j l2)))"
proof (cases "rank r1 < rank r2")
  case True
  with assms show ?thesis
    by (auto simp: multiplyRkRk_def err_simps free_panel_def contracted_panel_def Let_def
        new_RkMatrix_def rkrk_tmp_entry gemm_def op_entry_def sa_conjugate_def sa_copy_def
        new_ScalarArray_def cj_def cnj_sum split: if_splits)
next
  case False
  with assms show ?thesis
    by (auto simp: multiplyRkRk_def err_simps free_panel_def contracted_panel_def Let_def
        new_RkMatrix_def rkrk_tmp_entry gemm_def op_entry_def sa_conjugate_def sa_copy_def
        new_ScalarArray_def cj_def cnj_sum split: if_splits)
qed


text \<open>
  Claim C3. With \<^verbatim>\<open>HMAT_NEW_RKRK\<close> unset, for two non-empty Rk operands whose
  contracted index sets agree and operations among \<^verbatim>\<open>'N'\<close>, \<^verbatim>\<open>'T'\<close>, \<^verbatim>\<open>'C'\<close>,
  \<^verbatim>\<open>multiplyRkRk\<close> returns an Rk block that satisfies the invariant, has rank
  \<open>min (rank r1) (rank r2)\<close>, the minimum of the two methods as its method, and the
  exact product \<open>op1(M(r1)) * op2(M(r2))\<close> as its dense value. If \<open>rank r1 < rank r2\<close> its
  panels are \<open>newA = a1\<close> and \<open>newB = b2 * T\<^sup>T\<close>, otherwise \<open>newA = a1 * T\<close> and
  \<open>newB = b2\<close>, with \<open>T = b1\<^sup>T * a2\<close> and the conjugations of the two operations.
\<close>

theorem multiplyRkRk_spec:
  assumes env: "\<not> newRKRK env"
    and inv: "rk_inv r1" "rk_inv r2" and ne: "rank r1 \<noteq> 0" "rank r2 \<noteq> 0"
    and tr1: "trans1 = CHR ''N'' \<or> trans1 = CHR ''T'' \<or> trans1 = CHR ''C''"
    and tr2: "trans2 = CHR ''N'' \<or> trans2 = CHR ''T'' \<or> trans2 = CHR ''C''"
    and compat: "(if trans1 = CHR ''N'' then rk_cols r1 else rk_rows r1)
               = (if trans2 = CHR ''N'' then rk_rows r2 else rk_cols r2)"
  shows "\<exists>R a1 b1 a2 b2 newA newB.
       multiplyRkRk kern env approx trans1 trans2 r1 r2 = Inr R
     \<and> rk_inv R \<and> rank R = min (rank r1) (rank r2)
     \<and> rk_method R = min (rk_method r1) (rk_method r2)
     \<and> rk_rows R = (if trans1 = CHR ''N'' then rk_rows r1 else rk_cols r1)
     \<and> rk_cols R = (if trans2 = CHR ''N'' then rk_cols r2 else rk_rows r2)
     \<and> (\<forall>i j. dense R i j
           = (\<Sum>p<is_size (if trans1 = CHR ''N'' then rk_cols r1 else rk_rows r1).
                op_dense trans1 r1 i p * op_dense trans2 r2 p j))
     \<and> free_panel trans1 r1 = Some a1 \<and> contracted_panel trans1 r1 = Some b1
     \<and> free_panel trans2 r2 = Some a2 \<and> contracted_panel trans2 r2 = Some b2
     \<and> rk_a R = Some newA \<and> rk_b R = Some newB
     \<and> (if rank r1 < rank r2
        then (\<forall>i l. sa_m newA i l = cj trans1 (sa_m a1 i l))
           \<and> (\<forall>j l. sa_m newB j l
                 = (\<Sum>l2<rank r2. cj trans2 (sa_m b2 j l2) * mid_matrix trans1 trans2 b1 a2 l l2))
        else (\<forall>i l2. sa_m newA i l2
                 = (\<Sum>l<rank r1. cj trans1 (sa_m a1 i l) * mid_matrix trans1 trans2 b1 a2 l l2))
           \<and> (\<forall>j l2. sa_m newB j l2 = cj trans2 (sa_m b2 j l2)))"
proof -
  from inv(1) ne(1) obtain a1 b1 where p1:
    "free_panel trans1 r1 = Some a1" "contracted_panel trans1 r1 = Some b1"
    "sa_cols a1 = rank r1" "sa_cols b1 = rank r1"
    "sa_rows a1 = is_size (if trans1 = CHR ''N'' then rk_rows r1 else rk_cols r1)"
    "sa_rows b1 = is_size (if trans1 = CHR ''N'' then rk_cols r1 else rk_rows r1)"
    by (rule rk_inv_free)
  from inv(2) ne(2) obtain a2 b2 where p2:
    "free_panel trans2 r2 = Some a2" "contracted_panel trans2 r2 = Some b2"
    "sa_cols a2 = rank r2" "sa_cols b2 = rank r2"
    "sa_rows a2 = is_size (if trans2 = CHR ''N'' then rk_rows r2 else rk_cols r2)"
    "sa_rows b2 = is_size (if trans2 = CHR ''N'' then rk_cols r2 else rk_rows r2)"
    by (rule rk_inv_free)
  from p1(6) p2(5) compat have rows: "sa_rows b1 = sa_rows a2"
    by (simp split: if_splits)
  from multiplyRkRk_old_panels [OF env p1(1,2) p2(1,2) compat rows p1(5) p2(6) p1(3,4) p2(3,4),
      of kern approx]
  obtain R newA newB where big:
    "multiplyRkRk kern env approx trans1 trans2 r1 r2 = Inr R
     \<and> rk_a R = Some newA \<and> rk_b R = Some newB
     \<and> rk_rows R = (if trans1 = CHR ''N'' then rk_rows r1 else rk_cols r1)
     \<and> rk_cols R = (if trans2 = CHR ''N'' then rk_cols r2 else rk_rows r2)
     \<and> rk_method R = min (rk_method r1) (rk_method r2)
     \<and> sa_rows newA = sa_rows a1 \<and> sa_rows newB = sa_rows b2
     \<and> sa_cols newA = min (rank r1) (rank r2) \<and> sa_cols newB = min (rank r1) (rank r2)
     \<and> (if rank r1 < rank r2
        then (\<forall>i l. sa_m newA i l = cj trans1 (sa_m a1 i l))
           \<and> (\<forall>j l. sa_m newB j l
                 = (\<Sum>l2<rank r2. cj trans2 (sa_m b2 j l2) * mid_matrix trans1 trans2 b1 a2 l l2))
        else (\<forall>i l2. sa_m newA i l2
                 = (\<Sum>l<rank r1. cj trans1 (sa_m a1 i l) * mid_matrix trans1 trans2 b1 a2 l l2))
           \<and> (\<forall>j l2. sa_m newB j l2 = cj trans2 (sa_m b2 j l2)))"
    by (elim exE) (rule that)
  then have res:
    "multiplyRkRk kern env approx trans1 trans2 r1 r2 = Inr R"
    "rk_a R = Some newA" "rk_b R = Some newB"
    "rk_rows R = (if trans1 = CHR ''N'' then rk_rows r1 else rk_cols r1)"
    "rk_cols R = (if trans2 = CHR ''N'' then rk_cols r2 else rk_rows r2)"
    "rk_method R = min (rk_method r1) (rk_method r2)"
    "sa_rows newA = sa_rows a1" "sa_rows newB = sa_rows b2"
    "sa_cols newA = min (rank r1) (rank r2)" "sa_cols newB = min (rank r1) (rank r2)"
    by simp_all
  from big have panels: "if rank r1 < rank r2
        then (\<forall>i l. sa_m newA i l = cj trans1 (sa_m a1 i l))
           \<and> (\<forall>j l. sa_m newB j l
                 = (\<Sum>l2<rank r2. cj trans2 (sa_m b2 j l2) * mid_matrix trans1 trans2 b1 a2 l l2))
        else (\<forall>i l2. sa_m newA i l2
                 = (\<Sum>l<rank r1. cj trans1 (sa_m a1 i l) * mid_matrix trans1 trans2 b1 a2 l l2))
           \<and> (\<forall>j l2. sa_m newB j l2 = cj trans2 (sa_m b2 j l2))"
    by (elim conjE)
  have rinv: "rk_inv R"
    using res p1(5) p2(6) ne by (simp add: rk_inv_def)
  have rrank: "rank R = min (rank r1) (rank r2)"
    using res by (simp add: rank_def)
  have od1: "op_dense trans1 r1 i p = (\<Sum>l<rank r1. cj trans1 (sa_m a1 i l) * cj trans1 (sa_m b1 p l))"
    for i p
    by (rule op_dense_free [OF p1(1,2) tr1])
  have od2: "op_dense trans2 r2 p j = (\<Sum>l<rank r2. cj trans2 (sa_m a2 p l) * cj trans2 (sa_m b2 j l))"
    for p j
    by (rule op_dense_free [OF p2(1,2) tr2])
  have n: "is_size (if trans1 = CHR ''N'' then rk_cols r1 else rk_rows r1) = sa_rows b1"
    using p1(6) by simp
  have dens: "dense R i j
      = (\<Sum>p<is_size (if trans1 = CHR ''N'' then rk_cols r1 else rk_rows r1).
            op_dense trans1 r1 i p * op_dense trans2 r2 p j)" for i j
  proof (cases "rank r1 < rank r2")
    case True
    with panels res have "dense R i j
        = (\<Sum>l<rank r1. cj trans1 (sa_m a1 i l)
             * (\<Sum>l2<rank r2. cj trans2 (sa_m b2 j l2)
                  * (\<Sum>p< sa_rows b1. cj trans1 (sa_m b1 p l) * cj trans2 (sa_m a2 p l2))))"
      by (simp add: dense_def mid_matrix_def)
    also have "\<dots> = (\<Sum>p< sa_rows b1. (\<Sum>l<rank r1. cj trans1 (sa_m a1 i l) * cj trans1 (sa_m b1 p l))
             * (\<Sum>l2<rank r2. cj trans2 (sa_m a2 p l2) * cj trans2 (sa_m b2 j l2)))"
      by (rule triple_sum_left)
    finally show ?thesis
      by (simp only: n od1 od2)
  next
    case False
    with panels res have "dense R i j
        = (\<Sum>l2<rank r2. (\<Sum>l<rank r1. cj trans1 (sa_m a1 i l)
                  * (\<Sum>p< sa_rows b1. cj trans1 (sa_m b1 p l) * cj trans2 (sa_m a2 p l2)))
             * cj trans2 (sa_m b2 j l2))"
      by (simp add: dense_def mid_matrix_def)
    also have "\<dots> = (\<Sum>p< sa_rows b1. (\<Sum>l<rank r1. cj trans1 (sa_m a1 i l) * cj trans1 (sa_m b1 p l))
             * (\<Sum>l2<rank r2. cj trans2 (sa_m a2 p l2) * cj trans2 (sa_m b2 j l2)))"
      by (rule triple_sum_right)
    finally show ?thesis
      by (simp only: n od1 od2)
  qed
  have dens_all: "\<forall>i j. dense R i j
      = (\<Sum>p<is_size (if trans1 = CHR ''N'' then rk_cols r1 else rk_rows r1).
            op_dense trans1 r1 i p * op_dense trans2 r2 p j)"
    using dens by blast
  from res(1) rinv rrank res(6,4,5) dens_all p1(1,2) p2(1,2) res(2,3) panels show ?thesis
    by (intro exI conjI) assumption+
qed


theorem multiplyRkRk_spec_witness:
  "\<exists>R. multiplyRkRk kern_sample env_default ctl_default (CHR ''N'') (CHR ''C'') (rk1 2 3 1) (rk1 \<i> 7 2)
         = Inr R
     \<and> rk_inv R \<and> rank R = 1 \<and> rk_method R = 1 \<and> dense R 0 0 = - (42 * \<i>)"
proof -
  have h1: "\<not> newRKRK env_default"
    by (simp add: env_default_def)
  have h2: "rank (rk1 2 3 1) \<noteq> 0" "rank (rk1 \<i> 7 2) \<noteq> 0"
    by (simp_all add: rk1_inv)
  have h3: "CHR ''N'' = CHR ''N'' \<or> CHR ''N'' = CHR ''T'' \<or> CHR ''N'' = CHR ''C''"
    "CHR ''C'' = CHR ''N'' \<or> CHR ''C'' = CHR ''T'' \<or> CHR ''C'' = CHR ''C''"
    by simp_all
  have h4: "(if CHR ''N'' = CHR ''N'' then rk_cols (rk1 2 3 1) else rk_rows (rk1 2 3 1))
      = (if CHR ''C'' = CHR ''N'' then rk_rows (rk1 \<i> 7 2) else rk_cols (rk1 \<i> 7 2))"
    by (simp add: rk1_fields)
  from multiplyRkRk_spec [OF h1 rk1_inv(1) rk1_inv(1) h2 h3 h4, of kern_sample ctl_default]
  obtain R where r: "multiplyRkRk kern_sample env_default ctl_default (CHR ''N'') (CHR ''C'')
         (rk1 2 3 1) (rk1 \<i> 7 2) = Inr R"
     "rk_inv R" "rank R = min (rank (rk1 2 3 1)) (rank (rk1 \<i> 7 2))"
     "rk_method R = min (rk_method (rk1 2 3 1)) (rk_method (rk1 \<i> 7 2))"
     "\<forall>i j. dense R i j
           = (\<Sum>p<is_size (if CHR ''N'' = CHR ''N'' then rk_cols (rk1 2 3 1) else rk_rows (rk1 2 3 1)).
                op_dense (CHR ''N'') (rk1 2 3 1) i p * op_dense (CHR ''C'') (rk1 \<i> 7 2) p j)"
    by (elim exE conjE) (rule that, assumption+)
  from r(5) have "dense R 0 0 = - (42 * \<i>)"
    by (simp add: rk1_fields op_dense_def dense_rk1)
  with r(1,2,3,4) show ?thesis
    by (simp add: rk1_inv rk1_fields)
qed


section \<open>Properties of \<^verbatim>\<open>scale\<close>\<close>

text \<open>
  Claim C9. For every Rk block \<open>R\<close>, the empty one included, and every scalar \<open>alpha\<close>,
  \<^verbatim>\<open>scale(alpha)\<close> multiplies panel \<open>a\<close> by \<open>alpha\<close> and nothing else: panel \<open>b\<close>, the two
  index sets, the rank and the method are unchanged, and the dense value becomes
  \<open>alpha * M(R)\<close>, both as the sum over the panels and as the result of \<^verbatim>\<open>eval()\<close>.
\<close>

theorem scale_spec:
  "rk_a (scale alpha R) = map_option (sa_scale alpha) (rk_a R)
   \<and> rk_b (scale alpha R) = rk_b R
   \<and> rk_rows (scale alpha R) = rk_rows R \<and> rk_cols (scale alpha R) = rk_cols R
   \<and> rank (scale alpha R) = rank R \<and> rk_method (scale alpha R) = rk_method R
   \<and> (\<forall>i j. dense (scale alpha R) i j = alpha * dense R i j)
   \<and> (case eval R of
        Inl e \<Rightarrow> eval (scale alpha R) = Inl e
      | Inr F \<Rightarrow> (\<exists>F'. eval (scale alpha R) = Inr F'
           \<and> fm_rows F' = fm_rows F \<and> fm_cols F' = fm_cols F
           \<and> sa_rows (fm_data F') = sa_rows (fm_data F) \<and> sa_cols (fm_data F') = sa_cols (fm_data F)
           \<and> (\<forall>i j. sa_m (fm_data F') i j = alpha * sa_m (fm_data F) i j)))"
proof -
  have frame: "rk_a (scale alpha R) = map_option (sa_scale alpha) (rk_a R)"
    "rk_b (scale alpha R) = rk_b R"
    "rk_rows (scale alpha R) = rk_rows R" "rk_cols (scale alpha R) = rk_cols R"
    "rank (scale alpha R) = rank R" "rk_method (scale alpha R) = rk_method R"
    by (simp_all add: scale_def rank_def sa_scale_def split: option.splits)
  have dens: "\<forall>i j. dense (scale alpha R) i j = alpha * dense R i j"
    by (simp add: scale_def dense_def sa_scale_def sum_distrib_left mult.assoc split: option.splits)
  have ev: "case eval R of
        Inl e \<Rightarrow> eval (scale alpha R) = Inl e
      | Inr F \<Rightarrow> (\<exists>F'. eval (scale alpha R) = Inr F'
           \<and> fm_rows F' = fm_rows F \<and> fm_cols F' = fm_cols F
           \<and> sa_rows (fm_data F') = sa_rows (fm_data F) \<and> sa_cols (fm_data F') = sa_cols (fm_data F)
           \<and> (\<forall>i j. sa_m (fm_data F') i j = alpha * sa_m (fm_data F) i j))"
    by (auto simp: eval_def evalArray_def scale_def rank_def err_simps gemm_def op_entry_def
        sa_scale_def sa_clear_def new_FullMatrix_def new_ScalarArray_def Let_def
        sum_distrib_left mult.assoc split: option.splits)
  from frame dens ev show ?thesis
    by (intro conjI)
qed

section \<open>Properties of \<^verbatim>\<open>gemv\<close>\<close>

text \<open>What the code computes for each operation, on the panels.\<close>

lemma gemv_panels:
  assumes ab: "rk_a R = Some a" "rk_b R = Some b" and rk: "rank R \<noteq> 0"
    and tr: "tr = CHR ''N'' \<or> tr = CHR ''T'' \<or> tr = CHR ''C''"
  shows "\<exists>Y'. gemv tr alpha X beta Y R = Inr (R, Y')
     \<and> sa_rows Y' = sa_rows Y \<and> sa_cols Y' = sa_cols Y
     \<and> (\<forall>i j. sa_m Y' i j = beta * sa_m Y i j + alpha *
          (if tr = CHR ''N'' then (\<Sum>l< sa_cols a. sa_m a i l * (\<Sum>p< sa_rows b. sa_m b p l * sa_m X p j))
           else if tr = CHR ''T'' then (\<Sum>l< sa_cols b. sa_m b i l * (\<Sum>p< sa_rows a. sa_m a p l * sa_m X p j))
           else (\<Sum>l< sa_cols b. cnj (sa_m b i l) * (\<Sum>p< sa_rows a. cnj (sa_m a p l) * sa_m X p j))))"
  using assms
  by (auto simp: gemv_def err_simps gemm_def op_entry_def new_ScalarArray_def sa_conjugate_def
      sa_copy_def Let_def)


text \<open>
  Claim C5. For an Rk block \<open>R\<close> that satisfies the invariant, an operation among
  \<^verbatim>\<open>'N'\<close>, \<^verbatim>\<open>'T'\<close>, \<^verbatim>\<open>'C'\<close> and an \<open>X\<close> with as many rows as \<open>op(M(R))\<close> has columns,
  \<^verbatim>\<open>gemv\<close> returns normally, leaves the block as it was (so panel \<open>b\<close> is unchanged) and
  leaves \<open>Y\<close> equal to \<open>beta * Y + alpha * op(A * B\<^sup>T) * X\<close>. When the rank is 0 it only
  scales \<open>Y\<close> by \<open>beta\<close>, and \<open>Y\<close> is untouched when \<open>beta = 1\<close>. For \<^verbatim>\<open>'C'\<close> the product
  computed is \<open>conj(B) * (A\<^sup>H * X)\<close>.
\<close>

theorem gemv_spec:
  assumes inv: "rk_inv R"
    and tr: "tr = CHR ''N'' \<or> tr = CHR ''T'' \<or> tr = CHR ''C''"
    and x: "sa_rows X = is_size (if tr = CHR ''N'' then rk_cols R else rk_rows R)"
  shows "\<exists>Y'. gemv tr alpha X beta Y R = Inr (R, Y')
     \<and> sa_rows Y' = sa_rows Y \<and> sa_cols Y' = sa_cols Y
     \<and> (\<forall>i j. sa_m Y' i j
           = beta * sa_m Y i j + alpha * (\<Sum>p< sa_rows X. op_dense tr R i p * sa_m X p j))
     \<and> (rank R = 0 \<longrightarrow> Y' = (if beta = 1 then Y else sa_scale beta Y))
     \<and> (rank R \<noteq> 0 \<and> tr = CHR ''C'' \<longrightarrow>
          (\<exists>a b. rk_a R = Some a \<and> rk_b R = Some b
             \<and> (\<forall>i j. sa_m Y' i j = beta * sa_m Y i j + alpha *
                  (\<Sum>l<rank R. cnj (sa_m b i l) * (\<Sum>p< sa_rows a. cnj (sa_m a p l) * sa_m X p j)))))"
proof (cases "rank R = 0")
  case True
  with inv have empty: "rk_a R = None" "rk_b R = None"
    by (auto simp: rk_inv_def rank_def split: option.splits)
  then have d0: "op_dense tr R i p = 0" for i p
    by (simp add: op_dense_def dense_def)
  show ?thesis
  proof (cases "beta = 1")
    case True
    with \<open>rank R = 0\<close> d0 show ?thesis
      by (simp add: gemv_def)
  next
    case False
    with \<open>rank R = 0\<close> d0 show ?thesis
      by (simp add: gemv_def sa_scale_def)
  qed
next
  case False
  with inv obtain a b where ab: "rk_a R = Some a" "rk_b R = Some b" "sa_cols a = rank R"
    "sa_cols b = rank R" "sa_rows a = is_size (rk_rows R)" "sa_rows b = is_size (rk_cols R)"
    by (rule rk_inv_panels)
  from gemv_panels [OF ab(1,2) False tr, of alpha X beta Y]
  obtain Y' where y: "gemv tr alpha X beta Y R = Inr (R, Y')"
    "sa_rows Y' = sa_rows Y" "sa_cols Y' = sa_cols Y"
    "\<forall>i j. sa_m Y' i j = beta * sa_m Y i j + alpha *
          (if tr = CHR ''N'' then (\<Sum>l< sa_cols a. sa_m a i l * (\<Sum>p< sa_rows b. sa_m b p l * sa_m X p j))
           else if tr = CHR ''T'' then (\<Sum>l< sa_cols b. sa_m b i l * (\<Sum>p< sa_rows a. sa_m a p l * sa_m X p j))
           else (\<Sum>l< sa_cols b. cnj (sa_m b i l) * (\<Sum>p< sa_rows a. cnj (sa_m a p l) * sa_m X p j)))"
    by (elim exE conjE) (rule that, assumption+)
  have main: "sa_m Y' i j
      = beta * sa_m Y i j + alpha * (\<Sum>p< sa_rows X. op_dense tr R i p * sa_m X p j)" for i j
  proof -
    consider "tr = CHR ''N''" | "tr = CHR ''T''" | "tr = CHR ''C''"
      using tr by blast
    then show ?thesis
    proof cases
      case 1
      have "(\<Sum>l<rank R. sa_m a i l * (\<Sum>p< sa_rows X. sa_m b p l * sa_m X p j))
          = (\<Sum>p< sa_rows X. (\<Sum>l<rank R. sa_m a i l * sa_m b p l) * sa_m X p j)"
        by (rule sum_assoc_swap)
      with y(4) 1 ab x show ?thesis
        by (simp add: op_dense_def dense_def)
    next
      case 2
      have "(\<Sum>l<rank R. sa_m b i l * (\<Sum>p< sa_rows X. sa_m a p l * sa_m X p j))
          = (\<Sum>p< sa_rows X. (\<Sum>l<rank R. sa_m b i l * sa_m a p l) * sa_m X p j)"
        by (rule sum_assoc_swap)
      also have "\<dots> = (\<Sum>p< sa_rows X. (\<Sum>l<rank R. sa_m a p l * sa_m b i l) * sa_m X p j)"
        by (simp add: mult.commute)
      finally show ?thesis
        using y(4) 2 ab x by (simp add: op_dense_def dense_def)
    next
      case 3
      have "(\<Sum>l<rank R. cnj (sa_m b i l) * (\<Sum>p< sa_rows X. cnj (sa_m a p l) * sa_m X p j))
          = (\<Sum>p< sa_rows X. (\<Sum>l<rank R. cnj (sa_m b i l) * cnj (sa_m a p l)) * sa_m X p j)"
        by (rule sum_assoc_swap)
      also have "\<dots> = (\<Sum>p< sa_rows X. cnj (\<Sum>l<rank R. sa_m a p l * sa_m b i l) * sa_m X p j)"
        by (simp add: cnj_sum mult.commute)
      finally show ?thesis
        using y(4) 3 ab x by (simp add: op_dense_def dense_def)
    qed
  qed
  have main_all: "\<forall>i j. sa_m Y' i j
      = beta * sa_m Y i j + alpha * (\<Sum>p< sa_rows X. op_dense tr R i p * sa_m X p j)"
    using main by blast
  have conj_form: "\<forall>i j. sa_m Y' i j = beta * sa_m Y i j + alpha *
      (\<Sum>l<rank R. cnj (sa_m b i l) * (\<Sum>p< sa_rows a. cnj (sa_m a p l) * sa_m X p j))"
    if "tr = CHR ''C''"
    using y(4) ab that by simp
  have c: "rank R \<noteq> 0 \<and> tr = CHR ''C'' \<longrightarrow>
          (\<exists>a b. rk_a R = Some a \<and> rk_b R = Some b
             \<and> (\<forall>i j. sa_m Y' i j = beta * sa_m Y i j + alpha *
                  (\<Sum>l<rank R. cnj (sa_m b i l) * (\<Sum>p< sa_rows a. cnj (sa_m a p l) * sa_m X p j))))"
    using ab(1,2) conj_form by blast
  have e: "rank R = 0 \<longrightarrow> Y' = (if beta = 1 then Y else sa_scale beta Y)"
    using False by simp
  from y(1,2,3) main_all e c show ?thesis
    by (intro exI [of _ Y'] conjI) assumption+
qed


theorem gemv_spec_witness:
  "(\<exists>Y'. gemv (CHR ''C'') 1 (panel1 5) 0 (panel1 1) (rk1 \<i> 3 1) = Inr (rk1 \<i> 3 1, Y')
        \<and> sa_m Y' 0 0 = - (15 * \<i>))
   \<and> (\<exists>Y'. gemv (CHR ''N'') 1 (panel1 5) 2 (panel1 1) (rk_empty 1) = Inr (rk_empty 1, Y')
        \<and> Y' = sa_scale 2 (panel1 1))"
proof -
  have t1: "CHR ''C'' = CHR ''N'' \<or> CHR ''C'' = CHR ''T'' \<or> CHR ''C'' = CHR ''C''"
    and t2: "CHR ''N'' = CHR ''N'' \<or> CHR ''N'' = CHR ''T'' \<or> CHR ''N'' = CHR ''C''"
    by simp_all
  have x1: "sa_rows (panel1 5)
      = is_size (if CHR ''C'' = CHR ''N'' then rk_cols (rk1 \<i> 3 1) else rk_rows (rk1 \<i> 3 1))"
    by (simp add: panel1_fields rk1_fields)
  have x2: "sa_rows (panel1 5)
      = is_size (if CHR ''N'' = CHR ''N'' then rk_cols (rk_empty 1) else rk_rows (rk_empty 1))"
    by (simp add: panel1_fields rk_empty_fields rk1_fields)
  from gemv_spec [OF rk1_inv(1) t1 x1, of 1 0 "panel1 1"]
  obtain Y1 where y1: "gemv (CHR ''C'') 1 (panel1 5) 0 (panel1 1) (rk1 \<i> 3 1) = Inr (rk1 \<i> 3 1, Y1)"
    "\<forall>i j. sa_m Y1 i j = 0 * sa_m (panel1 1) i j
        + 1 * (\<Sum>p< sa_rows (panel1 5). op_dense (CHR ''C'') (rk1 \<i> 3 1) i p * sa_m (panel1 5) p j)"
    by (elim exE conjE) (rule that, assumption+)
  from y1(2) have v1: "sa_m Y1 0 0 = - (15 * \<i>)"
    by (simp add: panel1_fields op_dense_def dense_rk1)
  from gemv_spec [OF rk_empty_inv(1) t2 x2, of 1 2 "panel1 1"]
  obtain Y2 where y2: "gemv (CHR ''N'') 1 (panel1 5) 2 (panel1 1) (rk_empty 1) = Inr (rk_empty 1, Y2)"
    "rank (rk_empty 1) = 0 \<longrightarrow> Y2 = (if (2::scalar) = 1 then panel1 1 else sa_scale 2 (panel1 1))"
    by (elim exE conjE) (rule that, assumption+)
  from y2(2) have v2: "Y2 = sa_scale 2 (panel1 1)"
    by (simp add: rk_empty_inv)
  from y1(1) v1 y2(1) v2 show ?thesis
    by blast
qed


section \<open>The method tag of the mixed products\<close>

lemma new_RkMatrix_method: "new_RkMatrix pa rows pb cols meth = Inr R \<Longrightarrow> rk_method R = meth"
  by (auto simp: new_RkMatrix_def err_simps Let_def split: if_splits option.splits)

lemma multiplyRkFull_method:
  "multiplyRkFull NoCompression transR transM rk m = Inr R
   \<Longrightarrow> rk_method R = (if rank rk = 0 then NoCompression else rk_method rk)"
  by (auto simp: multiplyRkFull_def err_simps Let_def dest!: new_RkMatrix_method
      split: if_splits option.splits)

lemma multiplyFullRk_method:
  "multiplyFullRk transM transR m rk = Inr R \<Longrightarrow> rk_method R = rk_method rk"
  by (auto simp: multiplyFullRk_def err_simps Let_def dest!: new_RkMatrix_method
      split: if_splits option.splits)

lemma multiplyRkH_method:
  "multiplyRkH transR transH rk h = Inr R \<Longrightarrow> rk_method R = rk_method rk"
  by (auto simp: multiplyRkH_def err_simps Let_def dest!: new_RkMatrix_method
      split: if_splits option.splits)

lemma multiplyHRk_method:
  "multiplyHRk transH transR h rk = Inr R \<Longrightarrow> rk_method R = rk_method rk"
  by (auto simp: multiplyHRk_def err_simps Let_def dest!: new_RkMatrix_method
      split: if_splits option.splits)

text \<open>
  On an operand of rank 0 whose sizes pass the assertion, \<^verbatim>\<open>multiplyRkFull\<close> returns the
  empty block tagged \<^verbatim>\<open>NoCompression\<close>, and \<^verbatim>\<open>multiplyHRk\<close> the empty block with the
  method of the operand.
\<close>

lemma multiplyRkFull_rank0:
  assumes "rank rk = 0"
    and "(if transR = CHR ''N'' then is_size (rk_cols rk) else is_size (rk_rows rk))
         = (if transM = CHR ''N'' then sa_rows (fm_data m) else sa_cols (fm_data m))"
  shows "multiplyRkFull NoCompression transR transM rk m
       = Inr \<lparr>rk_rows = (if transR = CHR ''N'' then rk_rows rk else rk_cols rk),
              rk_cols = (if transM = CHR ''N'' then fm_cols m else fm_rows m),
              rk_a = None, rk_b = None, rk_method = NoCompression\<rparr>"
  using assms by (simp add: multiplyRkFull_def err_simps new_RkMatrix_def Let_def)

lemma multiplyHRk_rank0:
  assumes "rank rk = 0"
  shows "multiplyHRk transH transR h rk
       = Inr \<lparr>rk_rows = (if transH = CHR ''N'' then hm_rows h else hm_cols h),
              rk_cols = (if transR = CHR ''N'' then rk_cols rk else rk_rows rk),
              rk_a = None, rk_b = None, rk_method = rk_method rk\<rparr>"
  using assms by (simp add: multiplyHRk_def err_simps new_RkMatrix_def Let_def)

lemma multiplyRkFull_run:
  "multiplyRkFull 4 (CHR ''N'') (CHR ''N'') (rk1 2 3 1) (full1 5)
     = Inr \<lparr>rk_rows = idx1, rk_cols = idx1, rk_a = Some (sa_copy (panel1 2)),
         rk_b = Some (gemm (CHR ''T'') (CHR ''N'') 1 (panel1 5) (panel1 3) 0 (new_ScalarArray 1 1)),
         rk_method = 1\<rparr>"
  by (simp add: multiplyRkFull_def err_simps rk1_def full1_def panel1_def idx1_def rank_def
      new_RkMatrix_def sa_copy_def gemm_def new_ScalarArray_def Let_def)

text \<open>
  Claim C8. The claim holds of three of the four products and of \<^verbatim>\<open>multiplyRkFull\<close> on
  operands of nonzero rank, and fails on the code for an operand of rank 0: with
  \<^verbatim>\<open>NoCompression\<close> the enumerator of value 4 and an empty Rk operand whose method has
  the value 1, \<^verbatim>\<open>multiplyRkFull\<close> returns an empty block whose method is
  \<^verbatim>\<open>NoCompression\<close>, not the method of the operand, where \<^verbatim>\<open>multiplyHRk\<close> returns the
  empty block with the method of the operand; \<^verbatim>\<open>multiplyFullRk\<close> and \<^verbatim>\<open>multiplyRkH\<close>,
  which do not test the rank, read through the null panels of the operand. On the
  operand of rank 1 with the same method \<^verbatim>\<open>multiplyRkFull\<close> keeps the method.
\<close>

theorem mixed_product_method_failing_input:
  "multiplyRkFull 4 (CHR ''N'') (CHR ''N'') (rk_empty 1) (full1 5) = Inr (rk_empty 4)
   \<and> rk_method (rk_empty 4) \<noteq> rk_method (rk_empty 1)
   \<and> multiplyHRk (CHR ''N'') (CHR ''N'') h_sample (rk_empty 1) = Inr (rk_empty 1)
   \<and> multiplyFullRk (CHR ''N'') (CHR ''N'') (full1 5) (rk_empty 1) = Inl NullDeref
   \<and> multiplyRkH (CHR ''N'') (CHR ''N'') (rk_empty 1) h_sample = Inl NullDeref
   \<and> multiplyRkFull 4 (CHR ''N'') (CHR ''N'') (rk1 2 3 1) (full1 5)
       = Inr \<lparr>rk_rows = idx1, rk_cols = idx1, rk_a = Some (sa_copy (panel1 2)),
           rk_b = Some (gemm (CHR ''T'') (CHR ''N'') 1 (panel1 5) (panel1 3) 0
                          (new_ScalarArray 1 1)),
           rk_method = 1\<rparr>"
proof -
  have a: "multiplyRkFull 4 (CHR ''N'') (CHR ''N'') (rk_empty 1) (full1 5) = Inr (rk_empty 4)"
    by (simp add: multiplyRkFull_def err_simps rk_empty_def full1_def panel1_def idx1_def
        rank_def new_RkMatrix_def)
  have b: "rk_method (rk_empty 4) \<noteq> rk_method (rk_empty 1)"
    by (simp add: rk_empty_def)
  have c: "multiplyHRk (CHR ''N'') (CHR ''N'') h_sample (rk_empty 1) = Inr (rk_empty 1)"
    by (simp add: multiplyHRk_def err_simps rk_empty_def h_sample_def idx1_def rank_def
        new_RkMatrix_def Let_def)
  have d: "multiplyFullRk (CHR ''N'') (CHR ''N'') (full1 5) (rk_empty 1) = Inl NullDeref"
    by (simp add: multiplyFullRk_def err_simps rk_empty_def Let_def)
  have e: "multiplyRkH (CHR ''N'') (CHR ''N'') (rk_empty 1) h_sample = Inl NullDeref"
    by (simp add: multiplyRkH_def err_simps rk_empty_def h_sample_def Let_def)
  from a b c d e multiplyRkFull_run show ?thesis
    by (intro conjI)
qed

section \<open>Properties of \<^verbatim>\<open>insertChild\<close>\<close>

lemma length_resize: "length (resize n v xs) = n"
  by (simp add: resize_def)

lemma size_t_nonneg:
  assumes "0 \<le> sint i"
  shows "size_t_of_int i = nat (sint i)" "size_t_of_int i < 2 ^ 31"
proof -
  show "size_t_of_int i = nat (sint i)"
    using assms by (simp add: size_t_of_int_def)
  have "sint i < 2 ^ 31"
    using sint_lt [of i] by simp
  then show "size_t_of_int i < 2 ^ 31"
    using assms by (simp add: size_t_of_int_def nat_less_iff)
qed

lemma sint_succ:
  assumes "0 \<le> sint (i :: 32 word)" "sint i < 2 ^ 31 - 1"
  shows "sint (i + 1) = sint i + 1"
proof -
  have "sint (i + 1) = signed_take_bit 31 (sint i + 1)"
    by (simp add: sint_word_add)
  also have "\<dots> = sint i + 1"
    using assms by (intro signed_take_bit_int_eq_self) simp_all
  finally show ?thesis .
qed


lemma sint_int_of_size_t:
  assumes "n < 2 ^ 31"
  shows "sint (int_of_size_t n) = int n"
proof -
  have "int_of_size_t n = word_of_int (int n)"
    by (simp only: int_of_size_t_def of_int_of_nat_eq)
  then have "sint (int_of_size_t n) = signed_take_bit (LENGTH(32) - 1) (int n)"
    by (simp only: sint_sbintrunc')
  also have "\<dots> = signed_take_bit 31 (int n)"
    by simp
  also have "\<dots> = int n"
  proof (rule signed_take_bit_int_eq_self)
    show "- (2 ^ 31) \<le> int n"
      by (rule order_trans [of _ 0]) simp_all
    from assms have "int n < int (2 ^ 31)"
      by (simp only: of_nat_less_iff)
    then show "int n < 2 ^ 31"
      by simp
  qed
  finally show ?thesis .
qed

text \<open>
  Claim C10, as amended. For allocated nodes \<open>t\<close> and \<open>c\<close> that are not the same node, an
  index \<open>i\<close> with \<open>0 \<le> i < INT_MAX\<close> and fewer than \<open>2\<^sup>3\<^sup>1\<close> child slots in \<open>t\<close>,
  \<^verbatim>\<open>t.insertChild(i, c)\<close> returns normally and afterwards \<^verbatim>\<open>getChild(i)\<close> returns \<open>c\<close>,
  the father of \<open>c\<close> is \<open>t\<close>, the depth of \<open>c\<close> is the depth of \<open>t\<close> plus 1 in the
  arithmetic of \<^verbatim>\<open>int\<close> (the number one above when the depth of \<open>t\<close> is not \<^verbatim>\<open>INT_MAX\<close>),
  and \<^verbatim>\<open>nbChild()\<close> is at least \<open>i + 1\<close>: the vector of children is the old one, grown
  with null entries up to the length \<open>i + 1\<close> when it was shorter, with entry \<open>i\<close> set to
  \<open>c\<close>, and it still has fewer than \<open>2\<^sup>3\<^sup>1\<close> slots. Nothing else of \<open>t\<close> changes, every
  node other than \<open>t\<close> and \<open>c\<close> is as before, and every node allocated before is still
  allocated: a child that was stored at index \<open>i\<close> is not deleted.
\<close>

theorem insertChild_spec:
  assumes t: "h t = Some T" and c: "h c = Some C" and ne: "c \<noteq> t"
    and i: "0 \<le> sint i" and imax: "sint i < 2 ^ 31 - 1"
    and len: "length (children T) < 2 ^ 31"
  shows "\<exists>h' T' C'. insertChild t i (Some c) h = Inr h'
     \<and> h' t = Some T' \<and> h' c = Some C'
     \<and> getChild t i h' = Inr (Some c)
     \<and> father C' = Some t
     \<and> depth C' = depth T' + 1
     \<and> (sint (depth T') < 2 ^ 31 - 1 \<longrightarrow> sint (depth C') = sint (depth T') + 1)
     \<and> (\<exists>n. nbChild t h' = Inr n \<and> sint (i + 1) \<le> sint n)
     \<and> T' = T\<lparr>children := (if length (children T) \<le> nat (sint i)
                             then resize (nat (sint i) + 1) None (children T)
                             else children T)[nat (sint i) := Some c]\<rparr>
     \<and> length (children T') < 2 ^ 31
     \<and> (\<forall>p. p \<noteq> t \<and> p \<noteq> c \<longrightarrow> h' p = h p)
     \<and> (\<forall>p. h p \<noteq> None \<longrightarrow> h' p \<noteq> None)"
proof -
  let ?k = "nat (sint i)"
  let ?cs = "(if length (children T) \<le> ?k then resize (?k + 1) None (children T)
              else children T)"
  let ?T' = "T\<lparr>children := ?cs[?k := Some c]\<rparr>"
  let ?C' = "C\<lparr>father := Some t, depth := depth T + 1\<rparr>"
  let ?h' = "h(t \<mapsto> ?T', c \<mapsto> ?C')"
  have k: "size_t_of_int i = ?k" and kb: "?k < 2 ^ 31"
    using size_t_nonneg [OF i] by simp_all
  have s1: "sint (i + 1) = sint i + 1"
    by (rule sint_succ [OF i imax])
  then have k1: "size_t_of_int (i + 1) = ?k + 1"
    using i by (simp add: size_t_of_int_def nat_add_distrib)
  have ms: "\<not> max_size < Suc ?k"
    using kb by (simp add: max_size_def)
  have lcs: "?k < length ?cs"
    by (simp add: length_resize)
  have lcs2: "length ?cs < 2 ^ 31"
    using len imax i by (simp add: length_resize nat_less_iff)
  have run: "insertChild t i (Some c) h = Inr ?h'"
    using t c ne lcs
    by (auto simp: insertChild_def read_node_def err_simps k k1 vector_resize_def ms
        length_resize fun_upd_twist)
  have r1: "?h' t = Some ?T'" "?h' c = Some ?C'"
    using ne by simp_all
  have r2: "getChild t i ?h' = Inr (Some c)"
    using ne lcs by (simp add: getChild_def read_node_def err_simps k)
  have r3: "father ?C' = Some t" "depth ?C' = depth ?T' + 1"
    by simp_all
  have r4: "sint (depth ?T') < 2 ^ 31 - 1 \<longrightarrow> sint (depth ?C') = sint (depth ?T') + 1"
  proof
    assume "sint (depth ?T') < 2 ^ 31 - 1"
    then have b: "sint (depth T) < 2 ^ 31 - 1" by simp
    have "sint (depth T + 1) = signed_take_bit 31 (sint (depth T) + 1)"
      by (simp add: sint_word_add)
    also have "\<dots> = sint (depth T) + 1"
      using b sint_ge [of "depth T"] by (intro signed_take_bit_int_eq_self) simp_all
    finally show "sint (depth ?C') = sint (depth ?T') + 1"
      by simp
  qed
  have r5: "\<exists>n. nbChild t ?h' = Inr n \<and> sint (i + 1) \<le> sint n"
  proof -
    have "nbChild t ?h' = Inr (int_of_size_t (length ?cs))"
      using ne by (simp add: nbChild_def read_node_def err_simps)
    moreover have "sint (int_of_size_t (length ?cs)) = int (length ?cs)"
      by (rule sint_int_of_size_t [OF lcs2])
    moreover have "sint i + 1 \<le> int (length ?cs)"
      using lcs i by linarith
    ultimately show ?thesis
      using s1 by simp
  qed
  have r6: "?T' = T\<lparr>children := ?cs[?k := Some c]\<rparr>"
    by simp
  have r7: "length (children ?T') < 2 ^ 31"
    using lcs2 by simp
  have r8: "\<forall>p. p \<noteq> t \<and> p \<noteq> c \<longrightarrow> ?h' p = h p"
    by simp
  have r9: "\<forall>p. h p \<noteq> None \<longrightarrow> ?h' p \<noteq> None"
    by simp
  from run r1 r2 r3 r4 r5 r6 r7 r8 r9
  have all: "insertChild t i (Some c) h = Inr ?h'
     \<and> ?h' t = Some ?T' \<and> ?h' c = Some ?C'
     \<and> getChild t i ?h' = Inr (Some c)
     \<and> father ?C' = Some t
     \<and> depth ?C' = depth ?T' + 1
     \<and> (sint (depth ?T') < 2 ^ 31 - 1 \<longrightarrow> sint (depth ?C') = sint (depth ?T') + 1)
     \<and> (\<exists>n. nbChild t ?h' = Inr n \<and> sint (i + 1) \<le> sint n)
     \<and> ?T' = T\<lparr>children := ?cs[?k := Some c]\<rparr>
     \<and> length (children ?T') < 2 ^ 31
     \<and> (\<forall>p. p \<noteq> t \<and> p \<noteq> c \<longrightarrow> ?h' p = h p)
     \<and> (\<forall>p. h p \<noteq> None \<longrightarrow> ?h' p \<noteq> None)"
    by (intro conjI) assumption+
  show ?thesis
    by (rule exI [of _ ?h'], rule exI [of _ ?T'], rule exI [of _ ?C']) (rule all)
qed


theorem insertChild_spec_witness:
  "\<exists>h'. insertChild 0 0 (Some 1) heap_three = Inr h'
     \<and> getChild 0 0 h' = Inr (Some 1)
     \<and> map_option father (h' 1) = Some (Some 0)
     \<and> node_depth_int h' 1 = Some 1 \<and> node_depth_int h' 0 = Some 0
     \<and> nbChild 0 h' = Inr 1
     \<and> h' 2 = heap_three 2 \<and> h' 2 \<noteq> None"
proof -
  let ?T = "\<lparr>depth = 0, children = [Some 2], father = None\<rparr>"
  have t: "heap_three 0 = Some ?T"
    and c: "heap_three 1 = Some \<lparr>depth = 7, children = [], father = None\<rparr>"
    and o: "heap_three 2 \<noteq> None"
    by (simp_all add: heap_three_def)
  have ne: "(1::nat) \<noteq> 0"
    by simp
  have i: "0 \<le> sint (0 :: 32 word)" "sint (0 :: 32 word) < 2 ^ 31 - 1"
    by simp_all
  have len: "length (children ?T) < 2 ^ 31"
    by simp
  from insertChild_spec [OF t c ne i len]
  obtain h' T' C' where r: "insertChild 0 0 (Some 1) heap_three = Inr h'"
    "h' 0 = Some T'" "h' 1 = Some C'" "getChild 0 0 h' = Inr (Some 1)"
    "father C' = Some 0"
    "depth C' = depth T' + 1"
    "T' = ?T\<lparr>children := (if length (children ?T) \<le> nat (sint (0 :: 32 word))
                             then resize (nat (sint (0 :: 32 word)) + 1) None (children ?T)
                             else children ?T)[nat (sint (0 :: 32 word)) := Some 1]\<rparr>"
    "\<forall>p. p \<noteq> 0 \<and> p \<noteq> 1 \<longrightarrow> h' p = heap_three p"
    "\<forall>p. heap_three p \<noteq> None \<longrightarrow> h' p \<noteq> None"
    by (elim exE conjE) (rule that, assumption+)
  from r(7) have T': "T' = \<lparr>depth = 0, children = [Some 1], father = None\<rparr>"
    by simp
  with r(6) have dC: "depth C' = 1"
    by simp
  from r(2) T' have n: "nbChild 0 h' = Inr 1"
    by (simp add: nbChild_def read_node_def err_simps int_of_size_t_def)
  from r(8) have f: "h' 2 = heap_three 2"
    by simp
  from r(9) o have a: "h' 2 \<noteq> None"
    by blast
  from r(3) r(5) have fa: "map_option father (h' 1) = Some (Some 0)"
    by simp
  from r(3) dC have d1: "node_depth_int h' 1 = Some 1"
    by (simp add: node_depth_int_def)
  from r(2) T' have d0: "node_depth_int h' 0 = Some 0"
    by (simp add: node_depth_int_def)
  from r(1) r(4) fa d1 d0 n f a show ?thesis
    by (intro exI conjI) assumption+
qed

lemma length_wide: "length wide_children = 2147483648" "wide_children \<noteq> []"
  by (simp_all add: wide_children_def)

text \<open>
  The claim as stated fails in four ways. When \<open>c\<close> is \<open>t\<close> itself: after
  \<^verbatim>\<open>t.insertChild(0, t)\<close> on a root of depth 0 the one node has depth 1, which is not its
  own depth plus one. When the depth of \<open>t\<close> is \<^verbatim>\<open>INT_MAX\<close>: the depth of \<open>c\<close> becomes
  \<^verbatim>\<open>INT_MIN\<close>. When \<open>i\<close> is \<^verbatim>\<open>INT_MAX\<close>: \<open>i + 1\<close> is negative, and \<^verbatim>\<open>resize\<close> throws. When
  \<open>t\<close> has \<open>2\<^sup>3\<^sup>1\<close> child slots: \<^verbatim>\<open>nbChild()\<close> is \<^verbatim>\<open>INT_MIN\<close>, which is below \<open>i + 1 = 1\<close>.
\<close>

theorem insertChild_spec_counterexample:
  "insertChild 0 0 (Some 0) heap_self
     = Inr (Map.empty(0 \<mapsto> \<lparr>depth = 1, children = [Some 0], father = Some 0\<rparr>))
   \<and> node_depth_int (Map.empty(0 \<mapsto> \<lparr>depth = 1, children = [Some 0], father = Some 0\<rparr>)) 0
       = Some 1
   \<and> insertChild 0 0 (Some 1) heap_deep
     = Inr (Map.empty(
         0 \<mapsto> \<lparr>depth = 2147483647, children = [Some 1], father = None\<rparr>,
         1 \<mapsto> \<lparr>depth = 2147483648, children = [], father = Some 0\<rparr>))
   \<and> node_depth_int (Map.empty(
         0 \<mapsto> \<lparr>depth = 2147483647, children = [Some 1], father = None\<rparr>,
         1 \<mapsto> \<lparr>depth = 2147483648, children = [], father = Some 0\<rparr>)) 0 = Some 2147483647
   \<and> node_depth_int (Map.empty(
         0 \<mapsto> \<lparr>depth = 2147483647, children = [Some 1], father = None\<rparr>,
         1 \<mapsto> \<lparr>depth = 2147483648, children = [], father = Some 0\<rparr>)) 1 = Some (- 2147483648)
   \<and> insertChild 0 2147483647 (Some 1) heap_three = Inl LengthError
   \<and> insertChild 0 0 (Some 1) heap_wide
     = Inr (Map.empty(
         0 \<mapsto> \<lparr>depth = 0, children = wide_children[0 := Some 1], father = None\<rparr>,
         1 \<mapsto> \<lparr>depth = 1, children = [], father = Some 0\<rparr>))
   \<and> nbChild 0 (Map.empty(
         0 \<mapsto> \<lparr>depth = 0, children = wide_children[0 := Some 1], father = None\<rparr>,
         1 \<mapsto> \<lparr>depth = 1, children = [], father = Some 0\<rparr>)) = Inr (- 2147483648)"
proof -
  have a: "insertChild 0 0 (Some 0) heap_self
     = Inr (Map.empty(0 \<mapsto> \<lparr>depth = 1, children = [Some 0], father = Some 0\<rparr>))"
    by (simp add: insertChild_def heap_self_def read_node_def err_simps resize_def
        size_t_of_int_def vector_resize_def max_size_def)
  have b: "node_depth_int (Map.empty(0 \<mapsto> \<lparr>depth = 1, children = [Some 0], father = Some 0\<rparr>)) 0
       = Some 1"
    by (simp add: node_depth_int_def)
  have c: "insertChild 0 0 (Some 1) heap_deep
     = Inr (Map.empty(
         0 \<mapsto> \<lparr>depth = 2147483647, children = [Some 1], father = None\<rparr>,
         1 \<mapsto> \<lparr>depth = 2147483648, children = [], father = Some 0\<rparr>))"
    by (simp add: insertChild_def heap_deep_def read_node_def err_simps resize_def
        size_t_of_int_def vector_resize_def max_size_def fun_upd_twist)
  have d: "node_depth_int (Map.empty(
         0 \<mapsto> \<lparr>depth = 2147483647, children = [Some 1], father = None\<rparr>,
         1 \<mapsto> \<lparr>depth = 2147483648, children = [], father = Some 0\<rparr>)) 0 = Some 2147483647"
    "node_depth_int (Map.empty(
         0 \<mapsto> \<lparr>depth = 2147483647, children = [Some 1], father = None\<rparr>,
         1 \<mapsto> \<lparr>depth = 2147483648, children = [], father = Some 0\<rparr>)) 1 = Some (- 2147483648)"
    by (simp_all add: node_depth_int_def)
  have e: "insertChild 0 2147483647 (Some 1) heap_three = Inl LengthError"
    by (simp add: insertChild_def heap_three_def read_node_def err_simps
        size_t_of_int_def vector_resize_def max_size_def)
  have f: "insertChild 0 0 (Some 1) heap_wide
     = Inr (Map.empty(
         0 \<mapsto> \<lparr>depth = 0, children = wide_children[0 := Some 1], father = None\<rparr>,
         1 \<mapsto> \<lparr>depth = 1, children = [], father = Some 0\<rparr>))"
    by (simp add: insertChild_def heap_wide_def read_node_def err_simps length_wide
        size_t_of_int_def fun_upd_twist)
  have g: "nbChild 0 (Map.empty(
         0 \<mapsto> \<lparr>depth = 0, children = wide_children[0 := Some 1], father = None\<rparr>,
         1 \<mapsto> \<lparr>depth = 1, children = [], father = Some 0\<rparr>)) = Inr (- 2147483648)"
    by (simp add: nbChild_def read_node_def err_simps length_wide int_of_size_t_def)
  from a b c d e f g show ?thesis
    by (intro conjI)
qed


section \<open>Properties of \<^verbatim>\<open>truncate\<close> and \<^verbatim>\<open>mGSTruncate\<close>\<close>

lemma rk_wide_facts: "rank rk_wide = 2" "is_size (rk_rows rk_wide) = 2" "is_size (rk_cols rk_wide) = 1"
  "eval rk_wide = Inr tmp_wide" "pivots_ok env_default 0 0 rk_wide"
  by (simp_all add: rk_wide_def rank_def const_array_def idx2_def idx1_def eval_def evalArray_def
      err_simps tmp_wide_def new_FullMatrix_def pivots_ok_def effective_pivot_def env_default_def)

lemma tsvd_sample_wide:
  "truncatedSvd kern_sample tmp_wide (1 / 2)
     = \<lparr>rk_rows = idx2, rk_cols = idx1, rk_a = Some (fm_data tmp_wide),
        rk_b = Some (identity_array 1), rk_method = 0\<rparr>"
  "truncatedSvd kern_sample tmp_wide 1
     = \<lparr>rk_rows = idx2, rk_cols = idx1, rk_a = None, rk_b = None, rk_method = 0\<rparr>"
  by (simp_all add: kern_sample_def tmp_wide_def gemm_def new_ScalarArray_def)

lemma rk_wide_fields: "rk_rows rk_wide = idx2" "rk_cols rk_wide = idx1"
  "rk_a rk_wide = Some (const_array 2 2 1)" "rk_b rk_wide = Some (const_array 1 2 1)"
  "rk_method rk_wide = 1" "panels_ledger rk_wide = [''a'', ''b'']"
  by (simp_all add: rk_wide_def panels_ledger_def)

lemma truncate_wide_run:
  "truncate_rk kern_sample env_default ctl_default (1 / 2) 0 0 rk_wide
     = Inr (swapped_in rk_wide (truncatedSvd kern_sample tmp_wide (1 / 2)), [''rk->b'', ''rk->a''])"
  by (simp add: truncate_rk_def rk_wide_facts rk_wide_fields err_simps env_default_def Let_def
      tsvd_sample_wide swap_def new_obj_def delete_obj_def swapped_in_def idx2_def idx1_def)

lemma tmp_wide_cols: "sa_cols (fm_data tmp_wide) = 1"
  by (simp add: tmp_wide_def gemm_def new_ScalarArray_def)

text \<open>
  Claim C4, as amended. On the path of \<^verbatim>\<open>truncate(eps, p_A, p_B)\<close> taken when the rank is
  larger than \<open>min(m, n)\<close>, the dense value \<open>tmp\<close> of the block is recompressed by
  \<^verbatim>\<open>truncatedSvd\<close> at the tolerance \<open>eps\<close> given to \<^verbatim>\<open>truncate\<close>, whatever the global
  tolerance in \<open>approx\<close> is, and the panels and the method of the result are swapped into
  the block.
\<close>

theorem truncate_fallback_epsilon:
  assumes ne: "rank this \<noteq> 0" and big: "min (is_size (rk_rows this)) (is_size (rk_cols this)) < rank this"
    and rows: "rank this \<le> is_size (rk_rows this)"
    and piv: "pivots_ok env pA pB this"
    and ev: "eval this = Inr tmp"
    and same: "rk_rows (truncatedSvd kern tmp eps) = rk_rows this"
      "rk_cols (truncatedSvd kern tmp eps) = rk_cols this"
  shows "\<exists>led. truncate_rk kern env approx eps pA pB this
           = Inr (swapped_in this (truncatedSvd kern tmp eps), led)"
  using assms
  by (auto simp: truncate_rk_def pivots_ok_def effective_pivot_def err_simps swap_def Let_def
      swapped_in_def)

theorem truncate_fallback_epsilon_witness:
  "\<exists>led. truncate_rk kern_sample env_default ctl_default (1 / 2) 0 0 rk_wide
           = Inr (swapped_in rk_wide (truncatedSvd kern_sample tmp_wide (1 / 2)), led)"
proof -
  have ne: "rank rk_wide \<noteq> 0"
    and big: "min (is_size (rk_rows rk_wide)) (is_size (rk_cols rk_wide)) < rank rk_wide"
    and rows: "rank rk_wide \<le> is_size (rk_rows rk_wide)"
    by (simp_all add: rk_wide_facts)
  have same: "rk_rows (truncatedSvd kern_sample tmp_wide (1 / 2)) = rk_rows rk_wide"
    "rk_cols (truncatedSvd kern_sample tmp_wide (1 / 2)) = rk_cols rk_wide"
    by (simp_all add: tsvd_sample_wide rk_wide_def)
  show ?thesis
    by (rule truncate_fallback_epsilon [OF ne big rows rk_wide_facts(5) rk_wide_facts(4) same])
qed

text \<open>
  The claim as stated fails: with the global tolerance 1 and \<open>eps = 1/2\<close>, for a
  compression that keeps the block at \<open>1/2\<close> and drops it at 1, \<^verbatim>\<open>truncate\<close> returns the
  block compressed at \<open>1/2\<close>, of rank 1, not the empty one that the global tolerance
  gives.
\<close>

theorem truncate_fallback_epsilon_counterexample:
  "eval rk_wide = Inr tmp_wide
   \<and> truncate_rk kern_sample env_default ctl_default (1 / 2) 0 0 rk_wide
       = Inr (swapped_in rk_wide (truncatedSvd kern_sample tmp_wide (1 / 2)), [''rk->b'', ''rk->a''])
   \<and> rank (swapped_in rk_wide (truncatedSvd kern_sample tmp_wide (1 / 2))) = 1
   \<and> recompressionEpsilon ctl_default = 1
   \<and> rank (swapped_in rk_wide (truncatedSvd kern_sample tmp_wide (recompressionEpsilon ctl_default))) = 0"
proof -
  have eps: "recompressionEpsilon ctl_default = 1"
    by (simp add: ctl_default_def)
  have r1: "rank (swapped_in rk_wide (truncatedSvd kern_sample tmp_wide (1 / 2))) = 1"
    by (simp add: tsvd_sample_wide swapped_in_def rank_def tmp_wide_cols)
  have r0: "rank (swapped_in rk_wide (truncatedSvd kern_sample tmp_wide 1)) = 0"
    by (simp add: tsvd_sample_wide swapped_in_def rank_def)
  from rk_wide_facts(4) truncate_wide_run r1 eps r0 show ?thesis
    by simp
qed

lemma truncate_zero:
  assumes ab: "rk_a this = Some a" "rk_b this = Some b"
    and ne: "rank this \<noteq> 0" and rows: "rank this \<le> is_size (rk_rows this)"
    and small: "\<not> min (is_size (rk_rows this)) (is_size (rk_cols this)) < rank this"
    and qr: "\<not> usedRecomp env"
    and piv: "pivots_ok env pA pB this"
    and zero: "findK env approx
        (truncate_sigma kern (effective_pivot env pA) (effective_pivot env pB) a b) eps = Inr 0"
  shows "truncate_rk kern env approx eps pA pB this = Inr (clear this, [])"
  using assms
  by (auto simp: truncate_rk_def truncate_qr_svd_def pivots_ok_def effective_pivot_def err_simps
      Let_def truncate_sigma_def clear_def panels_ledger_def new_obj_def delete_obj_def rank_def
      split: prod.splits)


lemma mGSTruncate_zero:
  assumes ab: "rk_a this = Some a" "rk_b this = Some b"
    and ne: "rank this \<noteq> 0"
    and zero: "mgs_yields_zero kern env approx eps pA pB a b"
  shows "mGSTruncate kern env approx eps pA pB this = Inr (clear this, [])"
proof (cases "mgs_rank kern eps pA a = 0")
  case True
  with ab ne show ?thesis
    by (auto simp: mGSTruncate_def mgs_rank_def err_simps Let_def clear_def panels_ledger_def
        new_obj_def delete_obj_def split: prod.splits)
next
  case False
  note kA = this
  show ?thesis
  proof (cases "mgs_rank kern eps pB b = 0")
    case True
    with ab ne kA show ?thesis
      by (auto simp: mGSTruncate_def mgs_rank_def err_simps Let_def clear_def panels_ledger_def
          new_obj_def delete_obj_def split: prod.splits)
  next
    case False
    with zero kA have "findK env approx (mgs_sigma kern eps pA pB a b) eps = Inr 0"
      by (simp add: mgs_yields_zero_def)
    with ab ne kA False show ?thesis
      by (auto simp: mGSTruncate_def mGSTruncate_svd_def mgs_rank_def mgs_sigma_def err_simps
          Let_def clear_def panels_ledger_def new_obj_def delete_obj_def rank_def
          split: prod.splits)
  qed
qed

lemma truncate_mgs_dispatch:
  assumes ne: "rank this \<noteq> 0" and rows: "rank this \<le> is_size (rk_rows this)"
    and small: "\<not> min (is_size (rk_rows this)) (is_size (rk_cols this)) < rank this"
    and mgs: "usedRecomp env"
    and piv: "pivots_ok env pA pB this"
  shows "truncate_rk kern env approx eps pA pB this
       = mGSTruncate kern env approx eps (effective_pivot env pA) (effective_pivot env pB) this"
  using assms
  by (auto simp: truncate_rk_def pivots_ok_def effective_pivot_def err_simps Let_def)

lemma clear_empty: "rk_a (clear this) = None" "rk_b (clear this) = None" "rank (clear this) = 0"
  "rk_inv (clear this)" "rk_rows (clear this) = rk_rows this" "rk_cols (clear this) = rk_cols this"
  "rk_method (clear this) = rk_method this"
  by (simp_all add: clear_def rank_def rk_inv_def)

text \<open>
  Claim C6. For a non-empty block: when \<^verbatim>\<open>findK\<close> yields 0 in \<^verbatim>\<open>truncate\<close> (on the path
  with the QR decompositions, or after the dispatch to \<^verbatim>\<open>mGSTruncate\<close>), and when a
  Gram-Schmidt step or \<^verbatim>\<open>findK\<close> yields 0 in \<^verbatim>\<open>mGSTruncate\<close>, the method returns
  normally with the cleared block, which has no panel and rank 0, and with an empty
  ledger: every array allocated on the way and the two panels have been released.
\<close>

theorem zero_rank_not_an_error:
  assumes ab: "rk_a this = Some a" "rk_b this = Some b" and ne: "rank this \<noteq> 0"
  shows "(rank this \<le> is_size (rk_rows this)
          \<and> \<not> min (is_size (rk_rows this)) (is_size (rk_cols this)) < rank this
          \<and> pivots_ok env pA pB this \<and> \<not> usedRecomp env
          \<and> findK env approx
               (truncate_sigma kern (effective_pivot env pA) (effective_pivot env pB) a b) eps = Inr 0
          \<longrightarrow> truncate_rk kern env approx eps pA pB this = Inr (clear this, []))
     \<and> (rank this \<le> is_size (rk_rows this)
          \<and> \<not> min (is_size (rk_rows this)) (is_size (rk_cols this)) < rank this
          \<and> pivots_ok env pA pB this \<and> usedRecomp env
          \<and> mgs_yields_zero kern env approx eps (effective_pivot env pA) (effective_pivot env pB) a b
          \<longrightarrow> truncate_rk kern env approx eps pA pB this = Inr (clear this, []))
     \<and> (mgs_yields_zero kern env approx eps pA pB a b
          \<longrightarrow> mGSTruncate kern env approx eps pA pB this = Inr (clear this, []))
     \<and> rk_a (clear this) = None \<and> rk_b (clear this) = None \<and> rank (clear this) = 0
     \<and> rk_inv (clear this)"
proof (intro conjI impI)
  assume h: "rank this \<le> is_size (rk_rows this)
          \<and> \<not> min (is_size (rk_rows this)) (is_size (rk_cols this)) < rank this
          \<and> pivots_ok env pA pB this \<and> \<not> usedRecomp env
          \<and> findK env approx
               (truncate_sigma kern (effective_pivot env pA) (effective_pivot env pB) a b) eps = Inr 0"
  then show "truncate_rk kern env approx eps pA pB this = Inr (clear this, [])"
    using truncate_zero [OF ab ne, of env pA pB approx kern eps] by blast
next
  assume h: "rank this \<le> is_size (rk_rows this)
          \<and> \<not> min (is_size (rk_rows this)) (is_size (rk_cols this)) < rank this
          \<and> pivots_ok env pA pB this \<and> usedRecomp env
          \<and> mgs_yields_zero kern env approx eps (effective_pivot env pA) (effective_pivot env pB) a b"
  then have "truncate_rk kern env approx eps pA pB this
       = mGSTruncate kern env approx eps (effective_pivot env pA) (effective_pivot env pB) this"
    using truncate_mgs_dispatch [OF ne, of env pA pB kern approx eps] by blast
  with h show "truncate_rk kern env approx eps pA pB this = Inr (clear this, [])"
    using mGSTruncate_zero [OF ab ne] by simp
next
  assume "mgs_yields_zero kern env approx eps pA pB a b"
  then show "mGSTruncate kern env approx eps pA pB this = Inr (clear this, [])"
    by (rule mGSTruncate_zero [OF ab ne])
qed (simp_all add: clear_empty)


theorem zero_rank_not_an_error_witness:
  "truncate_rk kern_sample env_default ctl_default 1 0 0 (rk1 2 3 1) = Inr (clear (rk1 2 3 1), [])
   \<and> truncate_rk kern_sample (env_default\<lparr>usedRecomp := True\<rparr>) ctl_default 1 0 0 (rk1 2 3 1)
       = Inr (clear (rk1 2 3 1), [])
   \<and> mGSTruncate kern_sample env_default ctl_default 1 0 0 (rk1 2 3 1) = Inr (clear (rk1 2 3 1), [])"
proof -
  have ab: "rk_a (rk1 2 3 1) = Some (panel1 2)" "rk_b (rk1 2 3 1) = Some (panel1 3)"
    by (simp_all add: rk1_def)
  have ne: "rank (rk1 2 3 1) \<noteq> 0"
    by (simp add: rk1_inv)
  have shape: "rank (rk1 2 3 1) \<le> is_size (rk_rows (rk1 2 3 1))"
    "\<not> min (is_size (rk_rows (rk1 2 3 1))) (is_size (rk_cols (rk1 2 3 1))) < rank (rk1 2 3 1)"
    by (simp_all add: rk1_inv rk1_fields)
  have piv: "pivots_ok env_default 0 0 (rk1 2 3 1)"
    "pivots_ok (env_default\<lparr>usedRecomp := True\<rparr>) 0 0 (rk1 2 3 1)"
    by (simp_all add: pivots_ok_def effective_pivot_def env_default_def)
  have env: "\<not> usedRecomp env_default" "usedRecomp (env_default\<lparr>usedRecomp := True\<rparr>)"
    by (simp_all add: env_default_def)
  have z1: "findK env_default ctl_default
       (truncate_sigma kern_sample (effective_pivot env_default 0) (effective_pivot env_default 0)
          (panel1 2) (panel1 3)) 1 = Inr 0"
    by (simp add: findK_def truncate_sigma_def kern_sample_def env_default_def ctl_default_def
        panel1_def gemm_def new_ScalarArray_def Let_def)
  have z3: "mgs_yields_zero kern_sample env_default ctl_default 1 0 0 (panel1 2) (panel1 3)"
    by (simp add: mgs_yields_zero_def mgs_rank_def mgs_sigma_def findK_def kern_sample_def
        env_default_def ctl_default_def panel1_def gemm_def new_ScalarArray_def Let_def)
  have z2: "mgs_yields_zero kern_sample (env_default\<lparr>usedRecomp := True\<rparr>) ctl_default 1
       (effective_pivot (env_default\<lparr>usedRecomp := True\<rparr>) 0)
       (effective_pivot (env_default\<lparr>usedRecomp := True\<rparr>) 0) (panel1 2) (panel1 3)"
    by (simp add: mgs_yields_zero_def mgs_rank_def mgs_sigma_def findK_def kern_sample_def
        env_default_def ctl_default_def panel1_def gemm_def new_ScalarArray_def Let_def
        effective_pivot_def)
  from zero_rank_not_an_error [OF ab ne, of env_default 0 0 ctl_default kern_sample 1]
    shape piv(1) env(1) z1 z3
  have "truncate_rk kern_sample env_default ctl_default 1 0 0 (rk1 2 3 1) = Inr (clear (rk1 2 3 1), [])"
    "mGSTruncate kern_sample env_default ctl_default 1 0 0 (rk1 2 3 1) = Inr (clear (rk1 2 3 1), [])"
    by blast+
  moreover
  from zero_rank_not_an_error [OF ab ne, of "env_default\<lparr>usedRecomp := True\<rparr>" 0 0 ctl_default
      kern_sample 1] shape piv(2) env(2) z2
  have "truncate_rk kern_sample (env_default\<lparr>usedRecomp := True\<rparr>) ctl_default 1 0 0 (rk1 2 3 1)
       = Inr (clear (rk1 2 3 1), [])"
    by blast
  ultimately show ?thesis
    by blast
qed

section \<open>The structural invariant is preserved\<close>

lemma rk_inv_rank: "rk_inv R \<Longrightarrow> (rank R = 0 \<longleftrightarrow> rk_a R = None \<and> rk_b R = None)"
  by (auto simp: rk_inv_def rank_def split: option.splits)

lemma new_RkMatrix_inv:
  assumes "new_RkMatrix pa rows pb cols meth = Inr R"
    and "\<forall>a b. pa = Some a \<and> pb = Some b \<longrightarrow> sa_cols a = sa_cols b \<and> 1 \<le> sa_cols a"
  shows "rk_inv R"
proof (cases pa)
  case None
  with assms(1) show ?thesis
    by (cases pb) (auto simp: new_RkMatrix_def err_simps rk_inv_def Let_def)
next
  case (Some a)
  note pa = this
  show ?thesis
  proof (cases pb)
    case None
    with assms(1) pa show ?thesis
      by (auto simp: new_RkMatrix_def err_simps rk_inv_def Let_def split: if_splits)
  next
    case (Some b)
    with assms(2) pa have "sa_cols a = sa_cols b" "1 \<le> sa_cols a"
      by simp_all
    with assms(1) pa Some show ?thesis
      by (auto simp: new_RkMatrix_def err_simps rk_inv_def Let_def split: if_splits)
  qed
qed

lemma transpose_inv: "rk_inv R \<Longrightarrow> rk_inv (transpose_rk R)"
  by (auto simp: rk_inv_def transpose_rk_def split: option.splits)

lemma scale_inv: "rk_inv R \<Longrightarrow> rk_inv (scale al R)"
  by (auto simp: rk_inv_def scale_def sa_scale_def split: option.splits)

lemma swap_inv:
  assumes "swap R S = Inr (R', S')" "rk_inv R" "rk_inv S"
  shows "rk_inv R' \<and> rk_inv S'"
  using assms
  by (auto simp: swap_def err_simps rk_inv_def split: option.splits if_splits)

lemma rebuild_panel_shape:
  "sa_rows (rebuild_panel kern a u p nrows newK) = nrows"
  "sa_cols (rebuild_panel kern a u p nrows newK) = newK"
  by (simp_all add: rebuild_panel_def Let_def new_ScalarArray_def copyMatrixAtOffset_def gemm_def)

lemma truncate_qr_svd_inv:
  assumes "truncate_qr_svd kern env approx eps pA pB this led0 = Inr (R, led)"
  shows "rk_inv R"
  using assms
  by (auto simp: truncate_qr_svd_def err_simps Let_def rk_inv_def clear_def rebuild_panel_shape
      split: option.splits prod.splits sum.splits if_splits)

lemma mGSTruncate_svd_inv:
  assumes "mGSTruncate_svd kern env approx eps this a b ra rb kA kB led0 = Inr (R, led)"
    and "sa_rows a = is_size (rk_rows this)" "sa_rows b = is_size (rk_cols this)"
  shows "rk_inv R"
  using assms
  by (auto simp: mGSTruncate_svd_def err_simps Let_def rk_inv_def clear_def gemm_def
      new_ScalarArray_def
      split: option.splits prod.splits sum.splits if_splits)

lemma mGSTruncate_inv:
  assumes "mGSTruncate kern env approx eps pA pB this = Inr (R, led)" and "rk_inv this"
  shows "rk_inv R"
proof (cases "rank this = 0")
  case True
  with assms show ?thesis
    by (auto simp: mGSTruncate_def err_simps Let_def split: if_splits)
next
  case False
  with assms(2) obtain a b where ab: "rk_a this = Some a" "rk_b this = Some b"
    and sh: "sa_rows a = is_size (rk_rows this)" "sa_rows b = is_size (rk_cols this)"
    by (auto simp: rk_inv_def rank_def split: option.splits)
  obtain kA a_m ra_m where ga: "modifiedGramSchmidt kern a eps pA = (kA, a_m, ra_m)"
    by (cases "modifiedGramSchmidt kern a eps pA")
  obtain kB b_m rb_m where gb: "modifiedGramSchmidt kern b eps pB = (kB, b_m, rb_m)"
    by (cases "modifiedGramSchmidt kern b eps pB")
  show ?thesis
  proof (cases "kA = 0 \<or> kB = 0")
    case True
    with assms(1) False ab ga gb have "R = clear (this\<lparr>rk_a := Some (a\<lparr>sa_cols := kA, sa_m := a_m, sa_ortho := False\<rparr>)\<rparr>)
        \<or> R = clear (this\<lparr>rk_a := Some (a\<lparr>sa_cols := kA, sa_m := a_m, sa_ortho := False\<rparr>),
                         rk_b := Some (b\<lparr>sa_cols := kB, sa_m := b_m, sa_ortho := False\<rparr>)\<rparr>)"
      by (auto simp: mGSTruncate_def err_simps Let_def split: if_splits)
    then show ?thesis
      by (auto simp: clear_empty)
  next
    case F2: False
    with assms(1) False ab ga gb
    have "mGSTruncate_svd kern env approx eps
        (this\<lparr>rk_a := Some (a\<lparr>sa_cols := kA, sa_m := a_m, sa_ortho := False\<rparr>),
              rk_b := Some (b\<lparr>sa_cols := kB, sa_m := b_m, sa_ortho := False\<rparr>)\<rparr>)
        (a\<lparr>sa_cols := kA, sa_m := a_m, sa_ortho := False\<rparr>)
        (b\<lparr>sa_cols := kB, sa_m := b_m, sa_ortho := False\<rparr>)
        ((new_ScalarArray (rank this) (rank this))\<lparr>sa_m := ra_m\<rparr>)
        ((new_ScalarArray (rank this) (rank this))\<lparr>sa_m := rb_m\<rparr>) kA kB
        (new_obj ''rb'' (new_obj ''ra'' (panels_ledger this))) = Inr (R, led)"
      by (simp add: mGSTruncate_def err_simps Let_def)
    then show ?thesis
      by (rule mGSTruncate_svd_inv) (simp_all add: sh)
  qed
qed


lemma eval_fm_ok:
  assumes "eval this = Inr m"
  shows "fm_ok m" "fm_rows m = rk_rows this" "fm_cols m = rk_cols this"
  using assms
  by (auto simp: eval_def evalArray_def err_simps Let_def fm_ok_def new_FullMatrix_def
      new_ScalarArray_def gemm_def sa_clear_def split: option.splits if_splits)

lemma swapped_inv:
  assumes "swap this rk = Inr (R, S)" "rk_inv rk"
  shows "rk_inv R"
  using assms
  by (auto simp: swap_def err_simps rk_inv_def split: option.splits if_splits)

lemma truncate_rk_inv:
  assumes run: "truncate_rk kern env approx eps pA pB this = Inr (R, led)"
    and inv: "rk_inv this" and k: "tsvd_ok kern"
  shows "rk_inv R"
proof (cases "rank this = 0")
  case True
  with run inv show ?thesis
    by (auto simp: truncate_rk_def err_simps Let_def split: if_splits)
next
  case False
  note ne = this
  show ?thesis
  proof (cases "min (is_size (rk_rows this)) (is_size (rk_cols this)) < rank this")
    case True
    with run ne obtain tmp R' S' where ev: "eval this = Inr tmp"
      and sw: "swap this (truncatedSvd kern tmp eps) = Inr (R', S')" and R: "R = R'"
      by (auto simp: truncate_rk_def err_simps Let_def split: if_splits sum.splits prod.splits)
    from k eval_fm_ok(1) [OF ev] have "rk_inv (truncatedSvd kern tmp eps)"
      by (simp add: tsvd_ok_def)
    with sw R show ?thesis
      by (simp add: swapped_inv)
  next
    case False
    show ?thesis
    proof (cases "usedRecomp env")
      case True
      with run ne False
      have "mGSTruncate kern env approx eps (if \<not> useInitPivot env then 0 else pA)
          (if \<not> useInitPivot env then 0 else pB) this = Inr (R, led)"
        by (auto simp: truncate_rk_def err_simps Let_def split: if_splits)
      then show ?thesis
        using inv by (rule mGSTruncate_inv)
    next
      case F3: False
      with run ne False
      have "truncate_qr_svd kern env approx eps (nat (if \<not> useInitPivot env then 0 else pA))
          (nat (if \<not> useInitPivot env then 0 else pB)) this (panels_ledger this) = Inr (R, led)"
        by (auto simp: truncate_rk_def err_simps Let_def split: if_splits)
      then show ?thesis
        by (rule truncate_qr_svd_inv)
    qed
  qed
qed

lemma select_parts_rank:
  assumes "select_parts rows cols xs (used0, rt0, mm0) = Inr (used, rt, mm)"
    and "used0 \<noteq> [] \<longrightarrow> 1 \<le> rt0"
  shows "used \<noteq> [] \<longrightarrow> 1 \<le> rt"
  using assms
proof (induction xs arbitrary: used0 rt0 mm0)
  case Nil
  then show ?case by simp
next
  case (Cons x xs)
  obtain al p where x: "x = (al, p)" by (cases x)
  show ?case
  proof (cases p)
    case None
    with Cons x show ?thesis by simp
  next
    case (Some part)
    show ?thesis
    proof (cases "rank part = 0 \<or> is_size (rk_rows part) = 0 \<or> is_size (rk_cols part) = 0 \<or> al = 0")
      case True
      with Cons.prems x Some
      have "select_parts rows cols xs (used0, rt0, mm0) = Inr (used, rt, mm)"
        by simp
      from Cons.IH [OF this Cons.prems(2)] show ?thesis .
    next
      case False
      with Cons.prems(1) x Some
      have r: "select_parts rows cols xs (used0 @ [(al, part)], rt0 + rank part,
          min mm0 (rk_method part)) = Inr (used, rt, mm)"
        by (auto simp: err_simps split: if_splits)
      from False have "used0 @ [(al, part)] \<noteq> [] \<longrightarrow> 1 \<le> rt0 + rank part"
        by simp
      from Cons.IH [OF r this] show ?thesis .
    qed
  qed
qed

lemma axpy_parts_fm_ok:
  assumes "axpy_parts rows cols xs me = Inr m" "fm_ok me"
  shows "fm_ok m"
  using assms
proof (induction rows cols xs me rule: axpy_parts.induct)
  case (1 rows cols me)
  then show ?case by simp
next
  case (2 rows cols al rest me)
  then show ?case by simp
next
  case (3 rows cols al part rest me)
  from "3.prems"(1) have sub: "isSubset (fm_rows part) rows" "isSubset (fm_cols part) cols"
    by (auto simp: err_simps split: if_splits)
  let ?me = "me\<lparr>fm_data := copyMatrixAtOffset
      (sa_axpy al (fm_data part)
         (subArray (fm_data me) (is_offset (fm_rows part) - is_offset rows) (is_size (fm_rows part))
            (is_offset (fm_cols part) - is_offset cols) (is_size (fm_cols part))))
      (is_offset (fm_rows part) - is_offset rows) (is_offset (fm_cols part) - is_offset cols)
      (fm_data me)\<rparr>"
  from "3.prems"(1) sub have run: "axpy_parts rows cols rest ?me = Inr m"
    by (simp add: err_simps Let_def)
  from "3.prems"(2) have ok: "fm_ok ?me"
    by (simp add: fm_ok_def copyMatrixAtOffset_def)
  from "3.IH" [OF refl refl refl refl refl refl run ok] show ?case .
qed


lemma concat_step_shape:
  assumes "concat_step rows cols u (A, B, ko) = (A1, B1, ko1)"
  shows "sa_rows A1 = sa_rows A" "sa_cols A1 = sa_cols A"
    "sa_rows B1 = sa_rows B" "sa_cols B1 = sa_cols B"
  using assms
  by (auto simp: concat_step_def Let_def copyMatrixAtOffset_def split: if_splits)

lemma concat_parts_shape:
  assumes "concat_parts rows cols ups (A, B, ko) = (A', B', ko')"
  shows "sa_rows A' = sa_rows A \<and> sa_cols A' = sa_cols A
    \<and> sa_rows B' = sa_rows B \<and> sa_cols B' = sa_cols B"
  using assms
proof (induction ups arbitrary: A B ko)
  case Nil
  then show ?case by simp
next
  case (Cons u us)
  obtain A1 B1 ko1 where st: "concat_step rows cols u (A, B, ko) = (A1, B1, ko1)"
    by (cases "concat_step rows cols u (A, B, ko)")
  with Cons.prems have "concat_parts rows cols us (A1, B1, ko1) = (A', B', ko')"
    by simp
  from Cons.IH [OF this] concat_step_shape [OF st] show ?case
    by simp
qed

lemma formattedAddParts_full_inv:
  assumes run: "formattedAddParts_full kern approx alpha fulls n this = Inr R"
    and k: "tsvd_ok kern"
  shows "rk_inv R"
proof -
  from run obtain me m where ev: "eval this = Inr me"
    and ax: "axpy_parts (rk_rows this) (rk_cols this) (zip (take n alpha) (take n fulls)) me = Inr m"
    and R: "R = truncatedSvd kern m (recompressionEpsilon approx)"
    by (auto simp: formattedAddParts_full_def err_simps split: if_splits sum.splits)
  from axpy_parts_fm_ok [OF ax eval_fm_ok(1) [OF ev]] k R show ?thesis
    by (simp add: tsvd_ok_def)
qed

lemma formattedAddParts_dense_inv:
  assumes run: "formattedAddParts_dense kern approx this used = Inr R"
    and k: "tsvd_ok kern"
  shows "rk_inv R"
proof -
  from run obtain fulls where
    "formattedAddParts_full kern approx (map fst used)
        ((if rank this \<noteq> 0 then [None] else []) @ fulls) (length used) this = Inr R"
    by (auto simp: formattedAddParts_dense_def ebind_def split: sum.splits)
  then show ?thesis
    using k by (rule formattedAddParts_full_inv)
qed

lemma formattedAddParts_concat_inv:
  assumes run: "formattedAddParts_concat kern env approx dotruncate this used rt mm = Inr R"
    and k: "tsvd_ok kern" and rt1: "1 \<le> rt"
  shows "rk_inv R"
proof -
  from run obtain ups0 where d: "deref_parts used = Inr ups0"
    by (auto simp: formattedAddParts_concat_def formattedAddParts_build_def ebind_def split: sum.splits)
  obtain ups pA pB where re: "(if useBestRk env then reorder_parts ups0
                    else (ups0, fst (first_pivots ups0), snd (first_pivots ups0))) = (ups, pA, pB)"
    by (cases "if useBestRk env then reorder_parts ups0
                    else (ups0, fst (first_pivots ups0), snd (first_pivots ups0))")
  obtain A B ko where cp: "concat_parts (rk_rows this) (rk_cols this) ups
                          (new_ScalarArray (is_size (rk_rows this)) rt,
                           new_ScalarArray (is_size (rk_cols this)) rt, 0) = (A, B, ko)"
    by (cases "concat_parts (rk_rows this) (rk_cols this) ups
                          (new_ScalarArray (is_size (rk_rows this)) rt,
                           new_ScalarArray (is_size (rk_cols this)) rt, 0)")
  from run d re cp obtain rk where
    nw: "new_RkMatrix (Some A) (rk_rows this) (Some B) (rk_cols this) mm = Inr rk"
    and fin: "(if length ups > 1 \<and> dotruncate then
                 ebind (truncate_rk kern env approx (recompressionEpsilon approx) pA pB rk)
                   (\<lambda>(rk, led). Inr rk)
               else Inr rk) = Inr R"
    by (auto simp: formattedAddParts_concat_def formattedAddParts_build_def ebind_def assert_def split: sum.splits if_splits)
  from concat_parts_shape [OF cp] rt1
  have "\<forall>a b. Some A = Some a \<and> Some B = Some b \<longrightarrow> sa_cols a = sa_cols b \<and> 1 \<le> sa_cols a"
    by (simp add: new_ScalarArray_def)
  with nw have inv: "rk_inv rk"
    by (rule new_RkMatrix_inv)
  show ?thesis
  proof (cases "length ups > 1 \<and> dotruncate")
    case True
    with fin obtain led where
      "truncate_rk kern env approx (recompressionEpsilon approx) pA pB rk = Inr (R, led)"
      by (auto simp: ebind_def split: sum.splits)
    then show ?thesis
      using inv k by (rule truncate_rk_inv)
  next
    case False
    with fin inv show ?thesis by auto
  qed
qed

lemma formattedAddParts_inv:
  assumes run: "formattedAddParts kern env approx alpha parts n dotruncate this = Inr R"
    and k: "tsvd_ok kern"
  shows "rk_inv R"
proof -
  let ?st0 = "if rank this \<noteq> 0 then ([(1, this)], rank this, rk_method this)
                  else ([], 0, rk_method this)"
  from run obtain used rt mm where
    sel: "select_parts (rk_rows this) (rk_cols this) (zip (take n alpha) (take n parts)) ?st0
        = Inr (used, rt, mm)"
    by (auto simp: formattedAddParts_def err_simps split: if_splits sum.splits)
  have rt: "used \<noteq> [] \<longrightarrow> 1 \<le> rt"
  proof (cases "rank this \<noteq> 0")
    case True
    with sel have "select_parts (rk_rows this) (rk_cols this) (zip (take n alpha) (take n parts))
        ([(1, this)], rank this, rk_method this) = Inr (used, rt, mm)"
      by simp
    then show ?thesis
      by (rule select_parts_rank) (use True in simp)
  next
    case False
    with sel have "select_parts (rk_rows this) (rk_cols this) (zip (take n alpha) (take n parts))
        ([], 0, rk_method this) = Inr (used, rt, mm)"
      by simp
    then show ?thesis
      by (rule select_parts_rank) simp
  qed
  from run sel have body:
    "(if length used = 0 then
               new_RkMatrix None (rk_rows this) None (rk_cols this) mm
             else if rt \<ge> min (is_size (rk_rows this)) (is_size (rk_cols this)) then
               formattedAddParts_dense kern approx this used
             else
               formattedAddParts_concat kern env approx dotruncate this used rt mm) = Inr R"
    by (simp add: formattedAddParts_def ebind_def split: if_splits)
  show ?thesis
  proof (cases "length used = 0")
    case True
    with body have "new_RkMatrix None (rk_rows this) None (rk_cols this) mm = Inr R"
      by simp
    then show ?thesis
      by (rule new_RkMatrix_inv) simp
  next
    case False
    note ne = this
    with rt have rt1: "1 \<le> rt" by simp
    show ?thesis
    proof (cases "rt \<ge> min (is_size (rk_rows this)) (is_size (rk_cols this))")
      case True
      with body ne have "formattedAddParts_dense kern approx this used = Inr R"
        by simp
      then show ?thesis
        using k by (rule formattedAddParts_dense_inv)
    next
      case False
      with body ne have "formattedAddParts_concat kern env approx dotruncate this used rt mm = Inr R"
        by simp
      then show ?thesis
        using k rt1 by (rule formattedAddParts_concat_inv)
    qed
  qed
qed


lemma tsvd_ok_sample: "tsvd_ok kern_sample"
  by (auto simp: tsvd_ok_def fm_ok_def kern_sample_def rk_inv_def identity_array_def)

lemma rk1_panels: "rk_a (rk1 x y meth) = Some (panel1 x)" "rk_b (rk1 x y meth) = Some (panel1 y)"
  by (simp_all add: rk1_def)

lemma formattedAddParts_rk1_run:
  "formattedAddParts kern_sample env_default ctl_default [] [] 0 False (rk1 x y 0) = Inr (rk_empty 0)"
  by (simp add: formattedAddParts_def formattedAddParts_dense_def formattedAddParts_full_def
      rk1_inv rk1_fields rk1_panels err_simps eval_def evalArray_def new_FullMatrix_def kern_sample_def
      ctl_default_def rk_empty_def Let_def)

lemma rk_sq_facts: "rk_inv rk_sq_empty" "rank rk_sq_empty = 0" "rk_rows rk_sq_empty = idx2"
  "rk_cols rk_sq_empty = idx2" "is_size idx2 = 2" "rk_inv (rk_sq x y)" "rank (rk_sq x y) = 1"
  "rk_rows (rk_sq x y) = idx2" "rk_cols (rk_sq x y) = idx2" "dense (rk_sq x y) i j = x * y"
  "dense rk_sq_empty i j = 0" "is_offset idx2 = 0"
  by (simp_all add: rk_sq_empty_def rk_sq_def rk_inv_def rank_def idx2_def const_array_def
      dense_def)

lemma truncate_keep_run:
  "\<exists>R led. truncate_rk kern_sample env_default ctl_default (1 / 4) 0 0 (rk1 2 3 0) = Inr (R, led)
     \<and> rank R = 1"
  by (simp add: truncate_rk_def truncate_qr_svd_def rk1_inv rk1_fields rk1_panels panel1_fields
      err_simps env_default_def kern_sample_def ctl_default_def findK_def Let_def
      identity_array_def new_ScalarArray_def gemm_def sqrt_first_def rank_def
      rebuild_panel_def copyMatrixAtOffset_def multiplyWithDiag_def set_cols_def
      panels_ledger_def)

lemma mGSTruncate_keep_run:
  "\<exists>R led. mGSTruncate kern_sample env_default ctl_default (1 / 4) 0 0 (rk1 2 3 0) = Inr (R, led)
     \<and> rank R = 1"
  by (simp add: mGSTruncate_def mGSTruncate_svd_def rk1_inv rk1_fields rk1_panels panel1_fields
      err_simps env_default_def kern_sample_def ctl_default_def findK_def Let_def
      identity_array_def new_ScalarArray_def gemm_def sqrt_first_def rank_def
      multiplyWithDiag_def set_cols_def panels_ledger_def)

lemma formattedAddParts_keep_run:
  "\<exists>R. formattedAddParts kern_sample env_default ctl_default [2] [Some (rk_sq 1 3)] 1 True
        rk_sq_empty = Inr R \<and> rank R = 1"
  by (simp add: formattedAddParts_def formattedAddParts_concat_def formattedAddParts_build_def rk_sq_facts err_simps
      env_default_def isSubset_def deref_parts.simps first_pivots_def concat_step_def
      rk_sq_def rk_sq_empty_def new_RkMatrix_def copyMatrixAtOffset_def new_ScalarArray_def rank_def
      const_array_def Let_def idx2_def)

text \<open>
  Claim C7, as amended. A block that satisfies the structural invariant has rank 0
  exactly when both panels are absent (otherwise, by \<open>rk_inv\<close>, both are present with the
  same column count \<open>k \<ge> 1\<close>, \<open>a\<close> with \<open>rows.size\<close> rows and \<open>b\<close> with \<open>cols.size\<close> rows), and
  every operation keeps the invariant: \<^verbatim>\<open>clear\<close>, \<^verbatim>\<open>transpose\<close>, \<^verbatim>\<open>scale\<close>, \<^verbatim>\<open>swap\<close> (for
  both blocks), and \<^verbatim>\<open>truncate\<close>, \<^verbatim>\<open>mGSTruncate\<close> and \<^verbatim>\<open>formattedAddParts\<close> whenever
  they return, for every toggle, tolerance, pivots and list of parts. The constructor
  checks the row counts of the two panels and nothing else: the block it returns
  satisfies the invariant when the panels it is given are both absent or have the same
  column count \<open>k \<ge> 1\<close>.
\<close>

theorem rk_invariant_preserved:
  assumes inv: "rk_inv this" and k: "tsvd_ok kern"
  shows "(rank this = 0 \<longleftrightarrow> rk_a this = None \<and> rk_b this = None)
    \<and> (\<forall>pa pb rows cols meth R.
          new_RkMatrix pa rows pb cols meth = Inr R
          \<and> (\<forall>a b. pa = Some a \<and> pb = Some b \<longrightarrow> sa_cols a = sa_cols b \<and> 1 \<le> sa_cols a)
          \<longrightarrow> rk_inv R)
    \<and> rk_inv (clear this)
    \<and> rk_inv (transpose_rk this)
    \<and> rk_inv (scale alpha this)
    \<and> (\<forall>other R S. rk_inv other \<and> swap this other = Inr (R, S) \<longrightarrow> rk_inv R \<and> rk_inv S)
    \<and> (\<forall>eps pA pB R led. truncate_rk kern env approx eps pA pB this = Inr (R, led) \<longrightarrow> rk_inv R)
    \<and> (\<forall>eps pA pB R led. mGSTruncate kern env approx eps pA pB this = Inr (R, led) \<longrightarrow> rk_inv R)
    \<and> (\<forall>al parts n dotruncate R.
          formattedAddParts kern env approx al parts n dotruncate this = Inr R \<longrightarrow> rk_inv R)"
proof -
  have c1: "rank this = 0 \<longleftrightarrow> rk_a this = None \<and> rk_b this = None"
    using inv by (rule rk_inv_rank)
  have c2: "\<forall>pa pb rows cols meth R.
          new_RkMatrix pa rows pb cols meth = Inr R
          \<and> (\<forall>a b. pa = Some a \<and> pb = Some b \<longrightarrow> sa_cols a = sa_cols b \<and> 1 \<le> sa_cols a)
          \<longrightarrow> rk_inv R"
    using new_RkMatrix_inv by blast
  have c3: "rk_inv (clear this)"
    by (rule clear_empty)
  have c4: "rk_inv (transpose_rk this)"
    using inv by (rule transpose_inv)
  have c5: "rk_inv (scale alpha this)"
    using inv by (rule scale_inv)
  have c6: "\<forall>other R S. rk_inv other \<and> swap this other = Inr (R, S) \<longrightarrow> rk_inv R \<and> rk_inv S"
    using swap_inv [OF _ inv] by blast
  have c7: "\<forall>eps pA pB R led. truncate_rk kern env approx eps pA pB this = Inr (R, led) \<longrightarrow> rk_inv R"
    using truncate_rk_inv [OF _ inv k] by blast
  have c8: "\<forall>eps pA pB R led. mGSTruncate kern env approx eps pA pB this = Inr (R, led) \<longrightarrow> rk_inv R"
    using mGSTruncate_inv [OF _ inv] by blast
  have c9: "\<forall>al parts n dotruncate R.
          formattedAddParts kern env approx al parts n dotruncate this = Inr R \<longrightarrow> rk_inv R"
    using formattedAddParts_inv [OF _ k] by blast
  from c1 c2 c3 c4 c5 c6 c7 c8 c9 show ?thesis
    by (intro conjI) assumption+
qed

theorem rk_invariant_preserved_witness:
  "rk_inv (rk1 2 3 0) \<and> tsvd_ok kern_sample \<and> rank (rk1 2 3 0) = 1
   \<and> new_RkMatrix (Some (panel1 2)) idx1 (Some (panel1 3)) idx1 0 = Inr (rk1 2 3 0)
   \<and> rk_inv (clear (rk1 2 3 0))
   \<and> rk_inv (transpose_rk (rk1 2 3 0))
   \<and> rk_inv (scale 5 (rk1 2 3 0))
   \<and> swap (rk1 2 3 0) (rk_empty 1) = Inr (rk_empty 0\<lparr>rk_method := 1\<rparr>, rk1 2 3 1\<lparr>rk_method := 0\<rparr>)
   \<and> rk_inv (rk_empty 0\<lparr>rk_method := 1\<rparr>) \<and> rk_inv (rk1 2 3 1\<lparr>rk_method := 0\<rparr>)
   \<and> truncate_rk kern_sample env_default ctl_default 1 0 0 (rk1 2 3 0) = Inr (clear (rk1 2 3 0), [])
   \<and> mGSTruncate kern_sample env_default ctl_default 1 0 0 (rk1 2 3 0) = Inr (clear (rk1 2 3 0), [])
   \<and> formattedAddParts kern_sample env_default ctl_default [] [] 0 False (rk1 2 3 0) = Inr (rk_empty 0)
   \<and> rk_inv (rk_empty 0)
   \<and> (\<exists>R led. truncate_rk kern_sample env_default ctl_default (1 / 4) 0 0 (rk1 2 3 0) = Inr (R, led)
         \<and> rank R = 1 \<and> rk_inv R)
   \<and> (\<exists>R led. mGSTruncate kern_sample env_default ctl_default (1 / 4) 0 0 (rk1 2 3 0) = Inr (R, led)
         \<and> rank R = 1 \<and> rk_inv R)
   \<and> (\<exists>R. formattedAddParts kern_sample env_default ctl_default [2] [Some (rk_sq 1 3)] 1 True
            rk_sq_empty = Inr R \<and> rank R = 1 \<and> rk_inv R)"
proof -
  note th = rk_invariant_preserved [OF rk1_inv(1) tsvd_ok_sample, of 2 3 0 5 env_default ctl_default]
  note th2 = rk_invariant_preserved [OF rk_sq_facts(1) tsvd_ok_sample, of 1 env_default
      ctl_default]
  have ab: "rk_a (rk1 2 3 0) = Some (panel1 2)" "rk_b (rk1 2 3 0) = Some (panel1 3)"
    by (simp_all add: rk1_def)
  have ne: "rank (rk1 2 3 0) \<noteq> 0"
    by (simp add: rk1_inv)
  have shape: "rank (rk1 2 3 0) \<le> is_size (rk_rows (rk1 2 3 0))"
    "\<not> min (is_size (rk_rows (rk1 2 3 0))) (is_size (rk_cols (rk1 2 3 0))) < rank (rk1 2 3 0)"
    by (simp_all add: rk1_inv rk1_fields)
  have piv: "pivots_ok env_default 0 0 (rk1 2 3 0)"
    by (simp add: pivots_ok_def effective_pivot_def env_default_def)
  have env: "\<not> usedRecomp env_default"
    by (simp add: env_default_def)
  have z1: "findK env_default ctl_default
       (truncate_sigma kern_sample (effective_pivot env_default 0) (effective_pivot env_default 0)
          (panel1 2) (panel1 3)) 1 = Inr 0"
    by (simp add: findK_def truncate_sigma_def kern_sample_def env_default_def ctl_default_def
        panel1_def gemm_def new_ScalarArray_def Let_def)
  have z3: "mgs_yields_zero kern_sample env_default ctl_default 1 0 0 (panel1 2) (panel1 3)"
    by (simp add: mgs_yields_zero_def mgs_rank_def mgs_sigma_def findK_def kern_sample_def
        env_default_def ctl_default_def panel1_def gemm_def new_ScalarArray_def Let_def)
  have t: "truncate_rk kern_sample env_default ctl_default 1 0 0 (rk1 2 3 0) = Inr (clear (rk1 2 3 0), [])"
    by (rule truncate_zero [OF ab ne shape env piv z1])
  have m: "mGSTruncate kern_sample env_default ctl_default 1 0 0 (rk1 2 3 0) = Inr (clear (rk1 2 3 0), [])"
    by (rule mGSTruncate_zero [OF ab ne z3])
  have f: "formattedAddParts kern_sample env_default ctl_default [] [] 0 False (rk1 2 3 0) = Inr (rk_empty 0)"
    by (rule formattedAddParts_rk1_run)
  have n: "new_RkMatrix (Some (panel1 2)) idx1 (Some (panel1 3)) idx1 0 = Inr (rk1 2 3 0)"
    by (simp add: new_RkMatrix_def err_simps rk1_def panel1_def idx1_def)
  have s: "swap (rk1 2 3 0) (rk_empty 1) = Inr (rk_empty 0\<lparr>rk_method := 1\<rparr>, rk1 2 3 1\<lparr>rk_method := 0\<rparr>)"
    by (simp add: swap_def err_simps rk1_def rk_empty_def)
  from th have r1: "rk_inv (clear (rk1 2 3 0))" and r2: "rk_inv (transpose_rk (rk1 2 3 0))"
    and r3: "rk_inv (scale 5 (rk1 2 3 0))"
    by simp_all
  from th rk_empty_inv(1) [of 1] s
  have r4: "rk_inv (rk_empty 0\<lparr>rk_method := 1\<rparr>)" "rk_inv (rk1 2 3 1\<lparr>rk_method := 0\<rparr>)"
    by blast+
  from th f have r5: "rk_inv (rk_empty 0)"
    by blast
  from truncate_keep_run obtain R1 led1 where
    k1: "truncate_rk kern_sample env_default ctl_default (1 / 4) 0 0 (rk1 2 3 0) = Inr (R1, led1)"
    "rank R1 = 1"
    by (elim exE conjE) (rule that, assumption+)
  from th k1(1) have i1: "rk_inv R1"
    by blast
  from k1 i1 have r6: "\<exists>R led. truncate_rk kern_sample env_default ctl_default (1 / 4) 0 0
      (rk1 2 3 0) = Inr (R, led) \<and> rank R = 1 \<and> rk_inv R"
    by (intro exI conjI) assumption+
  from mGSTruncate_keep_run obtain R2 led2 where
    k2: "mGSTruncate kern_sample env_default ctl_default (1 / 4) 0 0 (rk1 2 3 0) = Inr (R2, led2)"
    "rank R2 = 1"
    by (elim exE conjE) (rule that, assumption+)
  from th k2(1) have i2: "rk_inv R2"
    by blast
  from k2 i2 have r7: "\<exists>R led. mGSTruncate kern_sample env_default ctl_default (1 / 4) 0 0
      (rk1 2 3 0) = Inr (R, led) \<and> rank R = 1 \<and> rk_inv R"
    by (intro exI conjI) assumption+
  from formattedAddParts_keep_run obtain R3 where
    k3: "formattedAddParts kern_sample env_default ctl_default [2] [Some (rk_sq 1 3)] 1 True
        rk_sq_empty = Inr R3" "rank R3 = 1"
    by (elim exE conjE) (rule that, assumption+)
  from th2 k3(1) have i3: "rk_inv R3"
    by blast
  from k3 i3 have r8: "\<exists>R. formattedAddParts kern_sample env_default ctl_default [2]
      [Some (rk_sq 1 3)] 1 True rk_sq_empty = Inr R \<and> rank R = 1 \<and> rk_inv R"
    by (intro exI conjI) assumption+
  from rk1_inv(1) [of 2 3 0] tsvd_ok_sample rk1_inv(2) [of 2 3 0] n r1 r2 r3 s r4 t m f r5 r6 r7 r8
  show ?thesis
    by (intro conjI) assumption+
qed

text \<open>
  The claim as stated fails for the constructor: given a panel \<open>a\<close> with one column and a
  panel \<open>b\<close> with two columns, each with the row count of its index set, it returns a
  block that does not satisfy the invariant.
\<close>

theorem rk_invariant_preserved_counterexample:
  "new_RkMatrix (Some (const_array 1 1 1)) idx1 (Some (const_array 1 2 1)) idx1 0
     = Inr \<lparr>rk_rows = idx1, rk_cols = idx1, rk_a = Some (const_array 1 1 1),
            rk_b = Some (const_array 1 2 1), rk_method = 0\<rparr>
   \<and> \<not> rk_inv \<lparr>rk_rows = idx1, rk_cols = idx1, rk_a = Some (const_array 1 1 1),
            rk_b = Some (const_array 1 2 1), rk_method = 0\<rparr>"
  by (simp add: new_RkMatrix_def err_simps const_array_def idx1_def rk_inv_def)

section \<open>Properties of \<^verbatim>\<open>formattedAddParts\<close>\<close>








































end
